(* ===== verification/Prelude.thy ===== *)
theory Prelude
  imports Complex_Main
begin

text \<open>
  Shared vocabulary of the development: the Python exceptions the program raises, a small
  state-and-exception calculus in which the stateful methods are written, the Python
  slicing and rounding operations the sources use, and the lemmas on them.

  Python's unbounded integers are \<open>nat\<close> or \<open>int\<close>; Python floats are \<open>real\<close> (rounding of
  double arithmetic is not modelled).
\<close>

type_synonym py_float = real

section \<open>Exceptions\<close>

text \<open>
  The exceptions the call path distinguishes. \<open>BaseException\<close> stands for the ones that are
  no \<open>Exception\<close> (KeyboardInterrupt and the like), which \<open>except Exception\<close> lets through.
\<close>

datatype exn =
    NotImplementedError
  | CircuitOpenError
  | Tier2Unavailable string
  | HandoffUnavailable string
  | CancelledError
  | AttributeError
  | RuntimeError string
  | OtherException string
  | BaseException string

fun is_Exception :: "exn \<Rightarrow> bool" where
  "is_Exception (BaseException _) = False"
| "is_Exception _ = True"

section \<open>Methods as state transformers that may raise\<close>

text \<open>
  A method body maps the state it mutates to its outcome (\<open>Inl\<close> an exception, \<open>Inr\<close> the
  returned value) and the new state. What was mutated before a raise stays mutated.
\<close>

type_synonym ('s, 'a) proc = "'s \<Rightarrow> (exn + 'a) \<times> 's"

definition ret :: "'a \<Rightarrow> ('s, 'a) proc" where
  "ret x s = (Inr x, s)"

definition raise :: "exn \<Rightarrow> ('s, 'a) proc" where
  "raise e s = (Inl e, s)"

definition modify :: "('s \<Rightarrow> 's) \<Rightarrow> ('s, unit) proc" where
  "modify f s = (Inr (), f s)"

definition bind :: "('s, 'a) proc \<Rightarrow> ('a \<Rightarrow> ('s, 'b) proc) \<Rightarrow> ('s, 'b) proc" where
  "bind p f s = (case p s of (Inl e, s') \<Rightarrow> (Inl e, s') | (Inr x, s') \<Rightarrow> f x s')"

definition andthen :: "('s, 'a) proc \<Rightarrow> ('s, 'b) proc \<Rightarrow> ('s, 'b) proc" where
  "andthen p q = bind p (\<lambda>_. q)"

text \<open>\<open>try: p; except Exception as e: h e\<close>.\<close>

definition try_except :: "('s, 'a) proc \<Rightarrow> (exn \<Rightarrow> ('s, 'a) proc) \<Rightarrow> ('s, 'a) proc" where
  "try_except p h s = (case p s of
       (Inl e, s') \<Rightarrow> (if is_Exception e then h e s' else (Inl e, s'))
     | (Inr x, s') \<Rightarrow> (Inr x, s'))"

text \<open>A body that reads the object it runs on.\<close>

definition self :: "('s \<Rightarrow> ('s \<times> 'w, 'a) proc) \<Rightarrow> ('s \<times> 'w, 'a) proc" where
  "self f st = f (fst st) st"

definition update :: "('s \<Rightarrow> 's) \<Rightarrow> ('s \<times> 'w, unit) proc" where
  "update f st = (Inr (), (f (fst st), snd st))"

named_theorems proc_defs \<open>the combinators, for running a method on a state\<close>

declare ret_def [proc_defs] raise_def [proc_defs] modify_def [proc_defs]
  bind_def [proc_defs] andthen_def [proc_defs] try_except_def [proc_defs]
  self_def [proc_defs] update_def [proc_defs]

lemma bind_ret [simp]: "bind (ret x) f = f x"
  by (simp add: fun_eq_iff proc_defs)

lemma bind_assoc: "bind (bind p f) g = bind p (\<lambda>x. bind (f x) g)"
  by (simp add: fun_eq_iff proc_defs split: prod.split sum.split)

lemma try_except_ret [simp]: "try_except (ret x) h = ret x"
  by (simp add: fun_eq_iff proc_defs)

subsection \<open>What a method can do to the state\<close>

text \<open>\<open>moves R p\<close>: however \<open>p\<close> ends, its final state is \<open>R\<close>-related to its initial one.\<close>

definition moves :: "('s \<Rightarrow> 's \<Rightarrow> bool) \<Rightarrow> ('s, 'a) proc \<Rightarrow> bool" where
  "moves R p \<longleftrightarrow> (\<forall>s. R s (snd (p s)))"

lemma movesI [intro?]: "(\<And>s. R s (snd (p s))) \<Longrightarrow> moves R p"
  by (simp add: moves_def)

lemma movesD: "moves R p \<Longrightarrow> R s (snd (p s))"
  by (simp add: moves_def)

lemma movesE: "moves R p \<Longrightarrow> p s = (r, s') \<Longrightarrow> R s s'"
  by (drule movesD [of R p s]) simp

lemma moves_mono: "moves R p \<Longrightarrow> (\<And>s s'. R s s' \<Longrightarrow> Q s s') \<Longrightarrow> moves Q p"
  by (simp add: moves_def)

text \<open>
  For a reflexive and transitive \<open>R\<close> (a preserved invariant, a trace that only grows, a
  flag that is never cleared) the rules below reduce a method to its primitive steps.
\<close>

locale transition_order =
  fixes R :: "'s \<Rightarrow> 's \<Rightarrow> bool"
  assumes R_refl: "R s s"
    and R_trans: "R s t \<Longrightarrow> R t u \<Longrightarrow> R s u"
begin

lemma moves_ret: "moves R (ret x)"
  by (simp add: moves_def ret_def R_refl)

lemma moves_raise: "moves R (raise e)"
  by (simp add: moves_def raise_def R_refl)

lemma moves_modify: "(\<And>s. R s (f s)) \<Longrightarrow> moves R (modify f)"
  by (simp add: moves_def modify_def)

lemma moves_bind:
  assumes p: "moves R p" and f: "\<And>x. moves R (f x)"
  shows "moves R (bind p f)"
proof
  fix s
  obtain r s' where ps: "p s = (r, s')" by fastforce
  have first: "R s s'" by (rule movesE [OF p ps])
  show "R s (snd (bind p f s))"
  proof (cases r)
    case (Inl e)
    with ps first show ?thesis by (simp add: bind_def)
  next
    case (Inr x)
    with ps R_trans [OF first movesD [OF f [of x], of s']] show ?thesis
      by (simp add: bind_def)
  qed
qed

lemma moves_andthen: "moves R p \<Longrightarrow> moves R q \<Longrightarrow> moves R (andthen p q)"
  by (simp add: andthen_def moves_bind)

lemma moves_try:
  assumes p: "moves R p" and h: "\<And>e. moves R (h e)"
  shows "moves R (try_except p h)"
proof
  fix s
  obtain r s' where ps: "p s = (r, s')" by fastforce
  have first: "R s s'" by (rule movesE [OF p ps])
  show "R s (snd (try_except p h s))"
  proof (cases r)
    case (Inl e)
    with ps first R_trans [OF first movesD [OF h [of e], of s']] show ?thesis
      by (simp add: try_except_def)
  next
    case (Inr x)
    with ps first show ?thesis by (simp add: try_except_def)
  qed
qed

lemmas moves_intros = moves_ret moves_raise moves_bind moves_andthen moves_try

end

lemma moves_self: "(\<And>s. moves R (f s)) \<Longrightarrow> moves R (self f)"
  by (simp add: moves_def self_def)

lemma moves_update: "(\<And>s w. R (s, w) (f s, w)) \<Longrightarrow> moves R (update f)"
  by (simp add: moves_def update_def)

text \<open>Keeping an invariant of the object, however the method ends.\<close>

definition keeps :: "('s \<Rightarrow> bool) \<Rightarrow> 's \<times> 'w \<Rightarrow> 's \<times> 'w \<Rightarrow> bool" where
  "keeps I st st' \<longleftrightarrow> (I (fst st) \<longrightarrow> I (fst st'))"

interpretation keeps: transition_order "keeps I :: 's \<times> 'w \<Rightarrow> 's \<times> 'w \<Rightarrow> bool" for I
  by unfold_locales (auto simp: keeps_def)

text \<open>
  Two methods in sequence, with different facts known before, between and after: from \<open>P\<close>
  the first reaches \<open>Q\<close> when it returns and \<open>R\<close> when it raises, and so on.
\<close>

definition hoare ::
  "('s \<Rightarrow> bool) \<Rightarrow> ('s, 'a) proc \<Rightarrow> ('a \<Rightarrow> 's \<Rightarrow> bool) \<Rightarrow> ('s \<Rightarrow> bool) \<Rightarrow> bool" where
  "hoare P p Q E \<longleftrightarrow>
     (\<forall>s. P s \<longrightarrow> (case p s of (Inl e, s') \<Rightarrow> E s' | (Inr x, s') \<Rightarrow> Q x s'))"

lemma hoare_ret: "(\<And>s. P s \<Longrightarrow> Q x s) \<Longrightarrow> hoare P (ret x) Q E"
  by (simp add: hoare_def ret_def)

lemma hoare_raise: "(\<And>s. P s \<Longrightarrow> E s) \<Longrightarrow> hoare P (raise e) Q E"
  by (simp add: hoare_def raise_def)

lemma hoare_bind:
  "hoare P p Q E \<Longrightarrow> (\<And>x. hoare (Q x) (f x) Q' E) \<Longrightarrow> hoare P (bind p f) Q' E"
  by (fastforce simp: hoare_def bind_def split: prod.splits sum.splits)

lemma hoare_andthen:
  "hoare P p (\<lambda>_. Q) E \<Longrightarrow> hoare Q q Q' E \<Longrightarrow> hoare P (andthen p q) Q' E"
  unfolding andthen_def by (rule hoare_bind)

lemma hoare_try:
  assumes "hoare P p Q H" "\<And>e. hoare H (h e) Q E" "\<And>s. H s \<Longrightarrow> E s"
  shows "hoare P (try_except p h) Q E"
  using assms by (fastforce simp: hoare_def try_except_def split: prod.splits sum.splits)

lemma hoare_self:
  "(\<And>s. hoare (\<lambda>st. P st \<and> fst st = s) (f s) Q E) \<Longrightarrow> hoare P (self f) Q E"
  by (simp add: hoare_def self_def)

lemma hoare_update: "(\<And>s w. P (s, w) \<Longrightarrow> Q () (f s, w)) \<Longrightarrow> hoare P (update f) Q E"
  by (auto simp: hoare_def update_def)

lemma hoare_weaken:
  assumes "hoare P p Q E" "\<And>s. P' s \<Longrightarrow> P s" "\<And>x s. Q x s \<Longrightarrow> Q' x s" "\<And>s. E s \<Longrightarrow> E' s"
  shows "hoare P' p Q' E'"
  using assms by (fastforce simp: hoare_def split: prod.splits sum.splits)

lemma hoareD:
  assumes "hoare P p (\<lambda>_. Q) Q" "P s" shows "Q (snd (p s))"
  using assms by (cases "p s") (auto simp: hoare_def split: sum.splits)

lemma hoareI:
  assumes "\<And>s. P s \<Longrightarrow> Q (snd (p s))" shows "hoare P p (\<lambda>_. Q) Q"
  using assms by (fastforce simp: hoare_def split: prod.splits sum.splits)

lemma hoare_moves: "hoare I p (\<lambda>_. I) I \<longleftrightarrow> moves (\<lambda>s s'. I s \<longrightarrow> I s') p"
  by (auto simp: moves_def intro: hoareI hoareD)

section \<open>Python slices, conversions and rounding\<close>

text \<open>
  \<open>xs[-n:]\<close>. For \<open>n = 0\<close> Python reads \<open>xs[0:]\<close>, the whole sequence, and for a negative
  \<open>n\<close> it reads \<open>xs[|n|:]\<close>.
\<close>

definition last_n :: "int \<Rightarrow> 'a list \<Rightarrow> 'a list" where
  "last_n n xs = (if 0 < n then drop (length xs - nat n) xs else drop (nat (- n)) xs)"

lemma last_n_zero [simp]: "last_n 0 xs = xs"
  by (simp add: last_n_def)

lemma length_last_n: "0 < n \<Longrightarrow> length (last_n n xs) = min (nat n) (length xs)"
  by (simp add: last_n_def min_def)

lemma last_n_all [simp]: "0 < n \<Longrightarrow> int (length xs) \<le> n \<Longrightarrow> last_n n xs = xs"
  by (simp add: last_n_def)

lemma last_n_append_absorb:
  assumes "0 \<le> n"
  shows "last_n n (last_n n xs @ ys) = last_n n (xs @ ys)"
proof (cases "n = 0")
  case False
  with assms have "0 < n" by simp
  then show ?thesis
    by (cases "nat n \<le> length xs") (auto simp: last_n_def add.commute)
qed simp

lemma last_n_suffix: "\<exists>zs. xs = zs @ last_n n xs"
proof -
  have "\<exists>k. last_n n xs = drop k xs" by (auto simp: last_n_def)
  then show ?thesis by (metis append_take_drop_id)
qed

text \<open>The slices \<open>xs[i : i + n]\<close> for \<open>i\<close> in \<open>range(0, len(xs), n)\<close>, \<open>n\<close> positive.\<close>

definition slices :: "nat \<Rightarrow> 'a list \<Rightarrow> 'a list list" where
  "slices n xs = map (\<lambda>k. take n (drop (k * n) xs)) [0..<(length xs + n - 1) div n]"

lemma concat_slices:
  assumes "0 < n" shows "concat (slices n xs) = xs"
proof -
  have "concat (map (\<lambda>k. take n (drop (k * n) xs)) [0..<j]) = take (j * n) xs" for j
  proof (induction j)
    case (Suc j)
    have "take (j * n) xs @ take n (drop (j * n) xs) = take (j * n + n) xs"
      by (simp add: take_add)
    with Suc show ?case by (simp add: add.commute)
  qed simp
  moreover have "length xs \<le> (length xs + n - 1) div n * n"
    using div_mult_mod_eq [of "length xs + n - 1" n] mod_less_divisor [OF assms, of "length xs + n - 1"]
    by linarith
  ultimately show ?thesis by (simp add: slices_def)
qed

lemma slices_size: "ys \<in> set (slices n xs) \<Longrightarrow> length ys \<le> n"
  by (auto simp: slices_def)

text \<open>\<open>int(x)\<close> of a float truncates towards zero.\<close>

definition py_int :: "py_float \<Rightarrow> int" where
  "py_int x = (if 0 \<le> x then \<lfloor>x\<rfloor> else \<lceil>x\<rceil>)"

lemma py_int_nonneg [simp]: "0 \<le> x \<Longrightarrow> 0 \<le> py_int x"
  by (simp add: py_int_def)

lemma py_int_of_int [simp]: "py_int (of_int k) = k"
  by (simp add: py_int_def)

text \<open>\<open>np.linspace(a, b, n)\<close> at index \<open>i\<close>.\<close>

definition linspace :: "real \<Rightarrow> real \<Rightarrow> nat \<Rightarrow> nat \<Rightarrow> real" where
  "linspace a b n i = (if n = 1 then a else a + (b - a) * of_nat i / of_nat (n - 1))"

text \<open>
  \<open>round(x, k)\<close>: the nearest multiple of \<open>10 ^ (- k)\<close>, a tie going to the even one.
\<close>

definition round_half_even :: "py_float \<Rightarrow> int" where
  "round_half_even x =
     (let f = \<lfloor>x\<rfloor>; d = x - of_int f
      in if d < 1 / 2 then f else if 1 / 2 < d then f + 1 else if even f then f else f + 1)"

definition py_round :: "nat \<Rightarrow> py_float \<Rightarrow> py_float" where
  "py_round k x = of_int (round_half_even (x * 10 ^ k)) / 10 ^ k"

lemma round_half_even_error: "\<bar>of_int (round_half_even x) - x\<bar> \<le> 1 / 2"
proof -
  let ?d = "x - of_int \<lfloor>x\<rfloor>"
  have "0 \<le> ?d" "?d < 1" by linarith+
  then show ?thesis by (auto simp: round_half_even_def Let_def)
qed

lemma py_round_error: "\<bar>py_round k x - x\<bar> \<le> 1 / (2 * 10 ^ k)"
proof -
  have "py_round k x - x = (of_int (round_half_even (x * 10 ^ k)) - x * 10 ^ k) / 10 ^ k"
    by (simp add: py_round_def field_simps)
  then have "\<bar>py_round k x - x\<bar> = \<bar>of_int (round_half_even (x * 10 ^ k)) - x * 10 ^ k\<bar> / 10 ^ k"
    by (simp add: abs_divide)
  also have "\<dots> \<le> (1 / 2) / 10 ^ k"
    by (rule divide_right_mono [OF round_half_even_error]) simp
  finally show ?thesis by simp
qed

section \<open>Runs of a step relation\<close>

lemma rtranclp_keeps:
  assumes "R\<^sup>*\<^sup>* x y" "P x" "\<And>y z. P y \<Longrightarrow> R y z \<Longrightarrow> P z"
  shows "P y"
  using assms(1,2) by (induction rule: rtranclp.induct) (auto intro: assms(3))

section \<open>Replaying a log\<close>

text \<open>
  A monitor \<open>f\<close> reads a log entry by entry and gives up (\<open>None\<close>) at the first entry it does
  not accept.
\<close>

fun replay :: "('m \<Rightarrow> 'x \<Rightarrow> 'm option) \<Rightarrow> 'm \<Rightarrow> 'x list \<Rightarrow> 'm option" where
  "replay f m [] = Some m"
| "replay f m (x # xs) = (case f m x of None \<Rightarrow> None | Some m' \<Rightarrow> replay f m' xs)"

lemma replay_append [simp]:
  "replay f m (xs @ ys) = (case replay f m xs of None \<Rightarrow> None | Some m' \<Rightarrow> replay f m' ys)"
  by (induction xs arbitrary: m) (simp_all split: option.split)

text \<open>An invariant of the monitor that may look at what was read so far.\<close>

lemma replay_invariant:
  assumes "replay f m xs = Some m'" "I [] m"
    and "\<And>ys m1 y m2. replay f m ys = Some m1 \<Longrightarrow> I ys m1 \<Longrightarrow> f m1 y = Some m2 \<Longrightarrow> I (ys @ [y]) m2"
  shows "I xs m'"
  using assms(1)
proof (induction xs arbitrary: m' rule: rev_induct)
  case Nil
  then show ?case using assms(2) by simp
next
  case (snoc x xs)
  then obtain m1 where "replay f m xs = Some m1" "f m1 x = Some m'"
    by (auto split: option.splits)
  then show ?case using snoc.IH assms(3) by blast
qed

section \<open>JSON values\<close>

text \<open>What \<open>json.dumps\<close> is given and \<open>json.loads\<close> returns; objects keep their key order.\<close>

datatype Json =
    JNull
  | JBool bool
  | JNum py_float
  | JStr string
  | JList "Json list"
  | JObj "(string \<times> Json) list"

text \<open>\<open>obj.get(key)\<close> on an object.\<close>

fun json_get :: "Json \<Rightarrow> string \<Rightarrow> Json option" where
  "json_get (JObj kvs) k = map_of kvs k"
| "json_get _ k = None"

end
