(* ===== verification/Labels.thy ===== *)
theory Labels
  imports Prelude
begin

text \<open>
  \<open>agent/labels.py\<close>: the ten labels Tier 1 can give a frame, and the label sets the state
  machine tests. Being an \<open>enum\<close>, statements over all labels can be checked by computation.
\<close>

datatype Label =
    RINGBACK
  | MENU_SPEAKING
  | MENU_AWAITING_INPUT
  | HOLD_MUSIC
  | HOLD_INTERJECTION
  | LIVE_SPEECH_CANDIDATE
  | VOICEMAIL
  | ERROR_TONE
  | SILENCE
  | UNKNOWN

instantiation Label :: enum
begin

definition enum_Label :: "Label list" where
  "enum_Label = [RINGBACK, MENU_SPEAKING, MENU_AWAITING_INPUT, HOLD_MUSIC, HOLD_INTERJECTION,
     LIVE_SPEECH_CANDIDATE, VOICEMAIL, ERROR_TONE, SILENCE, UNKNOWN]"

definition enum_all_Label :: "(Label \<Rightarrow> bool) \<Rightarrow> bool" where
  "enum_all_Label P = list_all P enum_class.enum"

definition enum_ex_Label :: "(Label \<Rightarrow> bool) \<Rightarrow> bool" where
  "enum_ex_Label P = list_ex P enum_class.enum"

instance
proof
  show univ: "UNIV = set (enum_class.enum :: Label list)"
  proof -
    have "x \<in> set (enum_class.enum :: Label list)" for x
      by (cases x) (simp_all add: enum_Label_def)
    then show ?thesis by auto
  qed
  show "distinct (enum_class.enum :: Label list)"
    by (simp add: enum_Label_def)
  show "enum_class.enum_all P = Ball UNIV P" for P :: "Label \<Rightarrow> bool"
    unfolding enum_all_Label_def list_all_iff univ [symmetric] by (rule refl)
  show "enum_class.enum_ex P = Bex UNIV P" for P :: "Label \<Rightarrow> bool"
    unfolding enum_ex_Label_def list_ex_iff univ [symmetric] by (rule refl)
qed

end

definition MENU_LABELS :: "Label set" where
  "MENU_LABELS = {MENU_SPEAKING, MENU_AWAITING_INPUT}"

definition SPEECHY_LABELS :: "Label set" where
  "SPEECHY_LABELS = MENU_LABELS \<union> {LIVE_SPEECH_CANDIDATE}"

definition NON_CONNECT_LABELS :: "Label set" where
  "NON_CONNECT_LABELS = {VOICEMAIL, ERROR_TONE}"

definition HOLD_LABELS :: "Label set" where
  "HOLD_LABELS = {HOLD_MUSIC, HOLD_INTERJECTION, SILENCE}"

lemmas label_sets = MENU_LABELS_def SPEECHY_LABELS_def NON_CONNECT_LABELS_def HOLD_LABELS_def

lemma label_sets_disjoint:
  "SPEECHY_LABELS \<inter> HOLD_LABELS = {}"
  "SPEECHY_LABELS \<inter> NON_CONNECT_LABELS = {}"
  "HOLD_LABELS \<inter> NON_CONNECT_LABELS = {}"
  by (simp_all add: label_sets)

end
