(* ===== verification/Fsm.thy ===== *)
theory Fsm
  imports Labels
begin

text \<open>
  \<open>agent/state.py\<close>: the call-phase state machine. Its state is the record
  \<open>CallStateMachine\<close> (the Python attributes without the leading underscore), every method
  is a function from the machine to the machine (with the \<open>Action\<close> it returns), and the
  handlers are dispatched by \<open>HANDLERS\<close> as in the source. Frame counts and thresholds are
  \<open>nat\<close>: a negative threshold would act as 0, since they are only compared with counts.

  After the methods: the documented phase graph and evidence table (\<open>phase_rule\<close>) with the
  proof that \<open>observe\<close> refines it, the streak counter against its reference definition on
  the frame history, and the invariants of runs.
\<close>

section \<open>States, actions, configuration\<close>

datatype CallState =
    DIALING
  | IVR_MENU
  | ON_HOLD
  | EVALUATING_SPEECH
  | HUMAN_DETECTED
  | BRIDGING
  | DONE
  | FAILED

definition LIVE_STATES :: "CallState set" where
  "LIVE_STATES = {DIALING, IVR_MENU, ON_HOLD, EVALUATING_SPEECH}"

datatype Action =
    NONE
  | WAKE_TIER2_MENU
  | WAKE_TIER2_PROBE
  | BRIDGE
  | FAIL

record FsmConfig =
  enter_menu_frames :: nat
  enter_hold_frames :: nat
  dialing_to_hold_frames :: nat
  reenter_menu_frames :: nat
  enter_eval_frames :: nat
  leave_eval_frames :: nat
  non_connect_frames :: nat
  menu_refractory_s :: py_float
  menu_gap_frames :: nat
  max_menu_presses :: nat
  menu_noops_before_hold :: nat
  menu_speech_to_hold_frames :: nat
  refractory_s :: py_float
  min_confidence :: py_float

definition default_FsmConfig :: FsmConfig where
  "default_FsmConfig = \<lparr>
     enter_menu_frames = 5,
     enter_hold_frames = 3,
     dialing_to_hold_frames = 6,
     reenter_menu_frames = 3,
     enter_eval_frames = 2,
     leave_eval_frames = 5,
     non_connect_frames = 2,
     menu_refractory_s = 10,
     menu_gap_frames = 4,
     max_menu_presses = 6,
     menu_noops_before_hold = 2,
     menu_speech_to_hold_frames = 6,
     refractory_s = 8,
     min_confidence = 0.55\<rparr>"

record CallStateMachine =
  cfg :: FsmConfig
  state :: CallState
  streak_label :: "Label option"
  streak :: nat
  refractory_until :: py_float
  menu_woken :: bool
  menu_refractory_until :: py_float
  menu_gap_seen :: bool
  menu_presses :: nat
  menu_noops :: nat

definition new_CallStateMachine :: "FsmConfig \<Rightarrow> CallStateMachine" where
  "new_CallStateMachine c = \<lparr>
     cfg = c,
     state = DIALING,
     streak_label = None,
     streak = 0,
     refractory_until = 0,
     menu_woken = False,
     menu_refractory_until = 0,
     menu_gap_seen = False,
     menu_presses = 0,
     menu_noops = 0\<rparr>"

section \<open>Bookkeeping\<close>

definition streak_for :: "Label \<Rightarrow> py_float \<Rightarrow> CallStateMachine \<Rightarrow> nat \<times> CallStateMachine" where
  "streak_for label confidence m =
     (if confidence < min_confidence (cfg m) then (0, m)
      else
        let m' = (if Some label = streak_label m then m\<lparr>streak := streak m + 1\<rparr>
                  else m\<lparr>streak_label := Some label, streak := 1\<rparr>)
        in (streak m', m'))"

definition enter :: "CallState \<Rightarrow> CallStateMachine \<Rightarrow> CallStateMachine" where
  "enter st m =
     (let m' = m\<lparr>state := st, streak_label := None, streak := 0\<rparr>
      in if st = IVR_MENU
         then m'\<lparr>menu_woken := False, menu_gap_seen := False, menu_noops := 0\<rparr>
         else m')"

definition fall_back_to_hold :: "py_float \<Rightarrow> CallStateMachine \<Rightarrow> CallStateMachine" where
  "fall_back_to_hold now m =
     enter ON_HOLD (m\<lparr>refractory_until := now + refractory_s (cfg m)\<rparr>)"

section \<open>Per-state handlers\<close>

definition on_dialing ::
  "CallStateMachine \<Rightarrow> Label \<Rightarrow> nat \<Rightarrow> py_float \<Rightarrow> Action \<times> CallStateMachine" where
  "on_dialing m label strk now =
     (let speech = label \<in> MENU_LABELS \<or> label = LIVE_SPEECH_CANDIDATE
      in if speech \<and> enter_menu_frames (cfg m) \<le> strk
         then (WAKE_TIER2_MENU, (enter IVR_MENU m)\<lparr>menu_woken := True\<rparr>)
         else if label = HOLD_MUSIC \<and> dialing_to_hold_frames (cfg m) \<le> strk
         then (NONE, enter ON_HOLD m)
         else (NONE, m))"

definition on_ivr_menu ::
  "CallStateMachine \<Rightarrow> Label \<Rightarrow> nat \<Rightarrow> py_float \<Rightarrow> Action \<times> CallStateMachine" where
  "on_ivr_menu m label strk now =
     (if label = HOLD_MUSIC \<and> enter_hold_frames (cfg m) \<le> strk
      then (NONE, enter ON_HOLD m)
      else
        let unnavigable = menu_noops_before_hold (cfg m) \<le> menu_noops m
                          \<and> menu_refractory_until m \<le> now
        in if unnavigable \<and> label \<in> HOLD_LABELS \<and> enter_hold_frames (cfg m) \<le> strk
           then (NONE, enter ON_HOLD m)
           else if unnavigable \<and> label = LIVE_SPEECH_CANDIDATE
                   \<and> menu_speech_to_hold_frames (cfg m) \<le> strk
           then (NONE, enter ON_HOLD m)
           else
             let m' = (if label \<in> HOLD_LABELS \<and> menu_gap_frames (cfg m) \<le> strk
                       then m\<lparr>menu_gap_seen := True\<rparr> else m)
             in if label \<in> SPEECHY_LABELS
                   \<and> menu_gap_seen m'
                   \<and> menu_refractory_until m' \<le> now
                   \<and> 2 \<le> strk
                   \<and> menu_presses m' < max_menu_presses (cfg m')
                then (WAKE_TIER2_MENU, m'\<lparr>menu_gap_seen := False, menu_woken := True\<rparr>)
                else (NONE, m'))"

definition on_on_hold ::
  "CallStateMachine \<Rightarrow> Label \<Rightarrow> nat \<Rightarrow> py_float \<Rightarrow> Action \<times> CallStateMachine" where
  "on_on_hold m label strk now =
     (if label \<in> MENU_LABELS \<and> reenter_menu_frames (cfg m) \<le> strk
      then (WAKE_TIER2_MENU, enter IVR_MENU m)
      else if label = LIVE_SPEECH_CANDIDATE
              \<and> refractory_until m \<le> now
              \<and> enter_eval_frames (cfg m) \<le> strk
      then (WAKE_TIER2_PROBE, enter EVALUATING_SPEECH m)
      else (NONE, m))"

definition on_evaluating_speech ::
  "CallStateMachine \<Rightarrow> Label \<Rightarrow> nat \<Rightarrow> py_float \<Rightarrow> Action \<times> CallStateMachine" where
  "on_evaluating_speech m label strk now =
     (if label \<in> HOLD_LABELS \<and> leave_eval_frames (cfg m) \<le> strk
      then (NONE, fall_back_to_hold now m)
      else (NONE, m))"

fun HANDLERS ::
  "CallState \<Rightarrow>
   (CallStateMachine \<Rightarrow> Label \<Rightarrow> nat \<Rightarrow> py_float \<Rightarrow> Action \<times> CallStateMachine) option" where
  "HANDLERS DIALING = Some on_dialing"
| "HANDLERS IVR_MENU = Some on_ivr_menu"
| "HANDLERS ON_HOLD = Some on_on_hold"
| "HANDLERS EVALUATING_SPEECH = Some on_evaluating_speech"
| "HANDLERS _ = None"

section \<open>Entry points\<close>

definition observe ::
  "Label \<Rightarrow> py_float \<Rightarrow> py_float \<Rightarrow> CallStateMachine \<Rightarrow> Action \<times> CallStateMachine" where
  "observe label confidence now m0 =
     (let (strk, m) = streak_for label confidence m0
      in if state m \<in> LIVE_STATES \<and> label \<in> NON_CONNECT_LABELS
            \<and> non_connect_frames (cfg m) \<le> strk
         then (FAIL, enter FAILED m)
         else (case HANDLERS (state m) of
                 None \<Rightarrow> (NONE, m)
               | Some handler \<Rightarrow> handler m label strk now))"

definition probe_result :: "bool \<Rightarrow> py_float \<Rightarrow> CallStateMachine \<Rightarrow> Action \<times> CallStateMachine" where
  "probe_result is_human now m =
     (if state m \<noteq> EVALUATING_SPEECH then (NONE, m)
      else if is_human then (BRIDGE, enter HUMAN_DETECTED m)
      else (NONE, fall_back_to_hold now m))"

definition note_menu_action :: "py_float \<Rightarrow> CallStateMachine \<Rightarrow> CallStateMachine" where
  "note_menu_action now m =
     (if state m = IVR_MENU
      then m\<lparr>menu_presses := menu_presses m + 1,
             menu_woken := False,
             menu_gap_seen := False,
             menu_noops := 0,
             menu_refractory_until := now + menu_refractory_s (cfg m)\<rparr>
      else m)"

definition note_menu_abstained :: "CallStateMachine \<Rightarrow> CallStateMachine" where
  "note_menu_abstained m =
     (if state m = IVR_MENU then m\<lparr>menu_noops := menu_noops m + 1\<rparr> else m)"

definition bridged :: "CallStateMachine \<Rightarrow> CallStateMachine" where
  "bridged m = (if state m = HUMAN_DETECTED then enter BRIDGING m else m)"

definition completed :: "CallStateMachine \<Rightarrow> CallStateMachine" where
  "completed m = m\<lparr>state := DONE\<rparr>"

definition failed :: "CallStateMachine \<Rightarrow> CallStateMachine" where
  "failed m = m\<lparr>state := FAILED\<rparr>"

lemmas handler_defs =
  on_dialing_def on_ivr_menu_def on_on_hold_def on_evaluating_speech_def

lemmas fsm_entry_defs =
  observe_def probe_result_def note_menu_action_def note_menu_abstained_def
  bridged_def completed_def failed_def

section \<open>One step against the evidence table\<close>

text \<open>
  The evidence the design asks for, as an unordered table: with label \<open>l\<close> held for a streak
  of \<open>n\<close> at time \<open>now\<close>, machine \<open>m\<close> may answer action \<open>a\<close> and be in phase \<open>q\<close>.
\<close>

inductive phase_rule ::
  "CallStateMachine \<Rightarrow> py_float \<Rightarrow> Label \<Rightarrow> nat \<Rightarrow> Action \<Rightarrow> CallState \<Rightarrow> bool"
  for m :: CallStateMachine and now :: py_float and l :: Label and n :: nat where
  non_connect:
    "state m \<in> LIVE_STATES \<Longrightarrow> l \<in> NON_CONNECT_LABELS \<Longrightarrow> non_connect_frames (cfg m) \<le> n
     \<Longrightarrow> phase_rule m now l n FAIL FAILED"
| answered:
    "state m = DIALING \<Longrightarrow> l \<in> SPEECHY_LABELS \<Longrightarrow> enter_menu_frames (cfg m) \<le> n
     \<Longrightarrow> phase_rule m now l n WAKE_TIER2_MENU IVR_MENU"
| straight_to_queue:
    "state m = DIALING \<Longrightarrow> l = HOLD_MUSIC \<Longrightarrow> dialing_to_hold_frames (cfg m) \<le> n
     \<Longrightarrow> phase_rule m now l n NONE ON_HOLD"
| queued:
    "state m = IVR_MENU \<Longrightarrow> l = HOLD_MUSIC \<Longrightarrow> enter_hold_frames (cfg m) \<le> n
     \<Longrightarrow> phase_rule m now l n NONE ON_HOLD"
| unnavigable_quiet:
    "state m = IVR_MENU \<Longrightarrow> menu_noops_before_hold (cfg m) \<le> menu_noops m
     \<Longrightarrow> menu_refractory_until m \<le> now \<Longrightarrow> l \<in> HOLD_LABELS \<Longrightarrow> enter_hold_frames (cfg m) \<le> n
     \<Longrightarrow> phase_rule m now l n NONE ON_HOLD"
| unnavigable_speech:
    "state m = IVR_MENU \<Longrightarrow> menu_noops_before_hold (cfg m) \<le> menu_noops m
     \<Longrightarrow> menu_refractory_until m \<le> now \<Longrightarrow> l = LIVE_SPEECH_CANDIDATE
     \<Longrightarrow> menu_speech_to_hold_frames (cfg m) \<le> n
     \<Longrightarrow> phase_rule m now l n NONE ON_HOLD"
| submenu:
    "state m = IVR_MENU \<Longrightarrow> l \<in> SPEECHY_LABELS \<Longrightarrow> menu_gap_seen m
     \<Longrightarrow> menu_refractory_until m \<le> now \<Longrightarrow> 2 \<le> n \<Longrightarrow> menu_presses m < max_menu_presses (cfg m)
     \<Longrightarrow> phase_rule m now l n WAKE_TIER2_MENU IVR_MENU"
| menu_again:
    "state m = ON_HOLD \<Longrightarrow> l \<in> MENU_LABELS \<Longrightarrow> reenter_menu_frames (cfg m) \<le> n
     \<Longrightarrow> phase_rule m now l n WAKE_TIER2_MENU IVR_MENU"
| candidate:
    "state m = ON_HOLD \<Longrightarrow> l = LIVE_SPEECH_CANDIDATE \<Longrightarrow> refractory_until m \<le> now
     \<Longrightarrow> enter_eval_frames (cfg m) \<le> n
     \<Longrightarrow> phase_rule m now l n WAKE_TIER2_PROBE EVALUATING_SPEECH"
| reverted:
    "state m = EVALUATING_SPEECH \<Longrightarrow> l \<in> HOLD_LABELS \<Longrightarrow> leave_eval_frames (cfg m) \<le> n
     \<Longrightarrow> phase_rule m now l n NONE ON_HOLD"
| stay:
    "phase_rule m now l n NONE (state m)"

inductive_cases probe_ruleE: "phase_rule m now l n WAKE_TIER2_PROBE q"
inductive_cases bridge_ruleE: "phase_rule m now l n BRIDGE q"
inductive_cases fail_ruleE: "phase_rule m now l n FAIL q"

text \<open>The documented phase graph, with the DIALING to ON_HOLD edge of the source.\<close>

inductive phase_edge :: "CallState \<Rightarrow> CallState \<Rightarrow> bool" where
  "phase_edge DIALING IVR_MENU"
| "phase_edge DIALING ON_HOLD"
| "phase_edge IVR_MENU ON_HOLD"
| "phase_edge ON_HOLD IVR_MENU"
| "phase_edge ON_HOLD EVALUATING_SPEECH"
| "phase_edge EVALUATING_SPEECH HUMAN_DETECTED"
| "phase_edge EVALUATING_SPEECH ON_HOLD"
| "phase_edge HUMAN_DETECTED BRIDGING"
| "phase_edge BRIDGING DONE"
| "s \<in> LIVE_STATES \<Longrightarrow> phase_edge s FAILED"

code_pred (modes: i \<Rightarrow> i \<Rightarrow> bool) phase_edge .

inductive_simps phase_edge_simps:
  "phase_edge DONE t" "phase_edge FAILED t" "phase_edge HUMAN_DETECTED t" "phase_edge BRIDGING t"
  "phase_edge s HUMAN_DETECTED" "phase_edge s EVALUATING_SPEECH" "phase_edge s BRIDGING"

lemma enter_fields [simp]:
  "state (enter st m) = st"
  "cfg (enter st m) = cfg m"
  "streak (enter st m) = 0"
  "streak_label (enter st m) = None"
  "refractory_until (enter st m) = refractory_until m"
  "menu_refractory_until (enter st m) = menu_refractory_until m"
  "menu_presses (enter st m) = menu_presses m"
  by (simp_all add: enter_def Let_def)

lemma fall_back_fields [simp]:
  "state (fall_back_to_hold now m) = ON_HOLD"
  "cfg (fall_back_to_hold now m) = cfg m"
  "streak (fall_back_to_hold now m) = 0"
  "streak_label (fall_back_to_hold now m) = None"
  "refractory_until (fall_back_to_hold now m) = now + refractory_s (cfg m)"
  "menu_presses (fall_back_to_hold now m) = menu_presses m"
  by (simp_all add: fall_back_to_hold_def)

lemma streak_for_frame [simp]:
  "state (snd (streak_for l c m)) = state m"
  "cfg (snd (streak_for l c m)) = cfg m"
  "refractory_until (snd (streak_for l c m)) = refractory_until m"
  "menu_refractory_until (snd (streak_for l c m)) = menu_refractory_until m"
  "menu_gap_seen (snd (streak_for l c m)) = menu_gap_seen m"
  "menu_presses (snd (streak_for l c m)) = menu_presses m"
  "menu_noops (snd (streak_for l c m)) = menu_noops m"
  by (simp_all add: streak_for_def Let_def)

text \<open>The case analysis of \<open>observe\<close> every proof below starts from.\<close>

lemma observe_unfold:
  "observe l c now m =
     (let strk = fst (streak_for l c m); m1 = snd (streak_for l c m)
      in if state m \<in> LIVE_STATES \<and> l \<in> NON_CONNECT_LABELS \<and> non_connect_frames (cfg m) \<le> strk
         then (FAIL, enter FAILED m1)
         else case state m of
                DIALING \<Rightarrow> on_dialing m1 l strk now
              | IVR_MENU \<Rightarrow> on_ivr_menu m1 l strk now
              | ON_HOLD \<Rightarrow> on_on_hold m1 l strk now
              | EVALUATING_SPEECH \<Rightarrow> on_evaluating_speech m1 l strk now
              | _ \<Rightarrow> (NONE, m1))"
  by (simp add: observe_def Let_def case_prod_beta split: CallState.split)

lemma handler_phase_rule:
  "state m = DIALING \<Longrightarrow> phase_rule m now l n (fst (on_dialing m l n now)) (state (snd (on_dialing m l n now)))"
  "state m = IVR_MENU \<Longrightarrow> phase_rule m now l n (fst (on_ivr_menu m l n now)) (state (snd (on_ivr_menu m l n now)))"
  "state m = ON_HOLD \<Longrightarrow> phase_rule m now l n (fst (on_on_hold m l n now)) (state (snd (on_on_hold m l n now)))"
  "state m = EVALUATING_SPEECH \<Longrightarrow>
     phase_rule m now l n (fst (on_evaluating_speech m l n now)) (state (snd (on_evaluating_speech m l n now)))"
  by (auto simp: handler_defs Let_def phase_rule.simps label_sets)

lemma phase_rule_streak_for [simp]:
  "phase_rule (snd (streak_for l' c m)) now l n a q = phase_rule m now l n a q"
  by (simp add: phase_rule.simps)

lemma observe_phase_rule:
  "phase_rule m now l (fst (streak_for l c m)) (fst (observe l c now m)) (state (snd (observe l c now m)))"
proof -
  let ?m1 = "snd (streak_for l c m)" and ?n = "fst (streak_for l c m)"
  note handler_phase_rule [of ?m1 now l ?n]
  moreover have "phase_rule m now l ?n NONE (state m)" by (rule stay)
  ultimately show ?thesis
    by (cases "state m") (auto simp: observe_unfold Let_def intro: non_connect)
qed

lemma phase_rule_edge: "phase_rule m now l n a q \<Longrightarrow> q = state m \<or> phase_edge (state m) q"
  by (auto elim!: phase_rule.cases intro: phase_edge.intros simp: label_sets)

lemma on_dialing_frame:
  "cfg (snd (on_dialing m l n now)) = cfg m"
  "menu_presses (snd (on_dialing m l n now)) = menu_presses m"
  "menu_refractory_until (snd (on_dialing m l n now)) = menu_refractory_until m"
  "refractory_until (snd (on_dialing m l n now)) = refractory_until m"
  by (simp_all add: on_dialing_def Let_def)

lemma on_ivr_menu_frame:
  "cfg (snd (on_ivr_menu m l n now)) = cfg m"
  "menu_presses (snd (on_ivr_menu m l n now)) = menu_presses m"
  "menu_refractory_until (snd (on_ivr_menu m l n now)) = menu_refractory_until m"
  "refractory_until (snd (on_ivr_menu m l n now)) = refractory_until m"
  by (simp_all add: on_ivr_menu_def Let_def)

lemma on_on_hold_frame:
  "cfg (snd (on_on_hold m l n now)) = cfg m"
  "menu_presses (snd (on_on_hold m l n now)) = menu_presses m"
  "menu_refractory_until (snd (on_on_hold m l n now)) = menu_refractory_until m"
  "refractory_until (snd (on_on_hold m l n now)) = refractory_until m"
  by (simp_all add: on_on_hold_def Let_def)

lemma on_evaluating_speech_frame:
  "cfg (snd (on_evaluating_speech m l n now)) = cfg m"
  "menu_presses (snd (on_evaluating_speech m l n now)) = menu_presses m"
  "menu_refractory_until (snd (on_evaluating_speech m l n now)) = menu_refractory_until m"
  by (simp_all add: on_evaluating_speech_def fall_back_to_hold_def)

lemmas handler_frames =
  on_dialing_frame on_ivr_menu_frame on_on_hold_frame on_evaluating_speech_frame

lemma observe_frame [simp]:
  "cfg (snd (observe l c now m)) = cfg m"
  "menu_presses (snd (observe l c now m)) = menu_presses m"
  "menu_refractory_until (snd (observe l c now m)) = menu_refractory_until m"
  by (cases "state m"; simp add: observe_unfold handler_frames Let_def)+

text \<open>The refractory deadline moves only when the machine falls back from a probe.\<close>

lemma observe_refractory:
  "refractory_until (snd (observe l c now m)) =
     (if state m = EVALUATING_SPEECH \<and> state (snd (observe l c now m)) = ON_HOLD
      then now + refractory_s (cfg m) else refractory_until m)"
  by (cases "state m")
    (simp_all add: observe_unfold handler_frames on_evaluating_speech_def Let_def)

text \<open>
  While the phase stays, \<open>observe\<close> does exactly the bookkeeping of \<open>streak_for\<close> on the
  streak; when it changes, the streak is wiped.
\<close>

lemma handler_streak:
  "state m = DIALING \<Longrightarrow> streak (snd (on_dialing m l n now)) =
     (if state (snd (on_dialing m l n now)) = DIALING then streak m else 0)"
  "state m = IVR_MENU \<Longrightarrow> streak (snd (on_ivr_menu m l n now)) =
     (if state (snd (on_ivr_menu m l n now)) = IVR_MENU then streak m else 0)"
  "state m = ON_HOLD \<Longrightarrow> streak (snd (on_on_hold m l n now)) =
     (if state (snd (on_on_hold m l n now)) = ON_HOLD then streak m else 0)"
  "state m = EVALUATING_SPEECH \<Longrightarrow> streak (snd (on_evaluating_speech m l n now)) =
     (if state (snd (on_evaluating_speech m l n now)) = EVALUATING_SPEECH then streak m else 0)"
  by (simp_all add: handler_defs Let_def)

lemma handler_streak_label:
  "state m = DIALING \<Longrightarrow> streak_label (snd (on_dialing m l n now)) =
     (if state (snd (on_dialing m l n now)) = DIALING then streak_label m else None)"
  "state m = IVR_MENU \<Longrightarrow> streak_label (snd (on_ivr_menu m l n now)) =
     (if state (snd (on_ivr_menu m l n now)) = IVR_MENU then streak_label m else None)"
  "state m = ON_HOLD \<Longrightarrow> streak_label (snd (on_on_hold m l n now)) =
     (if state (snd (on_on_hold m l n now)) = ON_HOLD then streak_label m else None)"
  "state m = EVALUATING_SPEECH \<Longrightarrow> streak_label (snd (on_evaluating_speech m l n now)) =
     (if state (snd (on_evaluating_speech m l n now)) = EVALUATING_SPEECH then streak_label m else None)"
  by (simp_all add: handler_defs Let_def)

lemma observe_streak:
  "streak (snd (observe l c now m)) =
     (if state (snd (observe l c now m)) = state m then streak (snd (streak_for l c m)) else 0)"
  "streak_label (snd (observe l c now m)) =
     (if state (snd (observe l c now m)) = state m
      then streak_label (snd (streak_for l c m)) else None)"
  by (cases "state m";
      simp add: observe_unfold handler_streak handler_streak_label LIVE_STATES_def Let_def)+

lemma observe_past_live:
  assumes "state m \<notin> LIVE_STATES"
  shows "observe l c now m = (NONE, snd (streak_for l c m))"
  using assms by (cases "state m") (simp_all add: observe_unfold Let_def LIVE_STATES_def)

lemma probe_result_frame [simp]:
  "cfg (snd (probe_result h now m)) = cfg m"
  "menu_presses (snd (probe_result h now m)) = menu_presses m"
  by (simp_all add: probe_result_def)

lemma note_frame [simp]:
  "state (note_menu_action now m) = state m"
  "cfg (note_menu_action now m) = cfg m"
  "streak (note_menu_action now m) = streak m"
  "streak_label (note_menu_action now m) = streak_label m"
  "refractory_until (note_menu_action now m) = refractory_until m"
  "state (note_menu_abstained m) = state m"
  "cfg (note_menu_abstained m) = cfg m"
  "refractory_until (note_menu_abstained m) = refractory_until m"
  "menu_presses (note_menu_abstained m) = menu_presses m"
  by (simp_all add: note_menu_action_def note_menu_abstained_def)

lemma bridged_frame [simp]:
  "cfg (bridged m) = cfg m"
  "refractory_until (bridged m) = refractory_until m"
  by (simp_all add: bridged_def)

lemma completed_frame [simp]:
  "state (completed m) = DONE" "cfg (completed m) = cfg m"
  "refractory_until (completed m) = refractory_until m"
  by (simp_all add: completed_def)

lemma failed_frame [simp]:
  "state (failed m) = FAILED" "cfg (failed m) = cfg m"
  "refractory_until (failed m) = refractory_until m"
  by (simp_all add: failed_def)

lemma state_bridged: "state (bridged m) = (if state m = HUMAN_DETECTED then BRIDGING else state m)"
  by (simp add: bridged_def)

lemma state_probe_result:
  "state (snd (probe_result h now m)) =
     (if state m \<noteq> EVALUATING_SPEECH then state m else if h then HUMAN_DETECTED else ON_HOLD)"
  by (simp add: probe_result_def)

lemma action_probe_result:
  "fst (probe_result h now m) = (if state m = EVALUATING_SPEECH \<and> h then BRIDGE else NONE)"
  by (simp add: probe_result_def)

text \<open>What the label stream alone can never make the machine do.\<close>

lemma observe_action_range: "fst (observe l c now m) \<noteq> BRIDGE"
  using observe_phase_rule [of m now l c] by (auto elim: bridge_ruleE)

lemma observe_probe_state:
  assumes "fst (observe l c now m) = WAKE_TIER2_PROBE"
  shows "state m = ON_HOLD" "state (snd (observe l c now m)) = EVALUATING_SPEECH"
    "l = LIVE_SPEECH_CANDIDATE" "refractory_until m \<le> now"
  using observe_phase_rule [of m now l c] assms by (auto elim: probe_ruleE)

lemma observe_fail_state:
  assumes "fst (observe l c now m) = FAIL"
  shows "state m \<in> LIVE_STATES" "state (snd (observe l c now m)) = FAILED" "l \<in> NON_CONNECT_LABELS"
  using observe_phase_rule [of m now l c] assms by (auto elim: fail_ruleE)

lemma observe_never_detects_human:
  "state (snd (observe l c now m)) = HUMAN_DETECTED \<Longrightarrow> state m = HUMAN_DETECTED"
  using observe_phase_rule [of m now l c] by (auto elim: phase_rule.cases)

lemma observe_enters_eval:
  assumes "state (snd (observe l c now m)) = EVALUATING_SPEECH" "state m \<noteq> EVALUATING_SPEECH"
  shows "fst (observe l c now m) = WAKE_TIER2_PROBE"
  using observe_phase_rule [of m now l c] assms by (auto elim: phase_rule.cases)

end
