(* ===== verification/Events.thy ===== *)
theory Events
  imports Fsm
begin

text \<open>
  \<open>telemetry/events.py\<close> and \<open>telemetry/publisher.py\<close>: the call-event taxonomy. A dataclass is a
  constructor whose first two arguments are the base class's \<open>call_id\<close> and \<open>t\<close>; \<open>payload\<close>
  keeps the dataclass field order. The values of the two enums are their names.
\<close>

fun label_value :: "Label \<Rightarrow> string" where
  "label_value RINGBACK = ''RINGBACK''"
| "label_value MENU_SPEAKING = ''MENU_SPEAKING''"
| "label_value MENU_AWAITING_INPUT = ''MENU_AWAITING_INPUT''"
| "label_value HOLD_MUSIC = ''HOLD_MUSIC''"
| "label_value HOLD_INTERJECTION = ''HOLD_INTERJECTION''"
| "label_value LIVE_SPEECH_CANDIDATE = ''LIVE_SPEECH_CANDIDATE''"
| "label_value VOICEMAIL = ''VOICEMAIL''"
| "label_value ERROR_TONE = ''ERROR_TONE''"
| "label_value SILENCE = ''SILENCE''"
| "label_value UNKNOWN = ''UNKNOWN''"

fun state_value :: "CallState \<Rightarrow> string" where
  "state_value DIALING = ''DIALING''"
| "state_value IVR_MENU = ''IVR_MENU''"
| "state_value ON_HOLD = ''ON_HOLD''"
| "state_value EVALUATING_SPEECH = ''EVALUATING_SPEECH''"
| "state_value HUMAN_DETECTED = ''HUMAN_DETECTED''"
| "state_value BRIDGING = ''BRIDGING''"
| "state_value DONE = ''DONE''"
| "state_value FAILED = ''FAILED''"

lemma state_value_inj [simp]: "state_value p = state_value q \<longleftrightarrow> p = q"
  by (cases p; cases q) simp_all

lemma label_value_inj [simp]: "label_value p = label_value q \<longleftrightarrow> p = q"
  by (cases p; cases q) simp_all

datatype Event =
    FrameClassified (call_id: string) (event_t: py_float) string py_float "(string \<times> py_float) list"
  | StateChanged (call_id: string) (event_t: py_float) string string
  | Tier2Woken (call_id: string) (event_t: py_float) string
  | DtmfSent (call_id: string) (event_t: py_float) string
  | ProbeResult (call_id: string) (event_t: py_float) bool
  | HumanDetected (call_id: string) (event_t: py_float)
  | BridgeStarted (call_id: string) (event_t: py_float)
  | CallCompleted (call_id: string) (event_t: py_float) string
  | CallFailed (call_id: string) (event_t: py_float) string

fun kind :: "Event \<Rightarrow> string" where
  "kind (FrameClassified _ _ _ _ _) = ''frame_classified''"
| "kind (StateChanged _ _ _ _) = ''state_changed''"
| "kind (Tier2Woken _ _ _) = ''tier2_woken''"
| "kind (DtmfSent _ _ _) = ''dtmf_sent''"
| "kind (ProbeResult _ _ _) = ''probe_result''"
| "kind (HumanDetected _ _) = ''human_detected''"
| "kind (BridgeStarted _ _) = ''bridge_started''"
| "kind (CallCompleted _ _ _) = ''call_completed''"
| "kind (CallFailed _ _ _) = ''call_failed''"

text \<open>The subclass's own fields, in order.\<close>

fun own_fields :: "Event \<Rightarrow> (string \<times> Json) list" where
  "own_fields (FrameClassified _ _ l c fs) =
     [(''label'', JStr l), (''confidence'', JNum c),
      (''features'', JObj (map (\<lambda>(k, v). (k, JNum v)) fs))]"
| "own_fields (StateChanged _ _ frm to) = [(''frm'', JStr frm), (''to'', JStr to)]"
| "own_fields (Tier2Woken _ _ r) = [(''reason'', JStr r)]"
| "own_fields (DtmfSent _ _ d) = [(''digits'', JStr d)]"
| "own_fields (ProbeResult _ _ h) = [(''is_human'', JBool h)]"
| "own_fields (HumanDetected _ _) = []"
| "own_fields (BridgeStarted _ _) = []"
| "own_fields (CallCompleted _ _ x) = [(''outcome'', JStr x)]"
| "own_fields (CallFailed _ _ r) = [(''reason'', JStr r)]"

definition payload :: "Event \<Rightarrow> Json" where
  "payload e = JObj ([(''kind'', JStr (kind e)), (''call_id'', JStr (call_id e)),
     (''t'', JNum (py_round 3 (event_t e)))] @ own_fields e)"

section \<open>Sinks\<close>

text \<open>\<open>CollectingSink\<close> keeps every event; \<open>of_kind\<close> filters. \<open>NullSink\<close> keeps nothing.\<close>

definition null_emit :: "Event \<Rightarrow> 'w \<Rightarrow> 'w" where
  "null_emit e w = w"

record CollectingSink =
  events :: "Event list"

definition collecting_emit :: "Event \<Rightarrow> CollectingSink \<Rightarrow> CollectingSink" where
  "collecting_emit e s = s\<lparr>events := events s @ [e]\<rparr>"

definition of_kind :: "string \<Rightarrow> CollectingSink \<Rightarrow> Event list" where
  "of_kind k s = filter (\<lambda>e. kind e = k) (events s)"

section \<open>Reading a payload back\<close>

text \<open>What a consumer of the stream can recover from a payload.\<close>

fun json_floats :: "(string \<times> Json) list \<Rightarrow> (string \<times> py_float) list option" where
  "json_floats [] = Some []"
| "json_floats ((k, JNum v) # kvs) = map_option (Cons (k, v)) (json_floats kvs)"
| "json_floats _ = None"

lemma json_floats_map [simp]: "json_floats (map (\<lambda>(k, v). (k, JNum v)) fs) = Some fs"
  by (induction fs) auto

fun event_of_payload :: "Json \<Rightarrow> Event option" where
  "event_of_payload (JObj ((_, JStr k) # (_, JStr c) # (_, JNum t) # own)) =
     (case own of
        [] \<Rightarrow> if k = ''human_detected'' then Some (HumanDetected c t)
              else if k = ''bridge_started'' then Some (BridgeStarted c t) else None
      | [(_, JStr x)] \<Rightarrow>
          if k = ''tier2_woken'' then Some (Tier2Woken c t x)
          else if k = ''dtmf_sent'' then Some (DtmfSent c t x)
          else if k = ''call_completed'' then Some (CallCompleted c t x)
          else if k = ''call_failed'' then Some (CallFailed c t x) else None
      | [(_, JBool h)] \<Rightarrow> Some (ProbeResult c t h)
      | [(_, JStr x), (_, JStr y)] \<Rightarrow> Some (StateChanged c t x y)
      | [(_, JStr l), (_, JNum cf), (_, JObj fs)] \<Rightarrow>
          map_option (FrameClassified c t l cf) (json_floats fs)
      | _ \<Rightarrow> None)"
| "event_of_payload _ = None"

fun with_t :: "py_float \<Rightarrow> Event \<Rightarrow> Event" where
  "with_t t (FrameClassified c _ l cf fs) = FrameClassified c t l cf fs"
| "with_t t (StateChanged c _ x y) = StateChanged c t x y"
| "with_t t (Tier2Woken c _ x) = Tier2Woken c t x"
| "with_t t (DtmfSent c _ x) = DtmfSent c t x"
| "with_t t (ProbeResult c _ h) = ProbeResult c t h"
| "with_t t (HumanDetected c _) = HumanDetected c t"
| "with_t t (BridgeStarted c _) = BridgeStarted c t"
| "with_t t (CallCompleted c _ x) = CallCompleted c t x"
| "with_t t (CallFailed c _ x) = CallFailed c t x"

text \<open>
  [C30] No event is lost or confused in its payload: from the payload one can read back the
  kind, the call and every field of the event, the time rounded to milliseconds being the
  only difference, and that by at most half a millisecond.
\<close>

theorem payload_roundtrip:
  "event_of_payload (payload e) = Some (with_t (py_round 3 (event_t e)) e)
   \<and> \<bar>py_round 3 (event_t e) - event_t e\<bar> \<le> 1 / 2000"
  using py_round_error [of 3 "event_t e"] by (cases e) (simp_all add: payload_def)

end
