(* ===== verification/Buffer.thy ===== *)
theory Buffer
  imports Prelude "HOL-Library.Word"
begin

text \<open>
  \<open>agent/buffer.py\<close>: the rolling window of call audio. A sample is an int16, a \<open>16 word\<close>;
  numpy arrays are lists, with the dtype the code looks at as a constructor. The abstract
  view of the buffer is the whole audio written so far; the code keeps a suffix of it.
\<close>

type_synonym sample = "16 word"

text \<open>An integer array: of dtype int16, or of another integer dtype (then \<open>astype\<close> wraps).\<close>

datatype pcm_array = Int16 "sample list" | OtherInt "int list"

fun as_int16 :: "pcm_array \<Rightarrow> sample list" where
  "as_int16 (Int16 xs) = xs"
| "as_int16 (OtherInt xs) = map word_of_int xs"

record RollingBuffer =
  max_samples :: int
  rate :: nat
  data :: "sample list"

definition new_RollingBuffer :: "py_float \<Rightarrow> nat \<Rightarrow> RollingBuffer" where
  "new_RollingBuffer seconds sample_rate =
     \<lparr>max_samples = py_int (seconds * of_nat sample_rate), rate = sample_rate, data = []\<rparr>"

definition buffer_write :: "pcm_array \<Rightarrow> RollingBuffer \<Rightarrow> RollingBuffer" where
  "buffer_write pcm b = b\<lparr>data := last_n (max_samples b) (data b @ as_int16 pcm)\<rparr>"

definition buffer_tail :: "nat \<Rightarrow> RollingBuffer \<Rightarrow> sample list" where
  "buffer_tail ms b = (let n = py_int (of_nat (rate b) * of_nat ms / 1000) in last_n n (data b))"

definition buffer_snapshot :: "RollingBuffer \<Rightarrow> sample list" where
  "buffer_snapshot b = data b"

definition buffer_len :: "RollingBuffer \<Rightarrow> nat" where
  "buffer_len b = length (data b)"

section \<open>The buffer against the audio written so far\<close>

definition written :: "pcm_array list \<Rightarrow> sample list" where
  "written ws = concat (map as_int16 ws)"

definition buffer_writes :: "pcm_array list \<Rightarrow> RollingBuffer \<Rightarrow> RollingBuffer" where
  "buffer_writes ws b = fold buffer_write ws b"

lemma buffer_write_params [simp]:
  "max_samples (buffer_write pcm b) = max_samples b" "rate (buffer_write pcm b) = rate b"
  by (simp_all add: buffer_write_def)

lemma buffer_writes_params [simp]:
  "max_samples (buffer_writes ws b) = max_samples b" "rate (buffer_writes ws b) = rate b"
  unfolding buffer_writes_def by (induction ws arbitrary: b) simp_all

lemma data_buffer_writes:
  assumes "0 \<le> max_samples b" "data b = last_n (max_samples b) xs"
  shows "data (buffer_writes ws b) = last_n (max_samples b) (xs @ written ws)"
  using assms
proof (induction ws arbitrary: b xs)
  case (Cons w ws)
  have "data (buffer_write w b) = last_n (max_samples b) (xs @ as_int16 w)"
    using Cons.prems by (simp add: buffer_write_def last_n_append_absorb)
  from Cons.IH [of "buffer_write w b" "xs @ as_int16 w"] Cons.prems this
  show ?case by (simp add: buffer_writes_def written_def)
qed (simp add: buffer_writes_def written_def)

lemma data_of_new:
  assumes "0 \<le> seconds"
  shows "data (buffer_writes ws (new_RollingBuffer seconds r)) =
     last_n (py_int (seconds * of_nat r)) (written ws)"
  using data_buffer_writes [of "new_RollingBuffer seconds r" "[]" ws] assms
  by (simp add: new_RollingBuffer_def last_n_def)

lemma last_n_last_n: "0 < k \<Longrightarrow> k \<le> n \<Longrightarrow> last_n k (last_n n xs) = last_n k xs"
proof -
  assume k: "0 < k" "k \<le> n"
  then have "nat k \<le> nat n" by simp
  then have "length xs - (length xs - nat n + nat k) + (length xs - nat n) = length xs - nat k"
    by (cases "nat n \<le> length xs") simp_all
  with k show ?thesis by (simp add: last_n_def)
qed

text \<open>
  [C28] The buffer refines "the last \<open>seconds\<close> of the call": however the audio was cut
  into chunks, a snapshot is the last \<open>int(seconds * rate)\<close> samples written so far, it is
  never longer than that, and \<open>tail(ms)\<close> (for a window of at least a sample and no longer
  than the buffer) is the last \<open>ms\<close> of everything written.
\<close>

theorem buffer_is_suffix_of_call:
  assumes "0 \<le> seconds" "1 \<le> py_int (seconds * of_nat r)"
    and "0 < py_int (of_nat r * of_nat ms / 1000)"
    and "py_int (of_nat r * of_nat ms / 1000) \<le> py_int (seconds * of_nat r)"
    and b: "b = buffer_writes ws (new_RollingBuffer seconds r)"
  shows "buffer_snapshot b = last_n (py_int (seconds * of_nat r)) (written ws)
    \<and> int (buffer_len b) \<le> py_int (seconds * of_nat r)
    \<and> buffer_tail ms b = last_n (py_int (of_nat r * of_nat ms / 1000)) (written ws)"
  using assms data_of_new [OF assms(1), of ws r]
  by (simp add: buffer_snapshot_def buffer_len_def buffer_tail_def length_last_n last_n_last_n Let_def
      new_RollingBuffer_def)

theorem buffer_is_suffix_of_call_witness:
  "buffer_tail 500 (buffer_writes [Int16 [1, 2, 3], OtherInt [4, 65541], Int16 [6]]
     (new_RollingBuffer 2 2)) = [6]"
  using buffer_is_suffix_of_call [of 2 2 500, OF _ _ _ _ refl,
      of "[Int16 [1, 2, 3], OtherInt [4, 65541], Int16 [6]]"]
  by (simp add: py_int_def written_def last_n_def)

text \<open>
  A width of zero samples does not mean nothing: Python's \<open>[-0:]\<close> is the whole
  sequence, so \<open>tail\<close> of less than a sample returns the entire buffer, and a buffer
  configured for less than a sample never discards anything.
\<close>

theorem zero_width_means_everything:
  assumes "py_int (of_nat (rate b) * of_nat ms / 1000) = 0" "0 \<le> seconds"
    "py_int (seconds * of_nat r) = 0"
  shows "buffer_tail ms b = buffer_snapshot b
    \<and> buffer_snapshot (buffer_writes ws (new_RollingBuffer seconds r)) = written ws"
  using assms data_of_new [OF assms(2), of ws r]
  by (simp add: buffer_tail_def buffer_snapshot_def)

theorem zero_width_means_everything_witness:
  "buffer_tail 0 (new_RollingBuffer 12 8000) = []
   \<and> buffer_snapshot (buffer_writes [Int16 [1, 2], Int16 [3]] (new_RollingBuffer 0 8000)) = [1, 2, 3]"
  using zero_width_means_everything [of "new_RollingBuffer 12 8000" 0 0 8000 "[Int16 [1, 2], Int16 [3]]"]
  by (simp add: py_int_def new_RollingBuffer_def buffer_snapshot_def written_def)

end
