(* ===== verification/Config.thy ===== *)
theory Config
  imports Prelude
begin

text \<open>
  \<open>config.py\<close>: the runtime settings with their defaults. The \<open>.env\<close> loading by pydantic is not
  modelled; a \<open>Settings\<close> value is the result of it.
\<close>

record Settings =
  host :: string
  port :: nat
  log_level :: string
  frame_ms :: nat
  classifier_interval_ms :: nat
  buffer_seconds :: py_float
  classify_window_ms :: nat
  menu_collect_s :: py_float
  twilio_account_sid :: string
  twilio_auth_token :: string
  twilio_from_number :: string
  public_base_url :: string
  record_dir :: string
  sqs_queue_url :: string
  aws_region :: string
  aws_endpoint_url :: string
  telemetry_queue_maxsize :: int
  database_url :: string
  tier2_failure_threshold :: nat
  tier2_reset_timeout_s :: py_float
  bridge_reap_interval_s :: py_float
  openai_api_key :: string
  realtime_model :: string
  realtime_menu_model :: string

definition default_Settings :: Settings where
  "default_Settings = \<lparr>
     host = ''0.0.0.0'',
     port = 8000,
     log_level = ''INFO'',
     frame_ms = 20,
     classifier_interval_ms = 500,
     buffer_seconds = 12,
     classify_window_ms = 1500,
     menu_collect_s = 2,
     twilio_account_sid = '''',
     twilio_auth_token = '''',
     twilio_from_number = '''',
     public_base_url = '''',
     record_dir = '''',
     sqs_queue_url = '''',
     aws_region = ''us-east-1'',
     aws_endpoint_url = '''',
     telemetry_queue_maxsize = 10000,
     database_url = '''',
     tier2_failure_threshold = 4,
     tier2_reset_timeout_s = 45,
     bridge_reap_interval_s = 10,
     openai_api_key = '''',
     realtime_model = ''gpt-realtime-mini'',
     realtime_menu_model = ''gpt-realtime''\<rparr>"

definition sample_rate :: "Settings \<Rightarrow> nat" where
  "sample_rate _ = 8000"

end
