(* ===== verification/Session.thy ===== *)
theory Session
  imports Events Buffer Config
begin

text \<open>
  \<open>agent/session.py\<close>: one live call. The record \<open>AgentSession\<close> holds the Python attributes; the
  collaborators injected into the constructor or set as hooks afterwards (classifier,
  telemetry sink, Tier 2 executor, DTMF sender, \<open>on_bridge\<close>, \<open>on_fail\<close>) are the fields of
  \<open>env\<close>, functions on the rest of the world \<open>'w\<close>. A Tier 2 closure handed to the executor is
  the value \<open>Tier2Job\<close> naming the call and its arguments; \<open>realtime\<close> and the breaker
  interpret it. The exceptions of the collaborators propagate as in the code.

  \<open>trace\<close> is a history variable: the calls made to the collaborators, in order, with the
  result each successful poll delivered. No method reads it.
\<close>

section \<open>Types\<close>

datatype Tier2Kind = Menu | Probe

datatype Tier2Job =
    ChooseMenuDigit "sample list" nat "string option"
  | RunProbe "sample list" nat

text \<open>\<open>realtime/protocol.py\<close>: the two answers of Tier 2.\<close>

datatype Tier2Value =
    MenuDecision "string option" string
  | ProbeOutcome bool string bool

record Frame =
  pcm :: "sample list"
  frame_rate :: nat
  t_start :: py_float

record Classification =
  label :: Label
  confidence :: py_float
  features :: "(string \<times> py_float) list"

datatype outcall =
    Emit Event
  | SubmitJob Tier2Job
  | PollResult "exn + Tier2Value"
  | SendDtmf string
  | OnBridge
  | OnFail string

record 'w env =
  classify :: "Frame \<Rightarrow> Classification"
  telemetry_emit :: "Event \<Rightarrow> 'w \<Rightarrow> 'w"
  exec_submit :: "Tier2Job \<Rightarrow> ('w, unit) proc"
  exec_poll :: "('w, (exn + Tier2Value) option) proc"
  exec_close :: "'w \<Rightarrow> 'w"
  dtmf_sender :: "string \<Rightarrow> ('w, unit) proc"
  on_bridge :: "('w, unit) proc"
  on_fail :: "string \<Rightarrow> ('w, unit) proc"

record AgentSession =
  session_call_id :: string
  settings :: Settings
  goal :: "string option"
  conference :: "string option"
  user_leg_sid :: "string option"
  tier2_kind :: "Tier2Kind option"
  fsm :: CallStateMachine
  buffer :: RollingBuffer
  samples_seen :: nat
  next_classify_at :: py_float
  finished :: bool
  menu_wake_due :: "py_float option"
  trace :: "outcall list"

definition new_AgentSession ::
  "string \<Rightarrow> Settings \<Rightarrow> FsmConfig \<Rightarrow> string option \<Rightarrow> string option \<Rightarrow> string option \<Rightarrow> AgentSession" where
  "new_AgentSession cid sett fsm_config g conf leg = \<lparr>
     session_call_id = cid,
     settings = sett,
     goal = g,
     conference = conf,
     user_leg_sid = leg,
     tier2_kind = None,
     fsm = new_CallStateMachine fsm_config,
     buffer = new_RollingBuffer (buffer_seconds sett) (sample_rate sett),
     samples_seen = 0,
     next_classify_at = 0,
     finished = False,
     menu_wake_due = None,
     trace = []\<rparr>"

type_synonym 'w sess = "AgentSession \<times> 'w"

definition audio_seconds :: "AgentSession \<Rightarrow> py_float" where
  "audio_seconds s = of_nat (samples_seen s) / of_nat (sample_rate (settings s))"

section \<open>Calling a collaborator\<close>

definition log_call :: "outcall \<Rightarrow> AgentSession \<Rightarrow> AgentSession" where
  "log_call c s = s\<lparr>trace := trace s @ [c]\<rparr>"

definition outward :: "outcall \<Rightarrow> ('w, 'a) proc \<Rightarrow> ('w sess, 'a) proc" where
  "outward c p = (\<lambda>(s, w). let (r, w') = p w in (r, (log_call c s, w')))"

definition emit :: "'w env \<Rightarrow> Event \<Rightarrow> ('w sess, unit) proc" where
  "emit env e = outward (Emit e) (\<lambda>w. (Inr (), telemetry_emit env e w))"

definition submit :: "'w env \<Rightarrow> Tier2Job \<Rightarrow> ('w sess, unit) proc" where
  "submit env j = outward (SubmitJob j) (exec_submit env j)"

definition poll :: "'w env \<Rightarrow> ('w sess, (exn + Tier2Value) option) proc" where
  "poll env = (\<lambda>(s, w). let (p, w') = exec_poll env w
     in (p, (case p of Inr (Some r) \<Rightarrow> log_call (PollResult r) s | _ \<Rightarrow> s, w')))"

section \<open>Failure and handoff\<close>

definition emit_state_change :: "'w env \<Rightarrow> CallState \<Rightarrow> py_float \<Rightarrow> ('w sess, unit) proc" where
  "emit_state_change env before now = self (\<lambda>s.
     if state (fsm s) \<noteq> before
     then emit env (StateChanged (session_call_id s) now (state_value before) (state_value (state (fsm s))))
     else ret ())"

definition fail :: "'w env \<Rightarrow> py_float \<Rightarrow> string \<Rightarrow> ('w sess, unit) proc" where
  "fail env now reason = self (\<lambda>s.
     andthen (emit env (CallFailed (session_call_id s) now reason))
     (andthen (update (\<lambda>s. s\<lparr>finished := True\<rparr>))
     (try_except (outward (OnFail reason) (on_fail env reason)) (\<lambda>_. ret ()))))"

text \<open>The part of \<open>_bridge\<close> after \<open>on_bridge()\<close> returned.\<close>

definition handoff_done :: "'w env \<Rightarrow> py_float \<Rightarrow> ('w sess, unit) proc" where
  "handoff_done env now = self (\<lambda>s.
     andthen (update (\<lambda>s. s\<lparr>fsm := bridged (fsm s)\<rparr>))
     (andthen (emit_state_change env (state (fsm s)) now)
     (andthen (emit env (BridgeStarted (session_call_id s) now))
     (self (\<lambda>s'.
       andthen (update (\<lambda>s. s\<lparr>fsm := completed (fsm s)\<rparr>))
       (andthen (emit_state_change env (state (fsm s')) now)
       (andthen (emit env (CallCompleted (session_call_id s) now ''human_bridged''))
       (update (\<lambda>s. s\<lparr>finished := True\<rparr>)))))))))"

definition bridge :: "'w env \<Rightarrow> py_float \<Rightarrow> ('w sess, unit) proc" where
  "bridge env now = self (\<lambda>s.
     andthen (emit env (HumanDetected (session_call_id s) now))
     (bind (try_except (andthen (outward OnBridge (on_bridge env)) (ret None)) (\<lambda>e. ret (Some e)))
        (\<lambda>raised. case raised of
             Some (HandoffUnavailable reason) \<Rightarrow> fail env now reason
           | Some _ \<Rightarrow> fail env now ''handoff_error''
           | None \<Rightarrow> handoff_done env now)))"

section \<open>Waking Tier 2\<close>

definition start_menu :: "'w env \<Rightarrow> py_float \<Rightarrow> ('w sess, unit) proc" where
  "start_menu env now = self (\<lambda>s.
     andthen (emit env (Tier2Woken (session_call_id s) now ''menu''))
     (andthen (update (\<lambda>s. s\<lparr>tier2_kind := Some Menu\<rparr>))
     (submit env (ChooseMenuDigit (buffer_snapshot (buffer s)) (sample_rate (settings s)) (goal s)))))"

definition start_probe :: "'w env \<Rightarrow> py_float \<Rightarrow> ('w sess, unit) proc" where
  "start_probe env now = self (\<lambda>s.
     andthen (emit env (Tier2Woken (session_call_id s) now ''probe''))
     (andthen (update (\<lambda>s. s\<lparr>tier2_kind := Some Probe\<rparr>))
     (submit env (RunProbe (buffer_snapshot (buffer s)) (sample_rate (settings s))))))"

definition dispatch :: "'w env \<Rightarrow> Action \<Rightarrow> py_float \<Rightarrow> ('w sess, unit) proc" where
  "dispatch env action now = (case action of
       NONE \<Rightarrow> ret ()
     | WAKE_TIER2_MENU \<Rightarrow> update (\<lambda>s. s\<lparr>menu_wake_due := Some (now + menu_collect_s (settings s))\<rparr>)
     | WAKE_TIER2_PROBE \<Rightarrow> self (\<lambda>s. if tier2_kind s = None then start_probe env now else ret ())
     | BRIDGE \<Rightarrow> bridge env now
     | FAIL \<Rightarrow> fail env now ''non_connect'')"

section \<open>Applying a Tier 2 result\<close>

text \<open>Reading \<open>.digits\<close> of a probe outcome, or \<open>.is_human\<close> of a menu decision, raises.\<close>

definition apply_menu :: "'w env \<Rightarrow> Tier2Value \<Rightarrow> py_float \<Rightarrow> ('w sess, unit) proc" where
  "apply_menu env decision now = (case decision of
       ProbeOutcome _ _ _ \<Rightarrow> raise AttributeError
     | MenuDecision d _ \<Rightarrow>
         if d = None \<or> d = Some ''''
         then update (\<lambda>s. s\<lparr>fsm := note_menu_abstained (fsm s)\<rparr>)
         else
           andthen (try_except (outward (SendDtmf (the d)) (dtmf_sender env (the d))) (\<lambda>_. ret ()))
           (self (\<lambda>s.
              andthen (emit env (DtmfSent (session_call_id s) now (the d)))
              (update (\<lambda>s. s\<lparr>fsm := note_menu_action now (fsm s)\<rparr>)))))"

definition apply_probe :: "'w env \<Rightarrow> Tier2Value \<Rightarrow> py_float \<Rightarrow> ('w sess, unit) proc" where
  "apply_probe env outc now = (case outc of
       MenuDecision _ _ \<Rightarrow> raise AttributeError
     | ProbeOutcome human _ _ \<Rightarrow> self (\<lambda>s.
         andthen (emit env (ProbeResult (session_call_id s) now human))
         (andthen (update (\<lambda>s. s\<lparr>fsm := snd (probe_result human now (fsm s))\<rparr>))
         (andthen (emit_state_change env (state (fsm s)) now)
         (dispatch env (fst (probe_result human now (fsm s))) now)))))"

definition tier2_error :: "'w env \<Rightarrow> Tier2Kind \<Rightarrow> exn \<Rightarrow> py_float \<Rightarrow> ('w sess, unit) proc" where
  "tier2_error env k err now = (case err of
       NotImplementedError \<Rightarrow> fail env now ''tier2_not_implemented''
     | CircuitOpenError \<Rightarrow> fail env now ''tier2_unavailable''
     | Tier2Unavailable _ \<Rightarrow> (if k = Probe then fail env now ''tier2_unavailable'' else ret ())
     | _ \<Rightarrow> (if k = Probe then fail env now ''tier2_error'' else ret ()))"

definition poll_tier2 :: "'w env \<Rightarrow> py_float \<Rightarrow> ('w sess, unit) proc" where
  "poll_tier2 env now = self (\<lambda>s. case tier2_kind s of
       None \<Rightarrow> ret ()
     | Some k \<Rightarrow> bind (poll env) (\<lambda>result. case result of
           None \<Rightarrow> ret ()
         | Some r \<Rightarrow>
             andthen (update (\<lambda>s. s\<lparr>tier2_kind := None\<rparr>))
             (case r of
                Inl err \<Rightarrow> tier2_error env k err now
              | Inr v \<Rightarrow> (case k of Menu \<Rightarrow> apply_menu env v now | Probe \<Rightarrow> apply_probe env v now))))"

section \<open>The tick and the audio clock\<close>

text \<open>The first part of a tick: classify the window, feed the label to the state machine.\<close>

definition classify_and_observe :: "'w env \<Rightarrow> py_float \<Rightarrow> ('w sess, unit) proc" where
  "classify_and_observe env now = self (\<lambda>s.
     let frame = \<lparr>pcm = buffer_tail (classify_window_ms (settings s)) (buffer s),
                  frame_rate = sample_rate (settings s), t_start = now\<rparr>;
         c = classify env frame
     in andthen (emit env (FrameClassified (session_call_id s) now (label_value (label c))
                   (py_round 3 (confidence c)) (map (\<lambda>(k, v). (k, py_round 5 v)) (features c))))
        (andthen (update (\<lambda>s. s\<lparr>fsm := snd (observe (label c) (confidence c) now (fsm s))\<rparr>))
        (andthen (emit_state_change env (state (fsm s)) now)
        (dispatch env (fst (observe (label c) (confidence c) now (fsm s))) now))))"

text \<open>The second: a deferred menu wake whose time has come.\<close>

definition fire_menu_wake :: "'w env \<Rightarrow> py_float \<Rightarrow> ('w sess, unit) proc" where
  "fire_menu_wake env now = self (\<lambda>s. case menu_wake_due s of
       None \<Rightarrow> ret ()
     | Some due \<Rightarrow>
         if due \<le> now
         then andthen (update (\<lambda>s. s\<lparr>menu_wake_due := None\<rparr>))
              (if state (fsm s) = IVR_MENU \<and> tier2_kind s = None then start_menu env now else ret ())
         else ret ())"

definition run_tick :: "'w env \<Rightarrow> py_float \<Rightarrow> ('w sess, unit) proc" where
  "run_tick env now =
     andthen (classify_and_observe env now) (andthen (fire_menu_wake env now) (poll_tier2 env now))"

definition interval :: "AgentSession \<Rightarrow> py_float" where
  "interval s = of_nat (classifier_interval_ms (settings s)) / 1000"

text \<open>The \<open>while\<close> of \<open>feed_audio\<close>; \<open>None\<close> is a loop that does not end.\<close>

partial_function (option) tick_loop :: "'w env \<Rightarrow> 'w sess \<Rightarrow> ((exn + unit) \<times> 'w sess) option" where
  "tick_loop env st =
     (if next_classify_at (fst st) \<le> audio_seconds (fst st)
      then (case run_tick env (next_classify_at (fst st)) st of
              (Inl e, st') \<Rightarrow> Some (Inl e, st')
            | (Inr _, (s', w')) \<Rightarrow>
                let s'' = s'\<lparr>next_classify_at := next_classify_at s' + interval s'\<rparr>
                in if finished s'' then Some (Inr (), (s'', w')) else tick_loop env (s'', w'))
      else Some (Inr (), st))"

text \<open>What \<open>feed_audio\<close> does before the loop: take the chunk in, skip ahead if far behind.\<close>

definition ingest :: "pcm_array \<Rightarrow> AgentSession \<Rightarrow> AgentSession" where
  "ingest chunk s = s\<lparr>buffer := buffer_write chunk (buffer s),
                      samples_seen := samples_seen s + length (as_int16 chunk)\<rparr>"

definition skip_ahead :: "AgentSession \<Rightarrow> AgentSession" where
  "skip_ahead s =
     (if 3 * interval s < audio_seconds s - next_classify_at s
      then s\<lparr>next_classify_at := audio_seconds s - interval s\<rparr> else s)"

definition feed_audio :: "'w env \<Rightarrow> pcm_array \<Rightarrow> 'w sess \<Rightarrow> ((exn + unit) \<times> 'w sess) option" where
  "feed_audio env chunk st =
     (if finished (fst st) then Some (Inr (), st)
      else tick_loop env (skip_ahead (ingest chunk (fst st)), snd st))"

definition abort :: "'w env \<Rightarrow> string \<Rightarrow> ('w sess, unit) proc" where
  "abort env reason = self (\<lambda>s. if finished s then ret () else fail env (audio_seconds s) reason)"

definition close :: "'w env \<Rightarrow> ('w sess, unit) proc" where
  "close env = modify (\<lambda>(s, w). (s, exec_close env w))"

lemmas outward_defs = outward_def emit_def submit_def poll_def

end
