(* ===== verification/Audio.thy ===== *)
theory Audio
  imports Buffer "HOL-Library.Multiset"
begin

text \<open>
  \<open>telephony/audio.py\<close>: G.711 mu-law. Decoding is the table of the standard; encoding is
  nearest-level quantization by binary search in the sorted levels. \<open>np.argsort\<close> may order
  the two bytes that decode to 0 either way: its result is the parameter \<open>order\<close>, any
  permutation that sorts the levels. \<open>resample\<close> is in \<open>Resample\<close>.
\<close>

unbundle bit_operations_syntax

type_synonym byte = "8 word"

section \<open>Decoding\<close>

definition ulaw_level :: "nat \<Rightarrow> int" where
  "ulaw_level i =
     (let u = NOT (int i) AND 0xFF;
          sign = u AND 0x80;
          exponent = drop_bit 4 u AND 0x07;
          mantissa = u AND 0x0F;
          magnitude = push_bit (nat exponent) (push_bit 3 mantissa + 0x84) - 0x84
      in if sign \<noteq> 0 then - magnitude else magnitude)"

definition ULAW_DECODE :: "int list" where
  "ULAW_DECODE = map ulaw_level [0..<256]"

definition LEVELS :: "int list" where
  "LEVELS = sort ULAW_DECODE"

definition ulaw_to_pcm16 :: "byte list \<Rightarrow> sample list" where
  "ulaw_to_pcm16 bytes = map (\<lambda>b. word_of_int (ULAW_DECODE ! unat b)) bytes"

section \<open>Encoding\<close>

text \<open>\<open>np.searchsorted\<close> (left): how many levels are below \<open>s\<close>.\<close>

definition searchsorted :: "int list \<Rightarrow> int \<Rightarrow> nat" where
  "searchsorted xs s = length (takeWhile (\<lambda>x. x < s) xs)"

definition nearest :: "int list \<Rightarrow> int \<Rightarrow> nat" where
  "nearest xs s =
     (let idx = min (searchsorted xs s) (length xs - 1);
          lo = min (idx - 1) (length xs - 1);
          take_lo = \<bar>s - xs ! lo\<bar> \<le> \<bar>s - xs ! idx\<bar>
      in if take_lo then lo else idx)"

definition ULAW_SILENCE :: nat where
  "ULAW_SILENCE = 0xFF"

definition ulaw_byte :: "nat list \<Rightarrow> int \<Rightarrow> nat" where
  "ulaw_byte order s =
     (let s' = max (- 32768) (min s 32767);
          out = order ! nearest LEVELS s'
      in if out = 0x7F then ULAW_SILENCE else out)"

definition pcm16_to_ulaw :: "nat list \<Rightarrow> sample list \<Rightarrow> byte list" where
  "pcm16_to_ulaw order samples = map (\<lambda>x. word_of_nat (ulaw_byte order (sint x))) samples"

text \<open>What \<open>np.argsort\<close> returns: a permutation of the bytes that puts the levels in order.\<close>

definition is_argsort :: "nat list \<Rightarrow> bool" where
  "is_argsort order \<longleftrightarrow> map (\<lambda>i. ULAW_DECODE ! i) order = LEVELS \<and> set order \<subseteq> {0..<256}"

section \<open>The quantizer\<close>

lemma nearest_choice:
  obtains idx where "idx = min (searchsorted xs s) (length xs - 1)"
    and "nearest xs s = (if \<bar>s - xs ! (idx - 1)\<bar> \<le> \<bar>s - xs ! idx\<bar> then idx - 1 else idx)"
proof -
  have lo: "min (min n (k :: nat) - 1) k = min n k - 1" for n k by linarith
  show ?thesis
    by (rule that [OF refl]) (unfold nearest_def Let_def lo, rule refl)
qed

lemma searchsorted_below: "i < searchsorted xs s \<Longrightarrow> xs ! i < s"
  using set_takeWhileD [OF nth_mem, of i "\<lambda>x. x < s" xs] by (simp add: searchsorted_def takeWhile_nth)

lemma searchsorted_above:
  assumes "sorted xs" "searchsorted xs s \<le> i" "i < length xs" shows "s \<le> xs ! i"
proof -
  have "searchsorted xs s < length xs" using assms(2,3) by simp
  then have "s \<le> xs ! searchsorted xs s"
    using nth_length_takeWhile [of "\<lambda>x. x < s" xs] by (simp add: searchsorted_def)
  also have "\<dots> \<le> xs ! i" using assms by (simp add: sorted_nth_mono)
  finally show ?thesis .
qed

lemma searchsorted_le: "searchsorted xs s \<le> length xs"
  by (simp add: searchsorted_def length_takeWhile_le)

lemma nearest_spec:
  assumes "sorted xs" "xs \<noteq> []"
  shows "nearest xs s < length xs" "\<And>x. x \<in> set xs \<Longrightarrow> \<bar>s - xs ! nearest xs s\<bar> \<le> \<bar>s - x\<bar>"
proof -
  obtain idx where idx: "idx = min (searchsorted xs s) (length xs - 1)"
    and k: "nearest xs s = (if \<bar>s - xs ! (idx - 1)\<bar> \<le> \<bar>s - xs ! idx\<bar> then idx - 1 else idx)"
    by (rule nearest_choice)
  have pos: "0 < length xs" using assms(2) by simp
  then have bound: "idx < length xs" using idx by linarith
  then show "nearest xs s < length xs" using k by (simp split: if_splits)
  fix x assume "x \<in> set xs"
  then obtain i where i: "i < length xs" "x = xs ! i" by (auto simp: in_set_conv_nth)
  have best: "\<bar>s - xs ! nearest xs s\<bar> \<le> \<bar>s - xs ! idx\<bar>" "\<bar>s - xs ! nearest xs s\<bar> \<le> \<bar>s - xs ! (idx - 1)\<bar>"
    unfolding k by simp_all
  have "\<bar>s - xs ! idx\<bar> \<le> \<bar>s - x\<bar> \<or> \<bar>s - xs ! (idx - 1)\<bar> \<le> \<bar>s - x\<bar>"
  proof (cases "searchsorted xs s \<le> i")
    case True
    then have "idx = searchsorted xs s" using i(1) idx by linarith
    then have "s \<le> xs ! idx" "xs ! idx \<le> xs ! i"
      using searchsorted_above [OF assms(1)] True i(1) assms(1) by (simp_all add: sorted_nth_mono)
    then show ?thesis using i(2) by linarith
  next
    case False
    then have s: "xs ! i < s" using searchsorted_below by simp
    show ?thesis
    proof (cases "searchsorted xs s = length xs")
      case True
      then have "xs ! i \<le> xs ! idx" "xs ! idx < s"
        using assms i(1) idx bound searchsorted_below [of idx xs s] by (simp_all add: sorted_nth_mono)
      then show ?thesis using i(2) by linarith
    next
      case neq: False
      then have "idx = searchsorted xs s" using searchsorted_le [of xs s] idx by linarith
      then have "i \<le> idx - 1" "idx - 1 < searchsorted xs s" "idx - 1 < length xs"
        using False bound by linarith+
      then have "xs ! i \<le> xs ! (idx - 1)" "xs ! (idx - 1) < s"
        using assms(1) searchsorted_below by (simp_all add: sorted_nth_mono)
      then show ?thesis using i(2) by linarith
    qed
  qed
  with best show "\<bar>s - xs ! nearest xs s\<bar> \<le> \<bar>s - x\<bar>" by linarith
qed

lemma levels_sorted: "sorted LEVELS" "length LEVELS = 256" "set LEVELS = set ULAW_DECODE"
  by (simp_all add: LEVELS_def ULAW_DECODE_def)

lemma levels_nonempty: "LEVELS \<noteq> []"
  using levels_sorted(2) by auto

lemma argsort_length: "is_argsort order \<Longrightarrow> length order = 256"
  using levels_sorted(2) by (auto simp: is_argsort_def dest: arg_cong [of _ _ length])

lemma argsort_nth:
  assumes "is_argsort order" "k < 256"
  shows "ULAW_DECODE ! (order ! k) = LEVELS ! k" "order ! k < 256"
proof -
  have k: "k < length order" using assms argsort_length by simp
  from assms(1) have "map (\<lambda>i. ULAW_DECODE ! i) order ! k = LEVELS ! k" "set order \<subseteq> {0..<256}"
    by (simp_all add: is_argsort_def)
  moreover have "order ! k \<in> {0..<256}" using \<open>set order \<subseteq> _\<close> nth_mem [OF k] by (rule subsetD)
  ultimately show "ULAW_DECODE ! (order ! k) = LEVELS ! k" "order ! k < 256" using k by auto
qed

text \<open>The table: the first half increases strictly up to 0, the second falls strictly to 0.\<close>

lemma ulaw_table:
  "sorted_wrt (<) (map ulaw_level [0..<128])" "sorted_wrt (>) (map (\<lambda>i. ulaw_level (128 + i)) [0..<128])"
  "ulaw_level 127 = 0" "ulaw_level 255 = 0" "ulaw_level 0 = - 32124" "ulaw_level 128 = 32124"
  by code_simp+

lemma level_order:
  "i < j \<Longrightarrow> j < 128 \<Longrightarrow> ulaw_level i < ulaw_level j"
  "128 \<le> i \<Longrightarrow> i < j \<Longrightarrow> j < 256 \<Longrightarrow> ulaw_level j < ulaw_level i"
proof -
  show "ulaw_level i < ulaw_level j" if "i < j" "j < 128"
    using sorted_wrt_nth_less [OF ulaw_table(1), of i j] that by simp
  show "ulaw_level j < ulaw_level i" if "128 \<le> i" "i < j" "j < 256"
    using sorted_wrt_nth_less [OF ulaw_table(2), of "i - 128" "j - 128"] that by simp
qed

lemma level_range:
  assumes "i < 256"
  shows "i < 128 \<Longrightarrow> - 32124 \<le> ulaw_level i \<and> ulaw_level i \<le> 0 \<and> (ulaw_level i = 0 \<longrightarrow> i = 127)"
    "128 \<le> i \<Longrightarrow> 0 \<le> ulaw_level i \<and> ulaw_level i \<le> 32124 \<and> (ulaw_level i = 0 \<longrightarrow> i = 255)"
proof -
  have n: "i < 127 \<longrightarrow> ulaw_level i < 0" "0 < i \<and> i < 128 \<longrightarrow> - 32124 < ulaw_level i"
    using level_order(1) [of i 127] level_order(1) [of 0 i] ulaw_table(3,5) by simp_all
  have p: "128 \<le> i \<and> i < 255 \<longrightarrow> 0 < ulaw_level i" "128 < i \<longrightarrow> ulaw_level i < 32124"
    using level_order(2) [of i 255] level_order(2) [of 128 i] ulaw_table(4,6) assms by simp_all
  show "- 32124 \<le> ulaw_level i \<and> ulaw_level i \<le> 0 \<and> (ulaw_level i = 0 \<longrightarrow> i = 127)" if "i < 128"
    using n that ulaw_table(3,5) by (cases "i = 0"; cases "i = 127") auto
  show "0 \<le> ulaw_level i \<and> ulaw_level i \<le> 32124 \<and> (ulaw_level i = 0 \<longrightarrow> i = 255)" if "128 \<le> i"
    using p that ulaw_table(4,6) assms by (cases "i = 128"; cases "i = 255") auto
qed

lemma level_inj:
  assumes "i < 256" "j < 256" "ulaw_level i = ulaw_level j" "i \<noteq> 127" "j \<noteq> 127"
  shows "i = j"
proof (cases "i < 128"; cases "j < 128")
  assume "i < 128" "j < 128"
  then show ?thesis using assms(3) level_order(1) [of i j] level_order(1) [of j i]
    by (cases i j rule: linorder_cases) auto
next
  assume "\<not> i < 128" "\<not> j < 128"
  then show ?thesis using assms(1-3) level_order(2) [of i j] level_order(2) [of j i]
    by (cases i j rule: linorder_cases) auto
qed (use assms level_range [of i] level_range [of j] in auto)

lemma decode_nth: "i < 256 \<Longrightarrow> ULAW_DECODE ! i = ulaw_level i"
  by (simp add: ULAW_DECODE_def)

lemma byte_lt: "unat (b :: byte) < 256"
  using unsigned_less [of b, where 'a = nat] by simp

lemma sint_level: "i < 256 \<Longrightarrow> sint (word_of_int (ulaw_level i) :: sample) = ulaw_level i"
  using level_range [of i] by (cases "i < 128") (simp_all add: sint_sbintrunc' signed_take_bit_int_eq_self)

text \<open>The quantizer picks a byte whose level is nearest, and never 0x7F.\<close>

lemma ulaw_byte_spec:
  assumes "is_argsort order" "- 32768 \<le> s" "s \<le> 32767"
  shows "ulaw_byte order s < 256" "ulaw_byte order s \<noteq> 127"
    "\<And>i. i < 256 \<Longrightarrow> \<bar>s - ulaw_level (ulaw_byte order s)\<bar> \<le> \<bar>s - ulaw_level i\<bar>"
proof -
  let ?k = "nearest LEVELS s"
  note near = nearest_spec [OF levels_sorted(1) levels_nonempty, where s = s]
  have k: "?k < 256" using near(1) levels_sorted(2) by simp
  note a = argsort_nth [OF assms(1) k]
  have byte: "ulaw_byte order s = (if order ! ?k = 127 then 255 else order ! ?k)"
    using assms(2,3) by (simp add: ulaw_byte_def ULAW_SILENCE_def Let_def)
  show "ulaw_byte order s < 256" "ulaw_byte order s \<noteq> 127"
    using a(2) byte by (simp_all split: if_splits)
  have "ulaw_level (ulaw_byte order s) = LEVELS ! ?k"
    using a byte ulaw_table(3,4) decode_nth by auto
  moreover fix i :: nat assume "i < 256"
  then have "ulaw_level i \<in> set LEVELS" using levels_sorted(3) by (simp add: ULAW_DECODE_def)
  ultimately show "\<bar>s - ulaw_level (ulaw_byte order s)\<bar> \<le> \<bar>s - ulaw_level i\<bar>" using near(2) by simp
qed

lemma ulaw_byte_level:
  assumes "is_argsort order" "i < 256"
  shows "ulaw_byte order (ulaw_level i) = (if i = 127 then 255 else i)"
proof -
  let ?s = "ulaw_level i"
  have "- 32768 \<le> ?s" "?s \<le> 32767" using level_range [OF assms(2)] by (cases "i < 128"; simp)+
  note u = ulaw_byte_spec [OF assms(1) this]
  have eq: "ulaw_level (ulaw_byte order ?s) = ?s" using u(3) [OF assms(2)] by simp
  show ?thesis
  proof (cases "i = 127")
    case True
    then have "ulaw_level (ulaw_byte order ?s) = ulaw_level 255" using eq ulaw_table by simp
    from level_inj [OF u(1) _ this u(2)] True show ?thesis by simp
  next
    case False
    from level_inj [OF u(1) assms(2) eq u(2) False] False show ?thesis by simp
  qed
qed

text \<open>One such order: the negative half ascending, then the positive half from the idle byte down.\<close>

definition table_order :: "nat list" where
  "table_order = [0..<128] @ rev (map (\<lambda>i. 128 + i) [0..<128])"

lemma table_order: "is_argsort table_order"
proof -
  let ?lo = "map ulaw_level [0..<128]" and ?hi = "map (\<lambda>i. ulaw_level (128 + i)) [0..<128]"
  have split: "[0..<256] = [0..<128] @ map (\<lambda>i. 128 + i) [0..<128]"
    using upt_add_eq_append [of 0 128 128] map_add_upt [of 128 128] by (simp add: add.commute)
  have m: "map (\<lambda>i. ULAW_DECODE ! i) table_order = ?lo @ rev ?hi"
    by (simp add: table_order_def ULAW_DECODE_def rev_map)
  have "sorted_wrt (<) (rev ?hi)"
    using ulaw_table(2) by (simp only: sorted_wrt_rev)
  then have "sorted (rev ?hi)" "sorted ?lo"
    using ulaw_table(1) by (simp_all add: strict_sorted_imp_sorted)
  moreover have "\<forall>x\<in>set ?lo. \<forall>y\<in>set (rev ?hi). x \<le> y"
  proof (intro ballI)
    fix x y assume "x \<in> set ?lo" "y \<in> set (rev ?hi)"
    then obtain i j where "i < 128" "x = ulaw_level i" "j < 128" "y = ulaw_level (128 + j)" by auto
    then show "x \<le> y" using level_range(1) [of i] level_range(2) [of "128 + j"] by simp
  qed
  ultimately have "sorted (?lo @ rev ?hi)" by (simp only: sorted_append)
  moreover have "mset (?lo @ rev ?hi) = mset ULAW_DECODE"
    by (simp only: ULAW_DECODE_def split map_append map_map comp_def mset_append mset_rev)
  ultimately have "LEVELS = ?lo @ rev ?hi"
    unfolding LEVELS_def using properties_for_sort by metis
  with m show ?thesis by (auto simp: is_argsort_def table_order_def)
qed

text \<open>
  [C31] Re-encoding decoded audio gives back the bytes, except that the second byte for
  silence, 0x7F, becomes the idle byte 0xFF; so a frame decoded for the recorder and encoded
  again is the same audio. This holds whichever way the sort breaks the tie.
\<close>

theorem ulaw_roundtrip:
  assumes "is_argsort order"
  shows "pcm16_to_ulaw order (ulaw_to_pcm16 bs) = map (\<lambda>b. if b = 0x7F then 0xFF else b) bs
    \<and> ulaw_to_pcm16 (pcm16_to_ulaw order (ulaw_to_pcm16 bs)) = ulaw_to_pcm16 bs"
proof -
  have one: "word_of_nat (ulaw_byte order (sint (word_of_int (ULAW_DECODE ! unat b) :: sample)))
      = (if b = 0x7F then 0xFF else b)" for b :: byte
  proof -
    have "unat b = 127 \<longleftrightarrow> b = 0x7F" by (simp add: word_unat_eq_iff)
    then show ?thesis
      using ulaw_byte_level [OF assms byte_lt [of b]] by (simp add: decode_nth byte_lt sint_level)
  qed
  then have "pcm16_to_ulaw order (ulaw_to_pcm16 bs) = map (\<lambda>b. if b = 0x7F then 0xFF else b) bs"
    by (simp add: pcm16_to_ulaw_def ulaw_to_pcm16_def)
  moreover have "ulaw_to_pcm16 (map (\<lambda>b. if b = 0x7F then 0xFF else b) bs) = ulaw_to_pcm16 bs"
    using ulaw_table(3,4) by (simp add: ulaw_to_pcm16_def decode_nth)
  ultimately show ?thesis by simp
qed

theorem ulaw_roundtrip_witness:
  "pcm16_to_ulaw table_order (ulaw_to_pcm16 [0, 0x7F, 0x80, 0xFF]) = [0, 0xFF, 0x80, 0xFF]"
  using ulaw_roundtrip [OF table_order, of "[0, 0x7F, 0x80, 0xFF]"] by simp

text \<open>
  Encoding is nearest-level quantization: no byte's level is closer to the sample than
  the one chosen.
\<close>

theorem ulaw_encodes_nearest_level:
  assumes "is_argsort order" "j < length samples"
  shows "\<bar>sint (samples ! j) - sint (ulaw_to_pcm16 (pcm16_to_ulaw order samples) ! j)\<bar>
    \<le> \<bar>sint (samples ! j) - sint (ulaw_to_pcm16 [b] ! 0)\<bar>"
proof -
  let ?s = "sint (samples ! j)"
  have "- 32768 \<le> ?s" "?s \<le> 32767"
    using sint_range_size [of "samples ! j"] by (simp_all add: word_size)
  note u = ulaw_byte_spec [OF assms(1) this]
  have "unat (word_of_nat (ulaw_byte order ?s) :: byte) = ulaw_byte order ?s"
    using u(1) by (simp add: unat_of_nat)
  then show ?thesis
    using assms(2) u(3) [OF byte_lt [of b]] u(1)
    by (simp add: ulaw_to_pcm16_def pcm16_to_ulaw_def decode_nth byte_lt sint_level)
qed

theorem ulaw_encodes_nearest_level_witness:
  "\<bar>sint (1000 :: sample) - sint (ulaw_to_pcm16 (pcm16_to_ulaw table_order [1000]) ! 0)\<bar>
    \<le> \<bar>sint (1000 :: sample) - sint (ulaw_to_pcm16 [0xCE] ! 0)\<bar>"
  using ulaw_encodes_nearest_level [OF table_order, of 0 "[1000]" "0xCE"] by simp

end
