(* ===== verification/Base64.thy ===== *)
theory Base64
  imports Audio
begin

text \<open>
  \<open>base64.b64encode\<close> and \<open>base64.b64decode\<close> of the standard library, which carry every media
  frame. The decoder is the non-strict one the sources call: characters outside the alphabet
  are skipped, a complete padding ends the text, and a text that stops inside a group raises
  (\<open>None\<close>).
\<close>

section \<open>The alphabet\<close>

definition b64_alphabet :: string where
  "b64_alphabet = ''ABCDEFGHIJKLMNOPQRSTUVWXYZabcdefghijklmnopqrstuvwxyz0123456789+/''"

definition b64_char :: "nat \<Rightarrow> char" where
  "b64_char n = b64_alphabet ! n"

definition b64_value :: "char \<Rightarrow> nat option" where
  "b64_value c = map_of (zip b64_alphabet [0..<64]) c"

section \<open>Encoding and decoding\<close>

fun b64encode :: "byte list \<Rightarrow> string" where
  "b64encode [] = []"
| "b64encode [a] =
     [b64_char (unat a div 4), b64_char (unat a mod 4 * 16), CHR ''='', CHR ''='']"
| "b64encode [a, b] =
     [b64_char (unat a div 4), b64_char (unat a mod 4 * 16 + unat b div 16),
      b64_char (unat b mod 16 * 4), CHR ''='']"
| "b64encode (a # b # c # xs) =
     b64_char (unat a div 4) # b64_char (unat a mod 4 * 16 + unat b div 16) #
     b64_char (unat b mod 16 * 4 + unat c div 64) # b64_char (unat c mod 64) # b64encode xs"

text \<open>
  The decoder's state: the position in the group of four, the bits left over from the last
  character, the padding characters seen in a row, and the bytes decoded so far (reversed).
\<close>

fun b64decode_from :: "nat \<Rightarrow> nat \<Rightarrow> nat \<Rightarrow> byte list \<Rightarrow> string \<Rightarrow> byte list option" where
  "b64decode_from quad left pads out [] = (if quad = 0 then Some (rev out) else None)"
| "b64decode_from quad left pads out (ch # cs) =
     (if ch = CHR ''='' then
        (if 2 \<le> quad
         then (if 4 \<le> quad + (pads + 1) then Some (rev out)
               else b64decode_from quad left (pads + 1) out cs)
         else b64decode_from quad left pads out cs)
      else (case b64_value ch of
          None \<Rightarrow> b64decode_from quad left pads out cs
        | Some v \<Rightarrow>
            if quad = 0 then b64decode_from 1 v 0 out cs
            else if quad = 1 then b64decode_from 2 (v mod 16) 0 (of_nat (left * 4 + v div 16) # out) cs
            else if quad = 2 then b64decode_from 3 (v mod 4) 0 (of_nat (left * 16 + v div 4) # out) cs
            else b64decode_from 0 0 0 (of_nat (left * 64 + v) # out) cs))"

definition b64decode :: "string \<Rightarrow> byte list option" where
  "b64decode s = b64decode_from 0 0 0 [] s"

section \<open>The round trip\<close>

lemma alphabet_distinct: "distinct b64_alphabet"
  by (simp add: b64_alphabet_def)

lemma alphabet_length: "length b64_alphabet = 64"
  by (simp add: b64_alphabet_def)

lemma value_of_char [simp]: "n < 64 \<Longrightarrow> b64_value (b64_char n) = Some n"
  using map_of_zip_nth [of b64_alphabet "[0..<64]" n] alphabet_distinct
  by (simp add: b64_value_def b64_char_def alphabet_length)

lemma char_no_pad [simp]: "n < 64 \<Longrightarrow> b64_char n \<noteq> CHR ''=''"
proof
  assume n: "n < 64" and "b64_char n = CHR ''=''"
  then have "CHR ''='' \<in> set b64_alphabet"
    using nth_mem [of n b64_alphabet] by (simp add: b64_char_def alphabet_length)
  then show False by (simp add: b64_alphabet_def)
qed

lemma byte_parts:
  fixes a :: byte
  shows "unat a div 4 < 64" "unat a div 16 < 16" "unat a div 64 < 4"
  using byte_lt [of a] by (simp_all add: div_less_iff_less_mult)

lemma byte_join [simp]:
  fixes a :: byte
  shows "of_nat (unat a div 4 * 4 + unat a mod 4) = a"
    "of_nat (unat a mod 16 + unat a div 16 * 16) = a"
    "of_nat (unat a div 64 * 64 + unat a mod 64) = a"
  by (simp_all del: of_nat_add of_nat_mult add: add.commute)

lemma join_bits:
  fixes p q :: nat
  shows "q < 16 \<Longrightarrow> (p * 16 + q) div 16 = p" "q < 16 \<Longrightarrow> (p * 16 + q) mod 16 = q"
    "q < 4 \<Longrightarrow> (p * 4 + q) div 4 = p" "q < 4 \<Longrightarrow> (p * 4 + q) mod 4 = q"
  by simp_all

lemma decode_group:
  "b64decode_from 0 0 0 out
     (b64_char (unat a div 4) # b64_char (unat a mod 4 * 16 + unat b div 16) #
      b64_char (unat b mod 16 * 4 + unat c div 64) # b64_char (unat c mod 64) # cs)
   = b64decode_from 0 0 0 (c # b # a # out) cs"
proof -
  have small: "unat a mod 4 * 16 + unat b div 16 < 64" "unat b mod 16 * 4 + unat c div 64 < 64"
    using byte_parts [of b] byte_parts [of c] by (simp_all add: mult.commute)
  have b: "of_nat (unat b div 16 * 16 + unat b mod 16) = b" and
    c: "of_nat (unat c div 64 * 64 + unat c mod 64) = c" and
    a: "of_nat (unat a div 4 * 4 + unat a mod 4) = a"
    by (simp_all del: of_nat_add of_nat_mult)
  show ?thesis
    using small byte_parts [of a] byte_parts [of b] byte_parts [of c] a b c
    by (simp del: of_nat_add of_nat_mult add: join_bits)
qed

lemma decode_encode_from: "b64decode_from 0 0 0 out (b64encode xs) = Some (rev out @ xs)"
proof (induction xs arbitrary: out rule: b64encode.induct)
  case (2 a)
  then show ?case
    using byte_parts [of a] byte_join(1) [of a]
    by (simp del: of_nat_add of_nat_mult byte_join)
next
  case (3 a b)
  have "unat a mod 4 * 16 + unat b div 16 < 64"
    using byte_parts [of b] by (simp add: mult.commute)
  then show ?case
    using byte_parts [of a] byte_parts [of b] byte_join [of a] byte_join [of b]
    by (simp del: of_nat_add of_nat_mult byte_join add: join_bits)
next
  case (4 a b c xs)
  from "4.IH" [of "c # b # a # out"] show ?case
    by (simp only: b64encode.simps decode_group) simp
qed simp

lemma b64_roundtrip [simp]: "b64decode (b64encode xs) = Some xs"
  by (simp add: b64decode_def decode_encode_from)

lemma b64encode_inj [simp]: "b64encode xs = b64encode ys \<longleftrightarrow> xs = ys"
  by (metis b64_roundtrip option.inject)

end
