(* ===== verification/Fallback.thy ===== *)
theory Fallback
  imports Prelude
begin

text \<open>
  \<open>resilience/fallback.py\<close>: what the user is texted when a call cannot finish. A text is
  named by the table entry it comes from (two of the entries carry the same text); the
  wording, which is not ASCII, plays no part.
\<close>

datatype FallbackText =
    DefaultText
  | MenuTrouble
  | WrongNumber
  | CallDropped
  | CouldNotRedial
  | UserHungUp
  | CouldNotConnect

definition BY_REASON :: "string \<rightharpoonup> FallbackText" where
  "BY_REASON = [
     ''tier2_unavailable'' \<mapsto> MenuTrouble,
     ''tier2_circuit_open'' \<mapsto> MenuTrouble,
     ''non_connect'' \<mapsto> WrongNumber,
     ''dropped'' \<mapsto> CallDropped,
     ''redial_failed'' \<mapsto> CouldNotRedial,
     ''user_left'' \<mapsto> UserHungUp,
     ''handoff_error'' \<mapsto> CouldNotConnect]"

definition fallback_message :: "string \<Rightarrow> FallbackText" where
  "fallback_message reason = (case BY_REASON reason of Some t \<Rightarrow> t | None \<Rightarrow> DefaultText)"

end
