(* ===== verification/Bridge.thy ===== *)
theory Bridge
  imports Session Base64 Fallback
begin

text \<open>
  \<open>agent/bridge.py\<close>: the hub of one call, to which both legs' sockets attach. This theory has
  the operations that only touch the object itself; what reaches out of it (the keypress
  thread, the text to the user, the handoff task, the session it feeds, the teardown hook) is
  returned as an effect, in order, and performed by \<open>App\<close>, which owns the objects.

  The hooks \<open>media.py\<close> wires are closures; a closure is the values it captured, \<open>None\<close> the
  no-op the constructor sets.
\<close>

section \<open>The object\<close>

record MediaMsg =
  streamSid :: string
  payload_b64 :: string

record WavRecorder =
  wav_path :: string
  wav_rate :: nat
  wav_data :: "sample list"
  wav_closed :: bool

record CallBridge =
  group_id :: string
  session :: AgentSession
  agent_stream_sid :: "string option"
  user_stream_sid :: "string option"
  has_loop :: bool
  outbound_agent :: "MediaMsg list"
  outbound_user :: "MediaMsg list"
  probe_inbound :: "byte list list option"
  dtmf_redirect :: "(string \<times> string) option"
  reconnecting :: bool
  reconnect_since :: "py_float option"
  notify_user :: "string option"
  on_teardown :: "string option"
  relay_open :: bool
  handoff_started :: bool
  recorder :: "WavRecorder option"
  bridge_closed :: bool

definition new_CallBridge :: "string \<Rightarrow> AgentSession \<Rightarrow> CallBridge" where
  "new_CallBridge g s = \<lparr>
     group_id = g,
     session = s,
     agent_stream_sid = None,
     user_stream_sid = None,
     has_loop = False,
     outbound_agent = [],
     outbound_user = [],
     probe_inbound = None,
     dtmf_redirect = None,
     reconnecting = False,
     reconnect_since = None,
     notify_user = None,
     on_teardown = None,
     relay_open = False,
     handoff_started = False,
     recorder = None,
     bridge_closed = False\<rparr>"

datatype SmsBody = ConnectedText | FallbackSms FallbackText

datatype bridge_effect =
    StartDtmfThread string
  | NotifyUser SmsBody
  | SpawnHandoff
  | TeardownHook string

section \<open>Binding the legs\<close>

definition bind_agent :: "string \<Rightarrow> bool \<Rightarrow> CallBridge \<Rightarrow> CallBridge" where
  "bind_agent sid lp b = b\<lparr>agent_stream_sid := Some sid, has_loop := lp\<rparr>"

definition bind_user :: "string \<Rightarrow> CallBridge \<Rightarrow> CallBridge" where
  "bind_user sid b = b\<lparr>user_stream_sid := Some sid\<rparr>"

section \<open>Audio\<close>

definition frame :: "string \<Rightarrow> byte list \<Rightarrow> MediaMsg" where
  "frame sid ulaw = \<lparr>streamSid = sid, payload_b64 = b64encode ulaw\<rparr>"

text \<open>\<open>on_agent_audio\<close> up to the call of \<open>feed_audio\<close>, which \<open>App\<close> makes.\<close>

definition tee_probe :: "byte list \<Rightarrow> CallBridge \<Rightarrow> CallBridge" where
  "tee_probe ulaw b = b\<lparr>probe_inbound := map_option (\<lambda>q. q @ [ulaw]) (probe_inbound b)\<rparr>"

definition relay_to_user :: "byte list \<Rightarrow> CallBridge \<Rightarrow> CallBridge" where
  "relay_to_user ulaw b = (case user_stream_sid b of
       Some sid \<Rightarrow> if relay_open b then b\<lparr>outbound_user := outbound_user b @ [frame sid ulaw]\<rparr> else b
     | None \<Rightarrow> b)"

definition on_user_audio :: "byte list \<Rightarrow> CallBridge \<Rightarrow> CallBridge" where
  "on_user_audio ulaw b = (case agent_stream_sid b of
       Some sid \<Rightarrow> if relay_open b then b\<lparr>outbound_agent := outbound_agent b @ [frame sid ulaw]\<rparr> else b
     | None \<Rightarrow> b)"

definition FRAME :: nat where
  "FRAME = 160"

definition play_to_agent :: "nat list \<Rightarrow> sample list \<Rightarrow> CallBridge \<Rightarrow> CallBridge" where
  "play_to_agent order samples b = (case agent_stream_sid b of
       None \<Rightarrow> b
     | Some sid \<Rightarrow>
         b\<lparr>outbound_agent := outbound_agent b @ map (frame sid) (slices FRAME (pcm16_to_ulaw order samples))\<rparr>)"

definition drain_agent :: "CallBridge \<Rightarrow> MediaMsg list \<times> CallBridge" where
  "drain_agent b = (outbound_agent b, b\<lparr>outbound_agent := []\<rparr>)"

definition drain_user :: "CallBridge \<Rightarrow> MediaMsg list \<times> CallBridge" where
  "drain_user b = (outbound_user b, b\<lparr>outbound_user := []\<rparr>)"

section \<open>Keypresses\<close>

definition dtmf_keys :: string where
  "dtmf_keys = ''0123456789*#''"

definition press_dtmf :: "string \<Rightarrow> py_float \<Rightarrow> CallBridge \<Rightarrow> bridge_effect list \<times> CallBridge" where
  "press_dtmf digits now b =
     (let safe = filter (\<lambda>c. c \<in> set dtmf_keys) digits
      in if safe = '''' \<or> agent_stream_sid b = None then ([], b)
         else ([StartDtmfThread safe], b\<lparr>reconnecting := True, reconnect_since := Some now\<rparr>))"

section \<open>The probe\<close>

text \<open>
  \<open>run_probe\<close> around the exchange, which is a coroutine: its start, one frame taken from the
  inbound queue, and its end, however the exchange ended.
\<close>

definition probe_model :: "Settings \<Rightarrow> string" where
  "probe_model sett = (if realtime_menu_model sett \<noteq> '''' then realtime_menu_model sett else realtime_model sett)"

definition probe_begins :: "CallBridge \<Rightarrow> CallBridge" where
  "probe_begins b = b\<lparr>probe_inbound := Some []\<rparr>"

definition probe_reads :: "CallBridge \<Rightarrow> byte list option \<times> CallBridge" where
  "probe_reads b = (case probe_inbound b of
       Some (f # fs) \<Rightarrow> (Some f, b\<lparr>probe_inbound := Some fs\<rparr>)
     | _ \<Rightarrow> (None, b))"

definition probe_ends :: "CallBridge \<Rightarrow> CallBridge" where
  "probe_ends b = b\<lparr>probe_inbound := None\<rparr>"

section \<open>The handoff\<close>

definition open_relay :: "CallBridge \<Rightarrow> bridge_effect list \<times> CallBridge" where
  "open_relay b = ([NotifyUser ConnectedText], b\<lparr>relay_open := True\<rparr>)"

definition begin_handoff :: "CallBridge \<Rightarrow> (exn + unit) \<times> bridge_effect list \<times> CallBridge" where
  "begin_handoff b =
     (if handoff_started b then (Inr (), [], b)
      else
        let b' = b\<lparr>handoff_started := True\<rparr>
        in if user_stream_sid b' = None then (Inl (HandoffUnavailable ''user_left''), [], b')
           else if \<not> has_loop b' \<or> openai_api_key (settings (session b')) = ''''
           then (Inr (), open_relay b')
           else (Inr (), [SpawnHandoff], b'))"

text \<open>
  \<open>_do_handoff\<close>: the line is spoken (its audio arrives through \<open>play_to_agent\<close>; a failure is
  logged), then up to 250 looks at the queue, 20 ms apart, until it is empty.
\<close>

datatype HandoffPhase = Speaking | Waiting nat

definition HANDOFF_POLLS :: nat where
  "HANDOFF_POLLS = 250"

definition handoff_poll ::
  "nat \<Rightarrow> CallBridge \<Rightarrow> HandoffPhase option \<times> bridge_effect list \<times> CallBridge" where
  "handoff_poll left b =
     (if left = 0 \<or> outbound_agent b = [] then (None, open_relay b) else (Some (Waiting (left - 1)), [], b))"

section \<open>Failure and end\<close>

definition on_session_fail :: "string \<Rightarrow> CallBridge \<Rightarrow> bridge_effect list \<times> CallBridge" where
  "on_session_fail reason b = ([TeardownHook reason], b)"

definition recorder_write :: "sample list \<Rightarrow> WavRecorder \<Rightarrow> WavRecorder" where
  "recorder_write samples w = (if wav_closed w then w else w\<lparr>wav_data := wav_data w @ samples\<rparr>)"

definition recorder_close :: "WavRecorder \<Rightarrow> WavRecorder" where
  "recorder_close w = (if wav_closed w then w else w\<lparr>wav_closed := True\<rparr>)"

text \<open>What \<open>close\<close> does to the bridge; it also closes the session, unless closed before.\<close>

definition close_bridge :: "CallBridge \<Rightarrow> CallBridge" where
  "close_bridge b = (if bridge_closed b then b
     else b\<lparr>bridge_closed := True, recorder := map_option recorder_close (recorder b)\<rparr>)"

lemmas bridge_op_defs = bind_agent_def bind_user_def tee_probe_def relay_to_user_def on_user_audio_def
  play_to_agent_def drain_agent_def drain_user_def press_dtmf_def probe_begins_def probe_reads_def
  probe_ends_def open_relay_def begin_handoff_def handoff_poll_def on_session_fail_def close_bridge_def

end
