(* ===== verification/Executor.thy ===== *)
theory Executor
  imports Prelude
begin

text \<open>
  \<open>agent/executor.py\<close>: the single slot through which a Tier 2 call leaves the media loop.
  The locale \<open>tier2_executor\<close> is the \<open>Tier2Executor\<close> protocol with what its docstrings
  promise; \<open>InlineExecutor\<close> and \<open>ThreadedExecutor\<close> are its two implementations.

  A result is \<open>Inl\<close> the error or \<open>Inr\<close> the value (\<open>(value, error)\<close>, exactly one set).
\<close>

type_synonym 'v outcome = "exn + 'v"

section \<open>The protocol\<close>

text \<open>
  What a caller, or the world in between, does to an executor; and the results the polls of
  such a sequence deliver.
\<close>

datatype ('j, 'e) exec_op = Submit 'j | Poll | Env "'e \<Rightarrow> 'e"

primrec deliveries ::
  "('j \<Rightarrow> ('e, unit) proc) \<Rightarrow> ('e, 'v outcome option) proc \<Rightarrow> ('j, 'e) exec_op list \<Rightarrow> 'e
     \<Rightarrow> 'v outcome list" where
  "deliveries sub pol [] e = []"
| "deliveries sub pol (x # xs) e =
     (case x of
        Submit j \<Rightarrow> deliveries sub pol xs (snd (sub j e))
      | Env f \<Rightarrow> deliveries sub pol xs (f e)
      | Poll \<Rightarrow> (case fst (pol e) of
                   Inr (Some r) \<Rightarrow> r # deliveries sub pol xs (snd (pol e))
                 | _ \<Rightarrow> deliveries sub pol xs (snd (pol e))))"

primrec is_submit :: "('j, 'e) exec_op \<Rightarrow> bool" where
  "is_submit (Submit j) = True"
| "is_submit Poll = False"
| "is_submit (Env f) = False"

text \<open>
  \<open>outstanding e\<close>: a result of \<open>e\<close> can still be delivered; \<open>internal f\<close>: \<open>f\<close> is a step of
  the world (a worker thread, other code) that is no call of submit or poll.
\<close>

locale tier2_executor =
  fixes submit :: "'j \<Rightarrow> ('e, unit) proc"
    and poll :: "('e, 'v outcome option) proc"
    and outstanding :: "'e \<Rightarrow> bool"
    and internal :: "('e \<Rightarrow> 'e) \<Rightarrow> bool"
  assumes submit_takes_slot: "submit j e = (Inr (), e') \<Longrightarrow> outstanding e'"
    and submit_refused: "submit j e = (Inl x, e') \<Longrightarrow> outstanding e' \<Longrightarrow> outstanding e"
    and poll_delivers: "poll e = (Inr (Some r), e') \<Longrightarrow> outstanding e \<and> \<not> outstanding e'"
    and poll_waits: "poll e = (Inr None, e') \<Longrightarrow> e' = e"
    and poll_raises: "poll e = (Inl x, e') \<Longrightarrow> \<not> outstanding e'"
    and internal_adds_none: "internal f \<Longrightarrow> outstanding (f e) \<Longrightarrow> outstanding e"
begin

text \<open>Once delivered, the slot is empty: the next poll has nothing.\<close>

lemma delivered_once:
  assumes "poll e = (Inr (Some r), e')"
  shows "fst (poll e') \<noteq> Inr (Some r')"
  using poll_delivers [OF assms] poll_delivers [of e' r'] by (metis prod.collapse)

lemma delivery_bound:
  assumes "\<forall>f. Env f \<in> set xs \<longrightarrow> internal f"
  shows "length (deliveries submit poll xs e)
         \<le> length (filter is_submit xs) + (if outstanding e then 1 else 0)"
  using assms
proof (induction xs arbitrary: e)
  case (Cons x xs)
  have env: "\<forall>f. Env f \<in> set xs \<longrightarrow> internal f" using Cons.prems by simp
  show ?case
  proof (cases x)
    case (Submit j)
    from Cons.IH [OF env, of "snd (submit j e)"] Submit show ?thesis
      by (simp split: if_splits)
  next
    case Poll
    obtain p e' where pe: "poll e = (p, e')" by fastforce
    show ?thesis
    proof (cases "\<exists>r. p = Inr (Some r)")
      case True
      with pe poll_delivers Cons.IH [OF env, of e'] Poll show ?thesis by auto
    next
      case False
      then have drop: "deliveries submit poll (x # xs) e = deliveries submit poll xs e'"
        using Poll pe by (auto split: sum.split option.split)
      have "outstanding e' \<Longrightarrow> outstanding e"
        using False pe poll_waits [of e e'] poll_raises [of e _ e'] by (cases p) auto
      with Cons.IH [OF env, of e'] drop Poll show ?thesis
        by (cases "outstanding e'") auto
    qed
  next
    case (Env f)
    with Cons.prems have "internal f" by simp
    with internal_adds_none [of f e] Cons.IH [OF env, of "f e"] Env show ?thesis
      by (cases "outstanding (f e)") auto
  qed
qed simp

end

section \<open>InlineExecutor\<close>

text \<open>The job is a \<open>proc\<close> on the world \<open>'w\<close>; it runs inside \<open>submit\<close>.\<close>

record 'v InlineExecutor =
  pending :: "'v outcome option"

definition new_InlineExecutor :: "'v InlineExecutor" where
  "new_InlineExecutor = \<lparr>pending = None\<rparr>"

definition inline_submit :: "('w, 'v) proc \<Rightarrow> ('v InlineExecutor \<times> 'w, unit) proc" where
  "inline_submit fn = (\<lambda>(e, w). let (r, w') = fn w in (Inr (), (e\<lparr>pending := Some r\<rparr>, w')))"

definition inline_poll :: "('v InlineExecutor \<times> 'w, 'v outcome option) proc" where
  "inline_poll = (\<lambda>(e, w). (Inr (pending e), (e\<lparr>pending := None\<rparr>, w)))"

definition inline_close :: "'v InlineExecutor \<Rightarrow> 'v InlineExecutor" where
  "inline_close e = e\<lparr>pending := None\<rparr>"

definition inline_outstanding :: "'v InlineExecutor \<times> 'w \<Rightarrow> bool" where
  "inline_outstanding ew \<longleftrightarrow> pending (fst ew) \<noteq> None"

lemmas inline_defs = inline_submit_def inline_poll_def inline_close_def inline_outstanding_def

interpretation inline: tier2_executor inline_submit inline_poll inline_outstanding
  "\<lambda>f. \<forall>e w. pending (fst (f (e, w))) = pending e \<or> pending (fst (f (e, w))) = None"
proof unfold_locales
  fix j :: "('w, 'v) proc" and e e' :: "'v InlineExecutor \<times> 'w"
  show "inline_submit j e = (Inr (), e') \<Longrightarrow> inline_outstanding e'"
    by (auto simp: inline_defs split: prod.splits)
  show "inline_submit j e = (Inl x, e') \<Longrightarrow> inline_outstanding e' \<Longrightarrow> inline_outstanding e" for x
    by (auto simp: inline_defs split: prod.splits)
next
  fix e e' :: "'v InlineExecutor \<times> 'w"
  show "inline_poll e = (Inr (Some r), e') \<Longrightarrow> inline_outstanding e \<and> \<not> inline_outstanding e'" for r
    by (auto simp: inline_defs split: prod.splits)
  show "inline_poll e = (Inr None, e') \<Longrightarrow> e' = e"
    by (cases e) (auto simp: inline_defs)
  show "inline_poll e = (Inl x, e') \<Longrightarrow> \<not> inline_outstanding e'" for x
    by (auto simp: inline_defs split: prod.splits)
next
  fix f and e :: "'v InlineExecutor \<times> 'w"
  assume "\<forall>e w. pending (fst (f (e, w))) = pending e \<or> pending (fst (f (e, w))) = None"
    and "inline_outstanding (f e)"
  then show "inline_outstanding e"
    by (cases e) (metis fst_conv inline_outstanding_def)
qed

section \<open>ThreadedExecutor\<close>

text \<open>
  The pool has one worker: at most one job runs, the others queue behind it. A future is a
  number; \<open>results\<close> holds the outcomes of the futures that are done, \<open>cancelled\<close> the ones
  \<open>close\<close> cancelled before they started, and \<open>future\<close> is the one the session waits for.
\<close>

record ('j, 'v) ThreadedExecutor =
  running :: "(nat \<times> 'j) option"
  queued :: "(nat \<times> 'j) list"
  results :: "nat \<Rightarrow> 'v outcome option"
  cancelled :: "nat set"
  future :: "nat option"
  next_future :: nat
  shut :: bool

definition new_ThreadedExecutor :: "('j, 'v) ThreadedExecutor" where
  "new_ThreadedExecutor = \<lparr>running = None, queued = [], results = Map.empty, cancelled = {},
     future = None, next_future = 0, shut = False\<rparr>"

text \<open>\<open>ThreadPoolExecutor.submit\<close> raises once the pool was shut down.\<close>

definition threaded_submit :: "'j \<Rightarrow> (('j, 'v) ThreadedExecutor, unit) proc" where
  "threaded_submit fn e =
     (if shut e then (Inl (RuntimeError ''cannot schedule new futures after shutdown''), e)
      else (Inr (), e\<lparr>queued := queued e @ [(next_future e, fn)],
                      future := Some (next_future e), next_future := next_future e + 1\<rparr>))"

definition threaded_poll :: "(('j, 'v) ThreadedExecutor, 'v outcome option) proc" where
  "threaded_poll e = (case future e of
       None \<Rightarrow> (Inr None, e)
     | Some k \<Rightarrow>
         if k \<in> cancelled e then (Inl CancelledError, e\<lparr>future := None\<rparr>)
         else (case results e k of
                 None \<Rightarrow> (Inr None, e)
               | Some r \<Rightarrow> (Inr (Some r), e\<lparr>future := None\<rparr>)))"

definition threaded_close :: "('j, 'v) ThreadedExecutor \<Rightarrow> ('j, 'v) ThreadedExecutor" where
  "threaded_close e = e\<lparr>shut := True, cancelled := cancelled e \<union> fst ` set (queued e), queued := []\<rparr>"

text \<open>The worker thread takes the next job, and finishes the one it runs with outcome \<open>r\<close>.\<close>

definition worker_takes :: "('j, 'v) ThreadedExecutor \<Rightarrow> ('j, 'v) ThreadedExecutor" where
  "worker_takes e = (case (running e, queued e) of
       (None, x # xs) \<Rightarrow> e\<lparr>running := Some x, queued := xs\<rparr>
     | _ \<Rightarrow> e)"

definition worker_finishes :: "'v outcome \<Rightarrow> ('j, 'v) ThreadedExecutor \<Rightarrow> ('j, 'v) ThreadedExecutor" where
  "worker_finishes r e = (case running e of
       None \<Rightarrow> e
     | Some (k, _) \<Rightarrow> e\<lparr>running := None, results := (results e)(k \<mapsto> r)\<rparr>)"

definition threaded_outstanding :: "('j, 'v) ThreadedExecutor \<Rightarrow> bool" where
  "threaded_outstanding e \<longleftrightarrow> future e \<noteq> None"

definition threaded_internal :: "(('j, 'v) ThreadedExecutor \<Rightarrow> ('j, 'v) ThreadedExecutor) \<Rightarrow> bool" where
  "threaded_internal f \<longleftrightarrow> f = worker_takes \<or> f = threaded_close \<or> (\<exists>r. f = worker_finishes r)"

lemmas threaded_defs = threaded_submit_def threaded_poll_def threaded_close_def worker_takes_def
  worker_finishes_def threaded_outstanding_def

lemma threaded_internal_future: "threaded_internal f \<Longrightarrow> future (f e) = future e"
  by (auto simp: threaded_internal_def threaded_defs split: option.split list.split)

interpretation threaded: tier2_executor threaded_submit threaded_poll threaded_outstanding threaded_internal
proof unfold_locales
  fix j :: 'j and e e' :: "('j, 'v) ThreadedExecutor"
  show "threaded_submit j e = (Inr (), e') \<Longrightarrow> threaded_outstanding e'"
    by (auto simp: threaded_defs split: if_splits)
  show "threaded_submit j e = (Inl x, e') \<Longrightarrow> threaded_outstanding e' \<Longrightarrow> threaded_outstanding e" for x
    by (auto simp: threaded_defs split: if_splits)
next
  fix e e' :: "('j, 'v) ThreadedExecutor"
  show "threaded_poll e = (Inr (Some r), e') \<Longrightarrow> threaded_outstanding e \<and> \<not> threaded_outstanding e'" for r
    by (auto simp: threaded_defs split: option.splits if_splits)
  show "threaded_poll e = (Inr None, e') \<Longrightarrow> e' = e"
    by (auto simp: threaded_defs split: option.splits if_splits)
  show "threaded_poll e = (Inl x, e') \<Longrightarrow> \<not> threaded_outstanding e'" for x
    by (auto simp: threaded_defs split: option.splits if_splits)
next
  fix f and e :: "('j, 'v) ThreadedExecutor"
  show "threaded_internal f \<Longrightarrow> threaded_outstanding (f e) \<Longrightarrow> threaded_outstanding e"
    by (simp add: threaded_outstanding_def threaded_internal_future)
qed

text \<open>
  [C27] One result per job: whatever order of submits, polls, closes and worker steps, the
  live executor delivers no more results than jobs were submitted, so no Tier 2 answer is
  applied twice.
\<close>

theorem threaded_one_result_per_job:
  assumes "\<forall>f. Env f \<in> set xs \<longrightarrow> threaded_internal f"
  shows "length (deliveries threaded_submit threaded_poll xs (new_ThreadedExecutor :: ('j, 'v) ThreadedExecutor))
         \<le> length (filter is_submit xs)"
  using threaded.delivery_bound [OF assms, of "new_ThreadedExecutor :: ('j, 'v) ThreadedExecutor"]
  by (simp add: threaded_outstanding_def new_ThreadedExecutor_def)

theorem threaded_one_result_per_job_witness:
  "length (deliveries threaded_submit threaded_poll
      [Submit (), Poll, Env worker_takes, Poll, Env (worker_finishes (Inr True)), Poll, Poll]
      (new_ThreadedExecutor :: (unit, bool) ThreadedExecutor)) \<le> 1"
  by (rule order_trans [OF threaded_one_result_per_job]) (auto simp: threaded_internal_def)

end
