(* ===== verification/App.thy ===== *)
theory App
  imports Bridge Executor "HOL-Library.AList"
begin

text \<open>
  The process: \<open>app.state\<close> of \<open>main.py\<close>, the Twilio side effects and the teardown of
  \<open>api/media.py\<close>, and the wiring of a session's hooks to its \<open>CallBridge\<close>. Bridges are shared
  (the registry, the sockets and the hooks all refer to them), so they live in a heap and are
  referred to by number; each bridge owns its session, and \<open>executors\<close> holds that session's
  Tier 2 executor.

  \<open>app.state.bridges\<close> is iterated over, so it is an association list in insertion order; the
  other registries are maps. \<open>twilio_log\<close> is the requests made to Twilio, in order; the group
  in a \<open>SendSms\<close> is not sent, it records whose text it is. \<open>telemetry\<close> is what the shared sink
  was handed.
\<close>

section \<open>The state\<close>

datatype TwilioCall =
    PlaceCall string string string
  | RingUser string string string
  | SendSms string string SmsBody
  | PressDigits string string string
  | HangUp string

record CallMeta =
  business_number :: string
  redials :: nat

text \<open>
  What is outside the sources: Twilio's reply to a request after the ones before it (\<open>None\<close>
  when the client raises, otherwise the new call's SID), the acoustic classifier, and the
  order \<open>argsort\<close> gives equal mu-law levels.
\<close>

record Deps =
  twilio_reply :: "TwilioCall list \<Rightarrow> TwilioCall \<Rightarrow> string option"
  classifier :: "Frame \<Rightarrow> Classification"
  byte_order :: "nat list"

datatype Leg = AgentLeg | UserLeg

text \<open>A writer task (\<open>_drain_loop\<close>): the queue it drains, and the messages drained but not sent.\<close>

record Writer =
  writer_leg :: Leg
  writer_ref :: nat
  unsent :: "MediaMsg list"

text \<open>
  The local variables of a running \<open>media_stream\<close>. \<open>writers\<close> are the tasks it started, the
  newest (the variable \<open>writer\<close>, or \<open>_serve_user_leg\<close>'s) first. Its variable \<open>recorder\<close> is
  always the recorder of \<open>h_bridge\<close>.
\<close>

record Handler =
  h_bridge :: "nat option"
  h_group :: string
  saw_stop :: bool
  writers :: "Writer list"

text \<open>Where the handler of a socket is suspended.\<close>

datatype Socket =
    NoSocket
  | Reading Handler
  | Attaching Handler string nat
  | Relaying Handler nat
  | UserClosing Handler nat
  | Closing Handler
  | SocketClosed

record App =
  app_settings :: Settings
  has_twilio :: bool
  bridges :: "(string \<times> nat) list"
  sessions :: "string \<rightharpoonup> nat"
  pending_goals :: "string \<rightharpoonup> string option"
  user_legs :: "string \<rightharpoonup> string"
  user_numbers :: "string \<rightharpoonup> string"
  call_meta :: "string \<rightharpoonup> CallMeta"
  heap :: "nat \<Rightarrow> CallBridge"
  executors :: "nat \<Rightarrow> (Tier2Job, Tier2Value) ThreadedExecutor"
  next_ref :: nat
  telemetry :: "Event list"
  twilio_log :: "TwilioCall list"
  clock :: py_float
  dtmf_threads :: "(nat \<times> string) list"
  handoff_tasks :: "nat \<rightharpoonup> HandoffPhase"
  sockets :: "nat \<Rightarrow> Socket"
  wire :: "(nat \<times> Leg \<times> nat \<times> MediaMsg) list"

text \<open>Whether \<open>_build_twilio_client\<close> gives a client.\<close>

definition build_twilio_client :: "Settings \<Rightarrow> bool" where
  "build_twilio_client sett \<longleftrightarrow> twilio_account_sid sett \<noteq> '''' \<and> twilio_auth_token sett \<noteq> ''''
     \<and> twilio_from_number sett \<noteq> ''''"

definition create_app :: "Settings \<Rightarrow> App" where
  "create_app sett = \<lparr>
     app_settings = sett,
     has_twilio = build_twilio_client sett,
     bridges = [],
     sessions = Map.empty,
     pending_goals = Map.empty,
     user_legs = Map.empty,
     user_numbers = Map.empty,
     call_meta = Map.empty,
     heap = (\<lambda>_. new_CallBridge '''' (new_AgentSession '''' sett default_FsmConfig None None None)),
     executors = (\<lambda>_. new_ThreadedExecutor),
     next_ref = 0,
     telemetry = [],
     twilio_log = [],
     clock = 0,
     dtmf_threads = [],
     handoff_tasks = Map.empty,
     sockets = (\<lambda>_. NoSocket),
     wire = []\<rparr>"

definition at_bridge :: "nat \<Rightarrow> (CallBridge \<Rightarrow> CallBridge) \<Rightarrow> App \<Rightarrow> App" where
  "at_bridge r f a = a\<lparr>heap := (heap a)(r := f (heap a r))\<rparr>"

definition at_executor ::
  "nat \<Rightarrow> ((Tier2Job, Tier2Value) ThreadedExecutor, 'a) proc \<Rightarrow> (App, 'a) proc" where
  "at_executor r p a =
     (let (res, e) = p (executors a r) in (res, a\<lparr>executors := (executors a)(r := e)\<rparr>))"

section \<open>Twilio side effects\<close>

definition twilio :: "Deps \<Rightarrow> TwilioCall \<Rightarrow> App \<Rightarrow> string option \<times> App" where
  "twilio dp c a = (twilio_reply dp (twilio_log a) c, a\<lparr>twilio_log := twilio_log a @ [c]\<rparr>)"

definition hang_up :: "Deps \<Rightarrow> string option \<Rightarrow> App \<Rightarrow> App" where
  "hang_up dp sid a = (case sid of
       None \<Rightarrow> a
     | Some c \<Rightarrow> if \<not> has_twilio a \<or> c = '''' \<or> c = ''unknown'' then a
                 else snd (twilio dp (HangUp c) a))"

definition sms :: "Deps \<Rightarrow> string \<Rightarrow> SmsBody \<Rightarrow> App \<Rightarrow> App" where
  "sms dp g body a = (case user_numbers a g of
       None \<Rightarrow> a
     | Some number \<Rightarrow> if \<not> has_twilio a \<or> number = '''' then a
                      else snd (twilio dp (SendSms g number body) a))"

section \<open>Teardown\<close>

definition clear_context :: "string \<Rightarrow> App \<Rightarrow> App" where
  "clear_context g a = a\<lparr>
     pending_goals := (pending_goals a)(g := None),
     user_legs := (user_legs a)(g := None),
     user_numbers := (user_numbers a)(g := None),
     call_meta := (call_meta a)(g := None)\<rparr>"

text \<open>\<open>CallBridge.close\<close>: the bridge's own part, then the session's executor.\<close>

definition shut_bridge :: "nat \<Rightarrow> App \<Rightarrow> App" where
  "shut_bridge r a =
     (if bridge_closed (heap a r) then a
      else at_bridge r close_bridge (a\<lparr>executors := (executors a)(r := threaded_close (executors a r))\<rparr>))"

definition drop_bridge :: "string \<Rightarrow> App \<Rightarrow> App" where
  "drop_bridge g a = a\<lparr>bridges := AList.delete g (bridges a)\<rparr>"

definition drop_session :: "nat \<Rightarrow> App \<Rightarrow> App" where
  "drop_session r a = a\<lparr>sessions := (sessions a)(session_call_id (session (heap a r)) := None)\<rparr>"

definition teardown_group :: "Deps \<Rightarrow> string \<Rightarrow> string option \<Rightarrow> bool \<Rightarrow> App \<Rightarrow> App" where
  "teardown_group dp g reason hang a = (case map_of (bridges a) g of
       None \<Rightarrow> clear_context g a
     | Some r \<Rightarrow>
         let s = session (heap a r);
             a1 = drop_session r (drop_bridge g a);
             a2 = (case reason of None \<Rightarrow> a1 | Some x \<Rightarrow> sms dp g (FallbackSms (fallback_message x)) a1);
             a3 = (if hang then hang_up dp (user_leg_sid s) (hang_up dp (Some (session_call_id s)) a2)
                   else a2)
         in clear_context g (shut_bridge r a3))"

definition RECONNECT_GRACE_S :: py_float where
  "RECONNECT_GRACE_S = 20"

definition stale :: "py_float \<Rightarrow> CallBridge \<Rightarrow> bool" where
  "stale now b = (case reconnect_since b of
       None \<Rightarrow> False
     | Some since \<Rightarrow> reconnecting b \<and> now - since > RECONNECT_GRACE_S)"

primrec reap_over :: "Deps \<Rightarrow> py_float \<Rightarrow> (string \<times> nat) list \<Rightarrow> App \<Rightarrow> nat \<times> App" where
  "reap_over dp now [] a = (0, a)"
| "reap_over dp now (x # xs) a =
     (if stale now (heap a (snd x))
      then let (n, a') = reap_over dp now xs (teardown_group dp (fst x) (Some ''dropped'') True a)
           in (n + 1, a')
      else reap_over dp now xs a)"

definition reap_stale_bridges :: "Deps \<Rightarrow> py_float \<Rightarrow> App \<Rightarrow> nat \<times> App" where
  "reap_stale_bridges dp now a = reap_over dp now (bridges a) a"

section \<open>A session's hooks\<close>

text \<open>The effects a bridge asks for. The teardown hook texts the user and hangs up both legs.\<close>

fun perform :: "Deps \<Rightarrow> nat \<Rightarrow> bridge_effect \<Rightarrow> App \<Rightarrow> App" where
  "perform dp r (StartDtmfThread digits) a = a\<lparr>dtmf_threads := dtmf_threads a @ [(r, digits)]\<rparr>"
| "perform dp r (NotifyUser body) a = (case notify_user (heap a r) of
       None \<Rightarrow> a | Some g \<Rightarrow> sms dp g body a)"
| "perform dp r SpawnHandoff a = a\<lparr>handoff_tasks := (handoff_tasks a)(r \<mapsto> Speaking)\<rparr>"
| "perform dp r (TeardownHook reason) a = (case on_teardown (heap a r) of
       None \<Rightarrow> a | Some g \<Rightarrow> teardown_group dp g (Some reason) True a)"

definition run_effects :: "Deps \<Rightarrow> nat \<Rightarrow> bridge_effect list \<times> CallBridge \<Rightarrow> App \<Rightarrow> App" where
  "run_effects dp r eb a = fold (perform dp r) (fst eb) (at_bridge r (\<lambda>_. snd eb) a)"

text \<open>The session of bridge \<open>r\<close> runs in this environment; the rest of the process is its world.\<close>

definition bridge_env :: "Deps \<Rightarrow> nat \<Rightarrow> App env" where
  "bridge_env dp r = \<lparr>
     classify = classifier dp,
     telemetry_emit = (\<lambda>e a. a\<lparr>telemetry := telemetry a @ [e]\<rparr>),
     exec_submit = (\<lambda>j. at_executor r (threaded_submit j)),
     exec_poll = at_executor r threaded_poll,
     exec_close = (\<lambda>a. a\<lparr>executors := (executors a)(r := threaded_close (executors a r))\<rparr>),
     dtmf_sender = (\<lambda>d a. (Inr (), run_effects dp r (press_dtmf d (clock a) (heap a r)) a)),
     on_bridge = (\<lambda>a. let (res, eb) = begin_handoff (heap a r) in (res, run_effects dp r eb a)),
     on_fail = (\<lambda>reason a. (Inr (), run_effects dp r (on_session_fail reason (heap a r)) a))\<rparr>"

definition put_session :: "nat \<Rightarrow> AgentSession \<Rightarrow> App \<Rightarrow> App" where
  "put_session r s = at_bridge r (\<lambda>b. b\<lparr>session := s\<rparr>)"

text \<open>\<open>CallBridge.on_agent_audio\<close>; \<open>None\<close> when the session's loop does not end.\<close>

definition on_agent_audio :: "Deps \<Rightarrow> nat \<Rightarrow> byte list \<Rightarrow> App \<Rightarrow> ((exn + unit) \<times> App) option" where
  "on_agent_audio dp r ulaw a =
     (let a1 = at_bridge r (\<lambda>b. relay_to_user ulaw (tee_probe ulaw b)) a;
          s = session (heap a1 r)
      in if finished s then Some (Inr (), a1)
         else (case feed_audio (bridge_env dp r) (Int16 (ulaw_to_pcm16 ulaw)) (s, a1) of
             None \<Rightarrow> None
           | Some (res, (s', a2)) \<Rightarrow> Some (res, put_session r s' a2)))"

definition abort_session :: "Deps \<Rightarrow> nat \<Rightarrow> string \<Rightarrow> App \<Rightarrow> (exn + unit) \<times> App" where
  "abort_session dp r reason a =
     (let (res, (s', a')) = abort (bridge_env dp r) reason (session (heap a r), a)
      in (res, put_session r s' a'))"

end
