(* ===== verification/Media.thy ===== *)
theory Media
  imports App
begin

text \<open>
  \<open>api/media.py\<close>, \<open>api/calls.py\<close> and the tasks they start, as the steps of the process. The
  event loop runs one piece of code between two suspension points at a time, so a step is such
  a piece: a message received by a socket's handler, one look at a queue, the end of an awaited
  cancellation, a thread's body. \<open>app_step\<close> is total but for a session whose loop does not end;
  an event that is not due where the process stands changes nothing.
\<close>

section \<open>Placing a call\<close>

record CallRequest =
  business :: string
  user :: string
  call_goal :: "string option"

datatype CallReply = Invalid | NotConfigured | TwilioRaised | CallAccepted string string

definition valid_request :: "CallRequest \<Rightarrow> bool" where
  "valid_request req \<longleftrightarrow> 3 \<le> length (business req) \<and> 3 \<le> length (user req)"

definition voice_url :: "App \<Rightarrow> string \<Rightarrow> string" where
  "voice_url a g = public_base_url (app_settings a) @ ''/twiml/voice?group='' @ g"

definition join_url :: "App \<Rightarrow> string \<Rightarrow> string" where
  "join_url a g = public_base_url (app_settings a) @ ''/twiml/join?group='' @ g"

definition ring_user_leg :: "Deps \<Rightarrow> string \<Rightarrow> string \<Rightarrow> App \<Rightarrow> App" where
  "ring_user_leg dp number g a =
     (case twilio dp (RingUser number (join_url a g) g) a of
        (None, a') \<Rightarrow> a'
      | (Some sid, a') \<Rightarrow> a'\<lparr>user_legs := (user_legs a')(g \<mapsto> sid),
                             user_numbers := (user_numbers a')(g \<mapsto> number)\<rparr>)"

definition create_call :: "Deps \<Rightarrow> CallRequest \<Rightarrow> string \<Rightarrow> App \<Rightarrow> CallReply \<times> App" where
  "create_call dp req g a =
     (if \<not> valid_request req then (Invalid, a)
      else if \<not> has_twilio a \<or> public_base_url (app_settings a) = '''' then (NotConfigured, a)
      else (case twilio dp (PlaceCall (business req) (voice_url a g) g) a of
          (None, a1) \<Rightarrow> (TwilioRaised, a1)
        | (Some sid, a1) \<Rightarrow>
            let a2 = a1\<lparr>pending_goals := (pending_goals a1)(g \<mapsto> call_goal req),
                        call_meta := (call_meta a1)(g \<mapsto> \<lparr>business_number = business req, redials = 0\<rparr>)\<rparr>
            in (CallAccepted sid ''DIALING'', ring_user_leg dp (user req) g a2)))"

section \<open>A new agent leg\<close>

definition wire_dtmf :: "App \<Rightarrow> string \<Rightarrow> string \<Rightarrow> CallBridge \<Rightarrow> CallBridge" where
  "wire_dtmf a cid g b =
     (if \<not> has_twilio a \<or> public_base_url (app_settings a) = '''' then b
      else b\<lparr>dtmf_redirect := Some (cid, voice_url a g)\<rparr>)"

definition wire_bridge_hooks :: "string \<Rightarrow> CallBridge \<Rightarrow> CallBridge" where
  "wire_bridge_hooks g b = b\<lparr>notify_user := Some g, on_teardown := Some g\<rparr>"

text \<open>\<open>make_session\<close>: the goal and the user's leg come from the registries.\<close>

definition make_session :: "App \<Rightarrow> string \<Rightarrow> string \<Rightarrow> AgentSession" where
  "make_session a cid g = new_AgentSession cid (app_settings a) default_FsmConfig
     (Option.bind (pending_goals a g) (\<lambda>x. x)) (Some g) (user_legs a g)"

definition new_recorder :: "App \<Rightarrow> string \<Rightarrow> WavRecorder option" where
  "new_recorder a cid = (if record_dir (app_settings a) = '''' then None
     else Some \<lparr>wav_path = record_dir (app_settings a) @ ''/'' @ cid @ ''.wav'',
                wav_rate = sample_rate (app_settings a), wav_data = [], wav_closed = False\<rparr>)"

definition agent_bridge :: "App \<Rightarrow> string \<Rightarrow> string \<Rightarrow> string \<Rightarrow> CallBridge" where
  "agent_bridge a cid g sid =
     (wire_bridge_hooks g (wire_dtmf a cid g
        (bind_agent sid True (new_CallBridge g (make_session a cid g)))))
     \<lparr>recorder := new_recorder a cid\<rparr>"

definition agent_writer :: "nat \<Rightarrow> Writer" where
  "agent_writer r = \<lparr>writer_leg = AgentLeg, writer_ref = r, unsent = []\<rparr>"

definition new_agent_leg :: "string \<Rightarrow> string \<Rightarrow> string \<Rightarrow> Handler \<Rightarrow> App \<Rightarrow> Handler \<times> App" where
  "new_agent_leg cid g sid h a =
     (let r = next_ref a
      in (h\<lparr>h_bridge := Some r, h_group := g, writers := agent_writer r # writers h\<rparr>,
          a\<lparr>heap := (heap a)(r := agent_bridge a cid g sid),
            executors := (executors a)(r := new_ThreadedExecutor),
            next_ref := r + 1,
            bridges := AList.update g r (bridges a),
            sessions := (sessions a)(cid \<mapsto> r)\<rparr>))"

definition rebind_agent_leg :: "nat \<Rightarrow> string \<Rightarrow> string \<Rightarrow> Handler \<Rightarrow> App \<Rightarrow> Handler \<times> App" where
  "rebind_agent_leg r g sid h a =
     (h\<lparr>h_bridge := Some r, h_group := g, writers := agent_writer r # writers h\<rparr>,
      at_bridge r (\<lambda>b. (bind_agent sid True b)\<lparr>reconnecting := False, reconnect_since := None\<rparr>) a)"

section \<open>The end of an agent leg\<close>

definition MAX_REDIALS :: nat where
  "MAX_REDIALS = 2"

definition redial_agent_leg :: "Deps \<Rightarrow> string \<Rightarrow> App \<Rightarrow> bool \<times> App" where
  "redial_agent_leg dp g a = (case call_meta a g of
       None \<Rightarrow> (False, a)
     | Some m \<Rightarrow>
         if \<not> has_twilio a \<or> public_base_url (app_settings a) = '''' \<or> redials m \<ge> MAX_REDIALS
         then (False, a)
         else let a1 = a\<lparr>call_meta := (call_meta a)(g \<mapsto> m\<lparr>redials := redials m + 1\<rparr>)\<rparr>;
                  (sid, a2) = twilio dp (PlaceCall (business_number m) (voice_url a1 g) g) a1
              in (sid \<noteq> None, a2))"

definition finish_agent_leg :: "Deps \<Rightarrow> Handler \<Rightarrow> App \<Rightarrow> App" where
  "finish_agent_leg dp h a = (case h_bridge h of
       None \<Rightarrow> a
     | Some r \<Rightarrow>
         if reconnecting (heap a r) then a
         else
           let g = h_group h;
               dropped = (\<not> saw_stop h \<and> \<not> finished (session (heap a r)));
               (redialed, a1) = (if dropped then redial_agent_leg dp g a else (False, a))
           in if redialed
              then shut_bridge r (drop_session r
                     (if map_of (bridges a1) g = Some r then drop_bridge g a1 else a1))
              else teardown_group dp g (if dropped then Some ''dropped'' else None) dropped a1)"

section \<open>The sockets\<close>

record StartMsg =
  param_group :: "string option"
  param_role :: "string option"
  start_stream :: "string option"
  start_call :: "string option"

text \<open>
  What a handler gets from \<open>receive_text\<close>: a message, or an exception (the peer is gone, the
  text is no message of the protocol).
\<close>

datatype Message = Start StartMsg | Media string | Stop | OtherMessage | Broken

text \<open>\<open>x or y\<close> on strings.\<close>

definition py_or :: "string option \<Rightarrow> string \<Rightarrow> string" where
  "py_or x y = (case x of None \<Rightarrow> y | Some v \<Rightarrow> if v = '''' then y else v)"

definition start_group :: "StartMsg \<Rightarrow> string" where
  "start_group m = py_or (param_group m) (py_or (start_stream m) ''unknown'')"

definition set_socket :: "nat \<Rightarrow> Socket \<Rightarrow> App \<Rightarrow> App" where
  "set_socket k s a = a\<lparr>sockets := (sockets a)(k := s)\<rparr>"

text \<open>
  One look of \<open>_serve_user_leg\<close> at the registry; after \<open>_USER_ATTACH_TRIES\<close> it gives up and the
  handler ends.
\<close>

definition USER_ATTACH_TRIES :: nat where
  "USER_ATTACH_TRIES = 100"

definition attach_user :: "nat \<Rightarrow> Handler \<Rightarrow> string \<Rightarrow> nat \<Rightarrow> App \<Rightarrow> App" where
  "attach_user k h sid tries a =
     (if tries < USER_ATTACH_TRIES
      then (case map_of (bridges a) (h_group h) of
          Some r \<Rightarrow> set_socket k
            (Relaying (h\<lparr>writers := \<lparr>writer_leg = UserLeg, writer_ref = r, unsent = []\<rparr> # writers h\<rparr>) r)
            (at_bridge r (bind_user sid) a)
        | None \<Rightarrow> set_socket k (Attaching h sid (tries + 1)) a)
      else set_socket k (Closing h) a)"

definition on_start :: "nat \<Rightarrow> Handler \<Rightarrow> StartMsg \<Rightarrow> App \<Rightarrow> App" where
  "on_start k h m a =
     (let g = start_group m;
          sid = py_or (start_stream m) '''';
          cid = py_or (start_call m) ''unknown''
      in if param_role m = Some ''user'' then attach_user k (h\<lparr>h_group := g\<rparr>) sid 0 a
         else
           let (h', a') = (case map_of (bridges a) g of
                 Some r \<Rightarrow> rebind_agent_leg r g sid h a
               | None \<Rightarrow> new_agent_leg cid g sid h a)
           in set_socket k (Reading h') a')"

definition record_frame :: "byte list \<Rightarrow> CallBridge \<Rightarrow> CallBridge" where
  "record_frame ulaw b = b\<lparr>recorder := map_option (recorder_write (ulaw_to_pcm16 ulaw)) (recorder b)\<rparr>"

definition on_agent_media :: "Deps \<Rightarrow> nat \<Rightarrow> Handler \<Rightarrow> string \<Rightarrow> App \<Rightarrow> App option" where
  "on_agent_media dp k h b64 a = (case h_bridge h of
       None \<Rightarrow> Some a
     | Some r \<Rightarrow> (case b64decode b64 of
           None \<Rightarrow> Some (set_socket k (Closing h) a)
         | Some ulaw \<Rightarrow> (case on_agent_audio dp r ulaw (at_bridge r (record_frame ulaw) a) of
               None \<Rightarrow> None
             | Some (Inr _, a') \<Rightarrow> Some a'
             | Some (Inl _, a') \<Rightarrow> Some (set_socket k (Closing h) a'))))"

definition receive :: "Deps \<Rightarrow> nat \<Rightarrow> Message \<Rightarrow> App \<Rightarrow> App option" where
  "receive dp k msg a = (case sockets a k of
       Reading h \<Rightarrow> (case msg of
           Start m \<Rightarrow> Some (on_start k h m a)
         | Media b64 \<Rightarrow> on_agent_media dp k h b64 a
         | Stop \<Rightarrow> Some (set_socket k (Closing (h\<lparr>saw_stop := True\<rparr>)) a)
         | OtherMessage \<Rightarrow> Some a
         | Broken \<Rightarrow> Some (set_socket k (Closing h) a))
     | Relaying h r \<Rightarrow> (case msg of
           Media b64 \<Rightarrow> (case b64decode b64 of
               Some ulaw \<Rightarrow> Some (at_bridge r (on_user_audio ulaw) a)
             | None \<Rightarrow> Some (set_socket k (UserClosing h r) a))
         | Stop \<Rightarrow> Some (set_socket k (UserClosing h r) a)
         | Broken \<Rightarrow> Some (set_socket k (UserClosing h r) a)
         | _ \<Rightarrow> Some a)
     | _ \<Rightarrow> Some a)"

text \<open>The rest of \<open>_serve_user_leg\<close>'s \<open>finally\<close>, once the writer is gone.\<close>

definition user_leg_gone :: "Deps \<Rightarrow> nat \<Rightarrow> Handler \<Rightarrow> nat \<Rightarrow> App \<Rightarrow> App" where
  "user_leg_gone dp k h r a =
     (let a1 = at_bridge r (\<lambda>b. b\<lparr>user_stream_sid := None\<rparr>) a;
          b = heap a1 r;
          a2 = (if \<not> relay_open b \<and> \<not> finished (session b)
                then snd (abort_session dp r ''user_left'' a1) else a1)
      in set_socket k (Closing (h\<lparr>writers := tl (writers h)\<rparr>)) a2)"

definition socket_step :: "Deps \<Rightarrow> nat \<Rightarrow> App \<Rightarrow> App" where
  "socket_step dp k a = (case sockets a k of
       Attaching h sid tries \<Rightarrow> attach_user k h sid tries a
     | UserClosing h r \<Rightarrow> user_leg_gone dp k h r a
     | Closing h \<Rightarrow> set_socket k SocketClosed (finish_agent_leg dp h a)
     | _ \<Rightarrow> a)"

section \<open>The writers\<close>

fun handler_of :: "Socket \<Rightarrow> Handler option" where
  "handler_of (Reading h) = Some h"
| "handler_of (Attaching h _ _) = Some h"
| "handler_of (Relaying h _) = Some h"
| "handler_of _ = None"

fun with_handler :: "Handler \<Rightarrow> Socket \<Rightarrow> Socket" where
  "with_handler h (Reading _) = Reading h"
| "with_handler h (Attaching _ sid n) = Attaching h sid n"
| "with_handler h (Relaying _ r) = Relaying h r"
| "with_handler h s = s"

definition drain :: "Leg \<Rightarrow> CallBridge \<Rightarrow> MediaMsg list \<times> CallBridge" where
  "drain leg = (case leg of AgentLeg \<Rightarrow> drain_agent | UserLeg \<Rightarrow> drain_user)"

text \<open>A turn of writer \<open>i\<close> of socket \<open>k\<close>: send the next drained message, or drain again.\<close>

definition writer_turn :: "nat \<Rightarrow> nat \<Rightarrow> App \<Rightarrow> App" where
  "writer_turn k i a = (case handler_of (sockets a k) of
       None \<Rightarrow> a
     | Some h \<Rightarrow>
         if i < length (writers h) then
           let w = writers h ! i;
               put = (\<lambda>w'. set_socket k (with_handler (h\<lparr>writers := (writers h)[i := w']\<rparr>) (sockets a k)))
           in (case unsent w of
                 msg # rest \<Rightarrow>
                   put (w\<lparr>unsent := rest\<rparr>) (a\<lparr>wire := wire a @ [(k, writer_leg w, writer_ref w, msg)]\<rparr>)
               | [] \<Rightarrow>
                   let (msgs, b) = drain (writer_leg w) (heap a (writer_ref w))
                   in put (w\<lparr>unsent := msgs\<rparr>) (at_bridge (writer_ref w) (\<lambda>_. b) a))
         else a)"

section \<open>The other tasks and threads\<close>

text \<open>\<open>press\<close>, run by a keypress thread: a redirect Twilio refuses will not reconnect.\<close>

definition dtmf_thread :: "Deps \<Rightarrow> nat \<times> string \<Rightarrow> App \<Rightarrow> App" where
  "dtmf_thread dp t a = (case dtmf_redirect (heap a (fst t)) of
       None \<Rightarrow> a
     | Some (cid, url) \<Rightarrow> (case twilio dp (PressDigits cid (snd t) url) a of
           (Some _, a') \<Rightarrow> a'
         | (None, a') \<Rightarrow> at_bridge (fst t) (\<lambda>b. b\<lparr>reconnecting := False\<rparr>) a'))"

definition handoff_turn :: "Deps \<Rightarrow> nat \<Rightarrow> nat \<Rightarrow> App \<Rightarrow> App" where
  "handoff_turn dp r left a =
     (let (next, eb) = handoff_poll left (heap a r)
      in run_effects dp r eb (a\<lparr>handoff_tasks := (handoff_tasks a)(r := next)\<rparr>))"

datatype app_event =
    CreateCall CallRequest string
  | Connect nat
  | Receive nat Message
  | SocketTurn nat
  | WriterTurn nat nat
  | DtmfThreadRuns nat
  | WorkerTakes nat
  | WorkerFinishes nat "exn + Tier2Value"
  | HandoffSpeaks nat "sample list"
  | HandoffTurn nat
  | ProbeBegins nat
  | ProbeSpeaks nat "sample list"
  | ProbeReads nat
  | ProbeEnds nat
  | Reap
  | Passes py_float

definition new_handler :: Handler where
  "new_handler = \<lparr>h_bridge = None, h_group = ''unknown'', saw_stop = False, writers = []\<rparr>"

definition speaks :: "Deps \<Rightarrow> nat \<Rightarrow> sample list \<Rightarrow> App \<Rightarrow> App" where
  "speaks dp r samples = at_bridge r (play_to_agent (byte_order dp) samples)"

definition app_step :: "Deps \<Rightarrow> App \<Rightarrow> app_event \<Rightarrow> App option" where
  "app_step dp a ev = (case ev of
       CreateCall req g \<Rightarrow> Some (snd (create_call dp req g a))
     | Connect k \<Rightarrow> Some (if sockets a k = NoSocket then set_socket k (Reading new_handler) a else a)
     | Receive k msg \<Rightarrow> receive dp k msg a
     | SocketTurn k \<Rightarrow> Some (socket_step dp k a)
     | WriterTurn k i \<Rightarrow> Some (writer_turn k i a)
     | DtmfThreadRuns i \<Rightarrow> Some (if i < length (dtmf_threads a)
           then dtmf_thread dp (dtmf_threads a ! i)
             (a\<lparr>dtmf_threads := take i (dtmf_threads a) @ drop (i + 1) (dtmf_threads a)\<rparr>)
           else a)
     | WorkerTakes r \<Rightarrow> Some (a\<lparr>executors := (executors a)(r := worker_takes (executors a r))\<rparr>)
     | WorkerFinishes r res \<Rightarrow>
         Some (a\<lparr>executors := (executors a)(r := worker_finishes res (executors a r))\<rparr>)
     | HandoffSpeaks r samples \<Rightarrow>
         Some (if handoff_tasks a r = Some Speaking then speaks dp r samples a else a)
     | HandoffTurn r \<Rightarrow> Some (case handoff_tasks a r of
           None \<Rightarrow> a
         | Some Speaking \<Rightarrow> handoff_turn dp r HANDOFF_POLLS a
         | Some (Waiting n) \<Rightarrow> handoff_turn dp r n a)
     | ProbeBegins r \<Rightarrow> Some (at_bridge r probe_begins a)
     | ProbeSpeaks r samples \<Rightarrow>
         Some (if probe_inbound (heap a r) = None then a else speaks dp r samples a)
     | ProbeReads r \<Rightarrow> Some (at_bridge r (\<lambda>b. snd (probe_reads b)) a)
     | ProbeEnds r \<Rightarrow> Some (at_bridge r probe_ends a)
     | Reap \<Rightarrow> Some (snd (reap_stale_bridges dp (clock a) a))
     | Passes dt \<Rightarrow> Some (if 0 \<le> dt then a\<lparr>clock := clock a + dt\<rparr> else a))"

end
