(* ===== verification/Session_Steps.thy ===== *)
theory Session_Steps
  imports Session
begin

text \<open>
  The call session without its collaborators: a nondeterministic step relation on
  \<open>AgentSession\<close> that over-approximates what the methods of \<open>Session\<close> do to the object,
  whatever the collaborators answer or raise. The lemmas show that a tick of the code is a
  \<open>tick\<close>, and that every sequence of calls from outside is a run of \<open>session_step\<close>; the
  properties of the session are then inductions over these relations.
\<close>

section \<open>The effects of the methods on the object\<close>

definition logs :: "outcall list \<Rightarrow> AgentSession \<Rightarrow> AgentSession" where
  "logs cs s = s\<lparr>trace := trace s @ cs\<rparr>"

definition state_change :: "AgentSession \<Rightarrow> CallState \<Rightarrow> CallState \<Rightarrow> py_float \<Rightarrow> outcall list" where
  "state_change s p q now =
     (if q \<noteq> p then [Emit (StateChanged (session_call_id s) now (state_value p) (state_value q))] else [])"

definition moved :: "py_float \<Rightarrow> CallStateMachine \<Rightarrow> AgentSession \<Rightarrow> AgentSession" where
  "moved now m s = logs (state_change s (state (fsm s)) (state m) now) (s\<lparr>fsm := m\<rparr>)"

definition failed_at :: "py_float \<Rightarrow> string \<Rightarrow> AgentSession \<Rightarrow> AgentSession" where
  "failed_at now r s =
     logs [Emit (CallFailed (session_call_id s) now r), OnFail r] (s\<lparr>finished := True\<rparr>)"

definition woken :: "Tier2Kind \<Rightarrow> string \<Rightarrow> Tier2Job \<Rightarrow> py_float \<Rightarrow> AgentSession \<Rightarrow> AgentSession" where
  "woken k why j now s =
     logs [Emit (Tier2Woken (session_call_id s) now why), SubmitJob j] (s\<lparr>tier2_kind := Some k\<rparr>)"

definition menu_job :: "AgentSession \<Rightarrow> Tier2Job" where
  "menu_job s = ChooseMenuDigit (buffer_snapshot (buffer s)) (sample_rate (settings s)) (goal s)"

definition probe_job :: "AgentSession \<Rightarrow> Tier2Job" where
  "probe_job s = RunProbe (buffer_snapshot (buffer s)) (sample_rate (settings s))"

definition handoff_asked :: "py_float \<Rightarrow> AgentSession \<Rightarrow> AgentSession" where
  "handoff_asked now s = logs [Emit (HumanDetected (session_call_id s) now), OnBridge] s"

definition handed_off :: "py_float \<Rightarrow> AgentSession \<Rightarrow> AgentSession" where
  "handed_off now s =
     (let s1 = logs [Emit (BridgeStarted (session_call_id s) now)] (moved now (bridged (fsm s)) s);
          s2 = moved now (completed (fsm s1)) s1
      in logs [Emit (CallCompleted (session_call_id s) now ''human_bridged'')] (s2\<lparr>finished := True\<rparr>))"

lemmas effect_defs = logs_def state_change_def moved_def failed_at_def woken_def
  menu_job_def probe_job_def handoff_asked_def handed_off_def

text \<open>Which Tier 2 errors end the call, and with which reason.\<close>

fun fatal_reason :: "Tier2Kind \<Rightarrow> exn \<Rightarrow> string option" where
  "fatal_reason _ NotImplementedError = Some ''tier2_not_implemented''"
| "fatal_reason _ CircuitOpenError = Some ''tier2_unavailable''"
| "fatal_reason Menu _ = None"
| "fatal_reason Probe (Tier2Unavailable _) = Some ''tier2_unavailable''"
| "fatal_reason Probe _ = Some ''tier2_error''"

section \<open>The step relations\<close>

inductive acts :: "py_float \<Rightarrow> Action \<Rightarrow> AgentSession \<Rightarrow> AgentSession \<Rightarrow> bool"
  for now :: py_float where
  quiet: "acts now NONE s s"
| menu_deferred:
    "acts now WAKE_TIER2_MENU s (s\<lparr>menu_wake_due := Some (now + menu_collect_s (settings s))\<rparr>)"
| probe_started:
    "tier2_kind s = None \<Longrightarrow> acts now WAKE_TIER2_PROBE s (woken Probe ''probe'' (probe_job s) now s)"
| probe_dropped: "tier2_kind s \<noteq> None \<Longrightarrow> acts now WAKE_TIER2_PROBE s s"
| handoff: "acts now BRIDGE s (handed_off now (handoff_asked now s))"
| handoff_failed: "acts now BRIDGE s (failed_at now r (handoff_asked now s))"
| handoff_interrupted: "acts now BRIDGE s (handoff_asked now s)"
| call_lost: "acts now FAIL s (failed_at now ''non_connect'' s)"

definition window_event :: "AgentSession \<Rightarrow> py_float \<Rightarrow> Label \<Rightarrow> py_float \<Rightarrow> (string \<times> py_float) list \<Rightarrow> outcall" where
  "window_event s now l c fs = Emit (FrameClassified (session_call_id s) now (label_value l) c fs)"

inductive windowed :: "py_float \<Rightarrow> AgentSession \<Rightarrow> AgentSession \<Rightarrow> bool" for now :: py_float where
  window:
    "acts now (fst (observe l c now (fsm s)))
       (moved now (snd (observe l c now (fsm s))) (logs [window_event s now l c' fs] s)) s'
     \<Longrightarrow> windowed now s s'"

inductive fired :: "py_float \<Rightarrow> AgentSession \<Rightarrow> AgentSession \<Rightarrow> bool" for now :: py_float where
  not_due: "fired now s s"
| wake_cancelled: "fired now s (s\<lparr>menu_wake_due := None\<rparr>)"
| wake_fired:
    "state (fsm s) = IVR_MENU \<Longrightarrow> tier2_kind s = None
     \<Longrightarrow> fired now s (woken Menu ''menu'' (menu_job s) now (s\<lparr>menu_wake_due := None\<rparr>))"

definition got :: "exn + Tier2Value \<Rightarrow> AgentSession \<Rightarrow> AgentSession" where
  "got res s = (logs [PollResult res] s)\<lparr>tier2_kind := None\<rparr>"

inductive answered :: "py_float \<Rightarrow> AgentSession \<Rightarrow> AgentSession \<Rightarrow> bool" for now :: py_float where
  no_answer: "answered now s s"
| error_survived:
    "tier2_kind s = Some k \<Longrightarrow> fatal_reason k e = None \<Longrightarrow> answered now s (got (Inl e) s)"
| error_fatal:
    "tier2_kind s = Some k \<Longrightarrow> fatal_reason k e = Some r
     \<Longrightarrow> answered now s (failed_at now r (got (Inl e) s))"
| wrong_answer:
    "tier2_kind s \<noteq> None \<Longrightarrow> answered now s (got (Inr v) s)"
| abstained:
    "tier2_kind s = Some Menu \<Longrightarrow> d = None \<or> d = Some ''''
     \<Longrightarrow> answered now s ((got (Inr (MenuDecision d why)) s)\<lparr>fsm := note_menu_abstained (fsm s)\<rparr>)"
| pressed:
    "tier2_kind s = Some Menu \<Longrightarrow> d \<noteq> ''''
     \<Longrightarrow> answered now s ((logs [SendDtmf d, Emit (DtmfSent (session_call_id s) now d)]
            (got (Inr (MenuDecision (Some d) why)) s))\<lparr>fsm := note_menu_action now (fsm s)\<rparr>)"
| press_interrupted:
    "tier2_kind s = Some Menu \<Longrightarrow> d \<noteq> ''''
     \<Longrightarrow> answered now s (logs [SendDtmf d] (got (Inr (MenuDecision (Some d) why)) s))"
| verdict:
    "tier2_kind s = Some Probe
     \<Longrightarrow> acts now (fst (probe_result h now (fsm s)))
           (moved now (snd (probe_result h now (fsm s)))
             (logs [Emit (ProbeResult (session_call_id s) now h)] (got (Inr (ProbeOutcome h why v)) s))) s'
     \<Longrightarrow> answered now s s'"

inductive tick :: "py_float \<Rightarrow> AgentSession \<Rightarrow> AgentSession \<Rightarrow> bool" for now :: py_float where
  "windowed now s s1 \<Longrightarrow> fired now s1 s2 \<Longrightarrow> answered now s2 s3 \<Longrightarrow> tick now s s3"

inductive session_step :: "AgentSession \<Rightarrow> AgentSession \<Rightarrow> bool" where
  heard: "session_step s (skip_ahead (ingest chunk s))"
| ticked: "\<not> finished s \<Longrightarrow> tick (next_classify_at s) s s' \<Longrightarrow> session_step s s'"
| clocked: "session_step s (s\<lparr>next_classify_at := next_classify_at s + interval s\<rparr>)"
| aborted: "\<not> finished s \<Longrightarrow> session_step s (failed_at (audio_seconds s) r s)"

section \<open>The methods are such steps\<close>

text \<open>The object after a method, whatever the world.\<close>

abbreviation after :: "('w sess, 'a) proc \<Rightarrow> 'w sess \<Rightarrow> AgentSession" where
  "after p st \<equiv> fst (snd (p st))"

lemma after_emit: "emit env e (s, w) = (Inr (), (logs [Emit e] s, telemetry_emit env e w))"
  by (simp add: emit_def outward_def log_call_def logs_def)

lemma run_outward: "outward c p (s, w) = (fst (p w), (logs [c] s, snd (p w)))"
  by (simp add: outward_def log_call_def logs_def case_prod_beta)

lemma run_state_change:
  "emit_state_change env b now (s, w) =
     (Inr (), (logs (state_change s b (state (fsm s)) now) s,
        if state (fsm s) \<noteq> b
        then telemetry_emit env (StateChanged (session_call_id s) now (state_value b)
               (state_value (state (fsm s)))) w
        else w))"
  by (simp add: emit_state_change_def self_def after_emit state_change_def logs_def ret_def)

lemmas run_simps = proc_defs after_emit run_outward run_state_change

lemma fail_run: "after (fail env now r) (s, w) = failed_at now r s"
  by (simp add: fail_def run_simps case_prod_beta failed_at_def logs_def split: sum.split prod.split)

lemma handoff_run: "after (handoff_done env now) (s, w) = handed_off now s"
  by (simp add: handoff_done_def run_simps handed_off_def moved_def logs_def state_change_def Let_def)

lemma bridge_run:
  "after (bridge env now) (s, w) = handed_off now (handoff_asked now s)
   \<or> (\<exists>r. after (bridge env now) (s, w) = failed_at now r (handoff_asked now s))
   \<or> after (bridge env now) (s, w) = handoff_asked now s"
proof -
  obtain x w' where call: "on_bridge env (telemetry_emit env (HumanDetected (session_call_id s) now) w) = (x, w')"
    by fastforce
  have asked: "logs [OnBridge] (logs [Emit (HumanDetected (session_call_id s) now)] s) = handoff_asked now s"
    by (simp add: effect_defs)
  show ?thesis
  proof (cases x)
    case (Inr u)
    with call asked show ?thesis
      by (simp add: bridge_def run_simps handoff_run)
  next
    case (Inl e)
    with call asked show ?thesis
      by (cases e) (auto simp: bridge_def run_simps fail_run)
  qed
qed

lemma start_run:
  "after (start_menu env now) (s, w) = woken Menu ''menu'' (menu_job s) now s"
  "after (start_probe env now) (s, w) = woken Probe ''probe'' (probe_job s) now s"
  by (simp_all add: start_menu_def start_probe_def submit_def run_simps woken_def menu_job_def
      probe_job_def logs_def)

lemma dispatch_acts: "acts now a s (after (dispatch env a now) (s, w))"
proof (cases a)
  case BRIDGE
  then show ?thesis
    using bridge_run [of env now s w] by (auto simp: dispatch_def intro: acts.intros)
next
  case WAKE_TIER2_PROBE
  then show ?thesis
    by (simp add: dispatch_def self_def start_run ret_def probe_started probe_dropped)
qed (simp_all add: dispatch_def fail_run ret_def update_def acts.intros)

definition frame_at :: "py_float \<Rightarrow> AgentSession \<Rightarrow> Frame" where
  "frame_at now s = \<lparr>pcm = buffer_tail (classify_window_ms (settings s)) (buffer s),
     frame_rate = sample_rate (settings s), t_start = now\<rparr>"

lemma classify_exact:
  assumes "c = classify env (frame_at now s)"
  obtains c' fs w' where "after (classify_and_observe env now) (s, w) =
    after (dispatch env (fst (observe (label c) (confidence c) now (fsm s))) now)
      (moved now (snd (observe (label c) (confidence c) now (fsm s)))
         (logs [window_event s now (label c) c' fs] s), w')"
proof -
  let ?e = "window_event s now (label c) (py_round 3 (confidence c)) (map (\<lambda>(k, v). (k, py_round 5 v)) (features c))"
  have "\<exists>w'. after (classify_and_observe env now) (s, w) =
    after (dispatch env (fst (observe (label c) (confidence c) now (fsm s))) now)
      (moved now (snd (observe (label c) (confidence c) now (fsm s))) (logs [?e] s), w')"
    by (simp add: classify_and_observe_def Let_def run_simps assms frame_at_def moved_def logs_def
        window_event_def state_change_def) blast
  then show ?thesis using that by blast
qed

lemma classify_run: "windowed now s (after (classify_and_observe env now) (s, w))"
proof -
  obtain c' fs w' where "after (classify_and_observe env now) (s, w) =
    after (dispatch env (fst (observe (label (classify env (frame_at now s)))
        (confidence (classify env (frame_at now s))) now (fsm s))) now)
      (moved now (snd (observe (label (classify env (frame_at now s)))
        (confidence (classify env (frame_at now s))) now (fsm s)))
         (logs [window_event s now (label (classify env (frame_at now s))) c' fs] s), w')"
    using classify_exact [OF refl] .
  then show ?thesis by (simp add: windowed.simps) (blast intro: dispatch_acts)
qed

lemma fire_run: "fired now s (after (fire_menu_wake env now) (s, w))"
  by (auto simp: fire_menu_wake_def run_simps start_run menu_job_def fired.intros
      split: option.split intro: fired.intros wake_fired [simplified menu_job_def])

lemma apply_probe_run:
  assumes "tier2_kind s = Some Probe"
  shows "answered now s (after (apply_probe env v now) (got (Inr v) s, w))"
proof (cases v)
  case (MenuDecision d why)
  then show ?thesis using assms by (simp add: apply_probe_def raise_def wrong_answer)
next
  case (ProbeOutcome h why x)
  let ?s = "moved now (snd (probe_result h now (fsm s)))
    (logs [Emit (ProbeResult (session_call_id s) now h)] (got (Inr v) s))"
  have "\<exists>w'. after (apply_probe env v now) (got (Inr v) s, w) =
    after (dispatch env (fst (probe_result h now (fsm s))) now) (?s, w')"
    by (auto simp: ProbeOutcome apply_probe_def run_simps moved_def logs_def got_def state_change_def)
  with dispatch_acts show ?thesis
    unfolding ProbeOutcome by (metis assms verdict)
qed

lemma apply_menu_run:
  assumes "tier2_kind s = Some Menu"
  shows "answered now s (after (apply_menu env v now) (got (Inr v) s, w))"
proof (cases v)
  case (ProbeOutcome h why x)
  then show ?thesis using assms by (simp add: apply_menu_def raise_def wrong_answer)
next
  case (MenuDecision d why)
  show ?thesis
  proof (cases "d = None \<or> d = Some []")
    case True
    then show ?thesis
      using abstained [OF assms, of d now why] by (auto simp: MenuDecision apply_menu_def run_simps got_def logs_def)
  next
    case False
    then obtain ds where ds: "d = Some ds" "ds \<noteq> []" by auto
    obtain r w' where send: "dtmf_sender env ds w = (r, w')" by fastforce
    have "after (apply_menu env v now) (got (Inr v) s, w) =
        (logs [SendDtmf ds, Emit (DtmfSent (session_call_id s) now ds)] (got (Inr v) s))
          \<lparr>fsm := note_menu_action now (fsm s)\<rparr>
      \<or> after (apply_menu env v now) (got (Inr v) s, w) = logs [SendDtmf ds] (got (Inr v) s)"
      using send by (cases r) (auto simp: MenuDecision ds apply_menu_def run_simps got_def logs_def)
    with pressed [OF assms ds(2), of now why] press_interrupted [OF assms ds(2), of now why]
    show ?thesis by (auto simp: MenuDecision ds(1))
  qed
qed

lemma tier2_error_run:
  "after (tier2_error env k e now) (s, w) =
     (case fatal_reason k e of None \<Rightarrow> s | Some r \<Rightarrow> failed_at now r s)"
  by (cases e; cases k) (simp_all add: tier2_error_def fail_run ret_def)

lemma poll_run: "answered now s (after (poll_tier2 env now) (s, w))"
proof (cases "tier2_kind s")
  case None
  then show ?thesis by (simp add: poll_tier2_def self_def ret_def no_answer)
next
  case (Some k)
  obtain p w' where p: "exec_poll env w = (p, w')" by fastforce
  consider "(\<exists>e. p = Inl e) \<or> p = Inr None" | e where "p = Inr (Some (Inl e))"
    | v where "p = Inr (Some (Inr v))"
    by (metis obj_sumE option.exhaust)
  then show ?thesis
  proof cases
    case 1
    with p Some show ?thesis by (auto simp: poll_tier2_def run_simps poll_def no_answer)
  next
    case 2
    have "after (poll_tier2 env now) (s, w) = after (tier2_error env k e now) (got (Inl e) s, w')"
      by (simp add: poll_tier2_def run_simps poll_def Some p 2 got_def logs_def log_call_def)
    then show ?thesis
      using Some by (simp add: tier2_error_run error_survived error_fatal split: option.split)
  next
    case 3
    have "after (poll_tier2 env now) (s, w) =
      after (case k of Menu \<Rightarrow> apply_menu env v now | Probe \<Rightarrow> apply_probe env v now) (got (Inr v) s, w')"
      by (simp add: poll_tier2_def run_simps poll_def Some p 3 got_def logs_def log_call_def)
    then show ?thesis
      using Some apply_menu_run apply_probe_run by (cases k) auto
  qed
qed

lemma run_tick_run: "tick now s (after (run_tick env now) (s, w))"
proof -
  obtain r1 s1 w1 where 1: "classify_and_observe env now (s, w) = (r1, (s1, w1))" by (metis prod.exhaust)
  obtain r2 s2 w2 where 2: "fire_menu_wake env now (s1, w1) = (r2, (s2, w2))" by (metis prod.exhaust)
  obtain r3 s3 w3 where 3: "poll_tier2 env now (s2, w2) = (r3, (s3, w3))" by (metis prod.exhaust)
  have steps: "windowed now s s1" "fired now s1 s2" "answered now s2 s3"
    using classify_run [of now s env w] fire_run [of now s1 env w1] poll_run [of now s2 env w2] 1 2 3
    by simp_all
  show ?thesis
    by (cases r1; cases r2)
      (auto simp: run_tick_def run_simps 1 2 3 intro: tick.intros steps no_answer not_due)
qed

section \<open>Calls from outside\<close>

text \<open>
  What the media handler does with a session: feed audio, abort, close, in any order. An
  exception that leaves a call (the caller may log it and go on) is dropped here; the
  result is \<open>None\<close> when a \<open>feed_audio\<close> does not return.
\<close>

datatype session_input = FeedAudio pcm_array | Abort string | CloseSession

fun session_call :: "'w env \<Rightarrow> session_input \<Rightarrow> 'w sess \<Rightarrow> ((exn + unit) \<times> 'w sess) option" where
  "session_call env (FeedAudio chunk) st = feed_audio env chunk st"
| "session_call env (Abort r) st = Some (abort env r st)"
| "session_call env CloseSession st = Some (close env st)"

fun session_run :: "'w env \<Rightarrow> session_input list \<Rightarrow> 'w sess \<Rightarrow> 'w sess option" where
  "session_run env [] st = Some st"
| "session_run env (i # is) st =
     (case session_call env i st of None \<Rightarrow> None | Some (_, st') \<Rightarrow> session_run env is st')"

text \<open>Reasoning about the loop: what every tick keeps, and the clock step, the loop keeps.\<close>

lemma tick_loop_invariant:
  assumes "tick_loop env st = Some (r, st')" "\<not> finished (fst st)" "I (fst st)"
    and body: "\<And>s w. I s \<Longrightarrow> \<not> finished s \<Longrightarrow> I (after (run_tick env (next_classify_at s)) (s, w))"
    and clock: "\<And>s. I s \<Longrightarrow> I (s\<lparr>next_classify_at := next_classify_at s + interval s\<rparr>)"
  shows "I (fst st')"
proof -
  have key: "\<not> finished (fst st) \<longrightarrow> I (fst st) \<longrightarrow> I (fst (snd res))"
    if "tick_loop env st = Some res" "env = env0" for res env0
    using that body
  proof (induction env st res rule: tick_loop.raw_induct [rotated, consumes 1, case_names loop])
    case (loop rec env st res)
    obtain s w where st: "st = (s, w)" by fastforce
    show ?case
    proof (cases "next_classify_at s \<le> audio_seconds s")
      case False
      with loop(2) show ?thesis by (auto simp: st)
    next
      case True
      obtain r1 s1 w1 where run: "run_tick env (next_classify_at s) (s, w) = (r1, (s1, w1))"
        by (metis prod.exhaust)
      have tk: "I s1" if "\<not> finished s" "I s"
        using loop(4) [OF that(2,1), of w] run by simp
      let ?s2 = "s1\<lparr>next_classify_at := next_classify_at s1 + interval s1\<rparr>"
      show ?thesis
      proof (cases r1)
        case (Inl e)
        with loop(2) True run have "res = (Inl e, (s1, w1))" by (simp add: st)
        with tk show ?thesis by (simp add: st)
      next
        case (Inr u)
        have res: "(if finished ?s2 then Some (Inr (), (?s2, w1)) else rec env (?s2, w1)) = Some res"
          using loop(2) True run Inr by (simp add: st Let_def)
        show ?thesis
        proof (cases "finished ?s2")
          case True
          with res have "res = (Inr (), (?s2, w1))" by simp
          with tk clock [of s1] show ?thesis by (simp add: st)
        next
          case False
          with res have "rec env (?s2, w1) = Some res" by simp
          from loop(1) [OF this loop(3,4)] False have "I ?s2 \<longrightarrow> I (fst (snd res))" by simp
          with tk clock [of s1] show ?thesis by (simp add: st)
        qed
      qed
    qed
  qed
  from key [OF assms(1) refl] assms(2,3) show ?thesis by simp
qed

lemma tick_loop_steps:
  assumes "tick_loop env st = Some (r, st')" "\<not> finished (fst st)"
  shows "session_step\<^sup>*\<^sup>* (fst st) (fst st')"
  using assms
proof (rule tick_loop_invariant)
  show "session_step\<^sup>*\<^sup>* (fst st) (after (run_tick env (next_classify_at s)) (s, w))"
    if "session_step\<^sup>*\<^sup>* (fst st) s" "\<not> finished s" for s and w :: 'a
    by (rule rtranclp.rtrancl_into_rtrancl [OF that(1) ticked [OF that(2) run_tick_run]])
  show "session_step\<^sup>*\<^sup>* (fst st) (s\<lparr>next_classify_at := next_classify_at s + interval s\<rparr>)"
    if "session_step\<^sup>*\<^sup>* (fst st) s" for s
    by (rule rtranclp.rtrancl_into_rtrancl [OF that clocked])
qed simp

lemma finished_skip_ingest [simp]: "finished (skip_ahead (ingest chunk s)) = finished s"
  by (simp add: skip_ahead_def ingest_def)

lemma feed_audio_steps:
  assumes "feed_audio env chunk (s, w) = Some (r, (s', w'))"
  shows "session_step\<^sup>*\<^sup>* s s'"
proof (cases "finished s")
  case False
  with assms have "tick_loop env (skip_ahead (ingest chunk s), w) = Some (r, (s', w'))"
    by (simp add: feed_audio_def)
  from tick_loop_steps [OF this] False show ?thesis
    by (auto intro: converse_rtranclp_into_rtranclp heard)
qed (use assms in \<open>simp add: feed_audio_def\<close>)

lemma session_run_steps:
  "session_run env is (s, w) = Some (s', w') \<Longrightarrow> session_step\<^sup>*\<^sup>* s s'"
proof (induction "is" arbitrary: s w)
  case (Cons i "is")
  then obtain r s1 w1 where c: "session_call env i (s, w) = Some (r, (s1, w1))"
    and rest: "session_run env is (s1, w1) = Some (s', w')"
    by (auto split: option.splits prod.splits)
  have "session_step\<^sup>*\<^sup>* s s1"
  proof (cases i)
    case (FeedAudio chunk)
    with c show ?thesis by (simp add: feed_audio_steps)
  next
    case (Abort r')
    with c have "s1 = after (abort env r') (s, w)" by simp
    with aborted [of s r'] show ?thesis
      by (cases "finished s") (auto simp: abort_def self_def ret_def fail_run)
  next
    case CloseSession
    with c show ?thesis by (auto simp: close_def modify_def)
  qed
  with Cons.IH [OF rest] show ?case by simp
qed simp

end
