(* ===== verification/Session_World.thy ===== *)
theory Session_World
  imports Session_Steps
begin

text \<open>
  What a session does to the world it runs in, for a client that owns that world. The locale
  asks that each hook keeps a property \<open>ok\<close> of the calls made so far and the world; its
  lemmas conclude that every call of the session keeps it, however it ends.
\<close>

locale session_world =
  fixes env :: "'w env" and ok :: "outcall list \<Rightarrow> 'w \<Rightarrow> bool"
  assumes emit_ok: "ok tr w \<Longrightarrow> ok (tr @ [Emit e]) (telemetry_emit env e w)"
    and submit_ok: "ok tr w \<Longrightarrow> ok (tr @ [SubmitJob j]) (snd (exec_submit env j w))"
    and poll_result_ok: "ok tr w \<Longrightarrow> exec_poll env w = (Inr (Some r), w') \<Longrightarrow> ok (tr @ [PollResult r]) w'"
    and poll_ok: "ok tr w \<Longrightarrow> exec_poll env w = (p, w') \<Longrightarrow> \<nexists>r. p = Inr (Some r) \<Longrightarrow> ok tr w'"
    and dtmf_ok: "ok tr w \<Longrightarrow> ok (tr @ [SendDtmf d]) (snd (dtmf_sender env d w))"
    and bridge_ok: "ok tr w \<Longrightarrow> ok (tr @ [OnBridge]) (snd (on_bridge env w))"
    and fail_ok: "ok tr w \<Longrightarrow> ok (tr @ [OnFail reason]) (snd (on_fail env reason w))"
    and exec_close_ok: "ok tr w \<Longrightarrow> ok tr (exec_close env w)"
begin

definition sound :: "'w sess \<Rightarrow> 'w sess \<Rightarrow> bool" where
  "sound st st' \<longleftrightarrow> (ok (trace (fst st)) (snd st) \<longrightarrow> ok (trace (fst st')) (snd st'))"

end

sublocale session_world \<subseteq> sound: transition_order sound
  by unfold_locales (auto simp: sound_def)

context session_world
begin

lemma moves_update_trace: "(\<And>s. trace (f s) = trace s) \<Longrightarrow> moves sound (update f)"
  by (rule moves_update) (simp add: sound_def)

lemma moves_emit: "moves sound (emit env e)"
  by (rule movesI) (auto simp: sound_def emit_def outward_def log_call_def emit_ok split: prod.split)

lemma moves_outward:
  assumes "\<And>tr w. ok tr w \<Longrightarrow> ok (tr @ [c]) (snd (p w))"
  shows "moves sound (outward c p)"
proof
  fix st :: "'w sess"
  obtain s w where st: "st = (s, w)" by fastforce
  from assms [of "trace s" w] show "sound st (snd (outward c p st))"
    by (auto simp: sound_def outward_def log_call_def st split: prod.split)
qed

lemma moves_submit: "moves sound (submit env j)"
  unfolding submit_def by (rule moves_outward) (rule submit_ok)

lemma moves_poll: "moves sound (poll env)"
proof
  fix st :: "'w sess"
  obtain s w where st: "st = (s, w)" by fastforce
  obtain p w' where p: "exec_poll env w = (p, w')" by fastforce
  show "sound st (snd (poll env st))"
  proof (cases "\<exists>r. p = Inr (Some r)")
    case True
    then show ?thesis
      using p poll_result_ok [of "trace s" w] by (auto simp: sound_def poll_def st log_call_def)
  next
    case False
    then have "snd (poll env st) = (s, w')"
      using p by (auto simp: poll_def st split: sum.split option.split)
    then show ?thesis
      using poll_ok [OF _ p False, of "trace s"] by (simp add: sound_def st)
  qed
qed

lemmas moves_calls = moves_emit moves_submit moves_poll
  moves_outward [OF dtmf_ok] moves_outward [OF bridge_ok] moves_outward [OF fail_ok]

lemmas moves_method = sound.moves_intros moves_calls moves_self moves_update_trace

lemma moves_state_change: "moves sound (emit_state_change env q now)"
  unfolding emit_state_change_def by (intro moves_method) (auto intro: moves_method)

lemma moves_fail: "moves sound (fail env now r)"
  unfolding fail_def by (intro moves_method) auto

lemma moves_handoff: "moves sound (handoff_done env now)"
  unfolding handoff_done_def by (intro moves_method moves_state_change) auto

lemma moves_bridge: "moves sound (bridge env now)"
  unfolding bridge_def
  by (intro moves_method) (auto split: option.split exn.split intro: moves_fail moves_handoff)

lemma moves_start: "moves sound (start_menu env now)" "moves sound (start_probe env now)"
  unfolding start_menu_def start_probe_def by (intro moves_method; simp)+

lemma moves_dispatch: "moves sound (dispatch env a now)"
  unfolding dispatch_def
  by (cases a) (auto intro!: moves_method moves_bridge moves_fail moves_start)

lemma moves_apply_menu: "moves sound (apply_menu env d now)"
  unfolding apply_menu_def by (cases d) (auto intro!: moves_method)

lemma moves_apply_probe: "moves sound (apply_probe env d now)"
  unfolding apply_probe_def
  by (cases d) (auto intro!: moves_method moves_state_change moves_dispatch)

lemma moves_tier2_error: "moves sound (tier2_error env k e now)"
  unfolding tier2_error_def by (cases e) (auto intro!: moves_method moves_fail)

lemma moves_poll_tier2: "moves sound (poll_tier2 env now)"
  unfolding poll_tier2_def
  by (intro moves_self)
    (auto intro!: moves_method moves_apply_menu moves_apply_probe moves_tier2_error
      split: option.split sum.split Tier2Kind.split)

lemma moves_run_tick: "moves sound (run_tick env now)"
  unfolding run_tick_def classify_and_observe_def fire_menu_wake_def Let_def
  by (intro moves_method)
    (auto intro!: moves_method moves_state_change moves_dispatch moves_start moves_poll_tier2
      split: option.split)

lemma tick_loop_sound:
  assumes "tick_loop env st = Some res"
  shows "sound st (snd res)"
proof -
  have "ok (trace (fst st)) (snd st) \<longrightarrow> ok (trace (fst (snd res))) (snd (snd res))"
    if "tick_loop e st = Some res" "e = env" for e res
    using that
  proof (induction e st res rule: tick_loop.raw_induct [rotated, consumes 1, case_names loop])
    case (loop rec e st res)
    obtain s w where st: "st = (s, w)" by fastforce
    show ?case
    proof (cases "next_classify_at s \<le> audio_seconds s")
      case False
      with loop(2) show ?thesis by (auto simp: st)
    next
      case True
      obtain r1 s1 w1 where run: "run_tick env (next_classify_at s) (s, w) = (r1, (s1, w1))"
        by (metis prod.exhaust)
      have tick: "ok (trace s) w \<Longrightarrow> ok (trace s1) w1"
        using movesE [OF moves_run_tick run] by (simp add: sound_def)
      let ?s2 = "s1\<lparr>next_classify_at := next_classify_at s1 + interval s1\<rparr>"
      show ?thesis
      proof (cases r1)
        case (Inl x)
        with loop(2,3) True run have "res = (Inl x, (s1, w1))" by (simp add: st)
        with tick show ?thesis by (simp add: st)
      next
        case (Inr u)
        have res: "(if finished ?s2 then Some (Inr (), (?s2, w1)) else rec e (?s2, w1)) = Some res"
          using loop(2,3) True run Inr by (simp add: st Let_def)
        show ?thesis
        proof (cases "finished ?s2")
          case True
          with res have "res = (Inr (), (?s2, w1))" by simp
          with tick show ?thesis by (simp add: st)
        next
          case False
          with res have "rec e (?s2, w1) = Some res" by simp
          from loop(1) [OF this loop(3)] tick show ?thesis by (simp add: st)
        qed
      qed
    qed
  qed
  from this [OF assms refl] show ?thesis by (simp add: sound_def)
qed

lemma feed_audio_sound:
  assumes "feed_audio env chunk (s, w) = Some (r, (s', w'))" "ok (trace s) w"
  shows "ok (trace s') w'"
proof (cases "finished s")
  case True
  with assms show ?thesis by (simp add: feed_audio_def)
next
  case False
  have "trace (skip_ahead (ingest chunk s)) = trace s"
    by (simp add: skip_ahead_def ingest_def)
  with False assms tick_loop_sound [of "(skip_ahead (ingest chunk s), w)"] show ?thesis
    by (auto simp: feed_audio_def sound_def)
qed

lemma abort_sound:
  assumes "abort env reason (s, w) = (r, (s', w'))" "ok (trace s) w"
  shows "ok (trace s') w'"
proof -
  have "moves sound (abort env reason)"
    unfolding abort_def by (intro moves_self) (auto intro: moves_method moves_fail)
  from movesE [OF this assms(1)] assms(2) show ?thesis by (simp add: sound_def)
qed

end

end
