(* ===== verification/App_Facts.thy ===== *)
theory App_Facts
  imports Media Session_World
begin

text \<open>
  What the operations of the process change and what they leave alone, as equations for the
  simplifier; the requests each makes to Twilio; and \<open>hook\<close>, the steps a running session makes
  the process take, over which the invariants are proved.
\<close>

section \<open>Twilio and teardown\<close>

definition sms_calls :: "bool \<Rightarrow> string option \<Rightarrow> string \<Rightarrow> SmsBody \<Rightarrow> TwilioCall list" where
  "sms_calls tw number g body = (case number of
       None \<Rightarrow> []
     | Some n \<Rightarrow> if \<not> tw \<or> n = '''' then [] else [SendSms g n body])"

definition hang_up_calls :: "bool \<Rightarrow> string option \<Rightarrow> TwilioCall list" where
  "hang_up_calls tw sid = (case sid of
       None \<Rightarrow> []
     | Some c \<Rightarrow> if \<not> tw \<or> c = '''' \<or> c = ''unknown'' then [] else [HangUp c])"

definition fallback_calls :: "App \<Rightarrow> string \<Rightarrow> string option \<Rightarrow> TwilioCall list" where
  "fallback_calls a g reason = (case reason of
       None \<Rightarrow> []
     | Some x \<Rightarrow> sms_calls (has_twilio a) (user_numbers a g) g (FallbackSms (fallback_message x)))"

definition hang_up_legs :: "App \<Rightarrow> AgentSession \<Rightarrow> bool \<Rightarrow> TwilioCall list" where
  "hang_up_legs a s hang = (if hang then hang_up_calls (has_twilio a) (Some (session_call_id s))
     @ hang_up_calls (has_twilio a) (user_leg_sid s) else [])"

definition teardown_calls :: "App \<Rightarrow> string \<Rightarrow> string option \<Rightarrow> bool \<Rightarrow> TwilioCall list" where
  "teardown_calls a g reason hang = (case map_of (bridges a) g of
       None \<Rightarrow> []
     | Some r \<Rightarrow> fallback_calls a g reason @ hang_up_legs a (session (heap a r)) hang)"

lemma app_update_id [simp]: "a\<lparr>heap := heap a\<rparr> = a" "a\<lparr>twilio_log := twilio_log a\<rparr> = a"
  "a\<lparr>bridges := bridges a, sessions := sessions a, twilio_log := twilio_log a,
     executors := executors a, heap := heap a\<rparr> = a"
  by (cases a; simp)+

lemma sms_eq: "sms dp g body a =
    a\<lparr>twilio_log := twilio_log a @ sms_calls (has_twilio a) (user_numbers a g) g body\<rparr>"
  by (cases "user_numbers a g") (simp_all add: sms_def sms_calls_def twilio_def)

lemma hang_up_eq: "hang_up dp sid a =
    a\<lparr>twilio_log := twilio_log a @ hang_up_calls (has_twilio a) sid\<rparr>"
  by (cases sid) (simp_all add: hang_up_def hang_up_calls_def twilio_def)

lemma close_bridge_closed [simp]: "bridge_closed b \<Longrightarrow> close_bridge b = b"
  by (simp add: close_bridge_def)

text \<open>Teardown in one record update.\<close>

lemma teardown_eq:
  "teardown_group dp g reason hang a = clear_context g
     (a\<lparr>bridges := AList.delete g (bridges a),
        sessions := (case map_of (bridges a) g of None \<Rightarrow> sessions a
          | Some r \<Rightarrow> (sessions a)(session_call_id (session (heap a r)) := None)),
        twilio_log := twilio_log a @ teardown_calls a g reason hang,
        executors := (case map_of (bridges a) g of None \<Rightarrow> executors a
          | Some r \<Rightarrow> if bridge_closed (heap a r) then executors a
                      else (executors a)(r := threaded_close (executors a r))),
        heap := (case map_of (bridges a) g of None \<Rightarrow> heap a
          | Some r \<Rightarrow> (heap a)(r := close_bridge (heap a r)))\<rparr>)"
proof (cases "map_of (bridges a) g")
  case None
  then have "AList.delete g (bridges a) = bridges a"
    by (simp add: delete_id map_of_eq_None_iff)
  with None show ?thesis
    by (simp add: teardown_group_def teardown_calls_def)
next
  case (Some r)
  have calls: "teardown_calls a g reason hang
      = fallback_calls a g reason @ hang_up_legs a (session (heap a r)) hang"
    using Some by (simp add: teardown_calls_def)
  let ?a1 = "drop_session r (drop_bridge g a)"
  have texted: "(case reason of None \<Rightarrow> ?a1 | Some x \<Rightarrow> sms dp g (FallbackSms (fallback_message x)) ?a1)
      = ?a1\<lparr>twilio_log := twilio_log a @ fallback_calls a g reason\<rparr>"
    by (cases reason) (simp_all add: sms_eq fallback_calls_def drop_session_def drop_bridge_def)
  have hung: "(if hang then hang_up dp (user_leg_sid s) (hang_up dp (Some (session_call_id s)) x) else x)
      = x\<lparr>twilio_log := twilio_log x @ hang_up_legs x s hang\<rparr>" for s x
    by (cases hang) (simp_all add: hang_up_eq hang_up_legs_def)
  show ?thesis
    by (simp add: teardown_group_def Some texted hung calls Let_def)
      (simp add: drop_bridge_def drop_session_def shut_bridge_def at_bridge_def hang_up_legs_def)
qed

lemma teardown_fields [simp]:
  "bridges (teardown_group dp g reason hang a) = AList.delete g (bridges a)"
  "pending_goals (teardown_group dp g reason hang a) = (pending_goals a)(g := None)"
  "user_legs (teardown_group dp g reason hang a) = (user_legs a)(g := None)"
  "user_numbers (teardown_group dp g reason hang a) = (user_numbers a)(g := None)"
  "call_meta (teardown_group dp g reason hang a) = (call_meta a)(g := None)"
  "heap (teardown_group dp g reason hang a) = (case map_of (bridges a) g of None \<Rightarrow> heap a
     | Some r \<Rightarrow> (heap a)(r := close_bridge (heap a r)))"
  "next_ref (teardown_group dp g reason hang a) = next_ref a"
  "sockets (teardown_group dp g reason hang a) = sockets a"
  "wire (teardown_group dp g reason hang a) = wire a"
  "handoff_tasks (teardown_group dp g reason hang a) = handoff_tasks a"
  "dtmf_threads (teardown_group dp g reason hang a) = dtmf_threads a"
  "telemetry (teardown_group dp g reason hang a) = telemetry a"
  "app_settings (teardown_group dp g reason hang a) = app_settings a"
  "has_twilio (teardown_group dp g reason hang a) = has_twilio a"
  "twilio_log (teardown_group dp g reason hang a) = twilio_log a @ teardown_calls a g reason hang"
  by (simp_all add: teardown_eq clear_context_def)

lemma delete_map_of [simp]: "map_of (AList.delete g xs) = (map_of xs)(g := None)"
  by (rule delete_conv')

lemma delete_subset: "set (AList.delete g xs) \<subseteq> set xs"
  by (auto simp: AList.delete_eq)

lemma delete_distinct [simp]: "distinct (map fst xs) \<Longrightarrow> distinct (map fst (AList.delete g xs))"
  by (rule distinct_delete)

text \<open>What closing keeps of a bridge.\<close>

lemma close_bridge_fields [simp]:
  "group_id (close_bridge b) = group_id b" "session (close_bridge b) = session b"
  "notify_user (close_bridge b) = notify_user b" "on_teardown (close_bridge b) = on_teardown b"
  "relay_open (close_bridge b) = relay_open b" "outbound_user (close_bridge b) = outbound_user b"
  "outbound_agent (close_bridge b) = outbound_agent b"
  "handoff_started (close_bridge b) = handoff_started b" "bridge_closed (close_bridge b)"
  "user_stream_sid (close_bridge b) = user_stream_sid b"
  "agent_stream_sid (close_bridge b) = agent_stream_sid b"
  "reconnecting (close_bridge b) = reconnecting b" "reconnect_since (close_bridge b) = reconnect_since b"
  by (simp_all add: close_bridge_def)

section \<open>The hooks\<close>

lemma at_bridge_fields [simp]:
  "heap (at_bridge r f a) = (heap a)(r := f (heap a r))" "bridges (at_bridge r f a) = bridges a"
  "user_numbers (at_bridge r f a) = user_numbers a" "call_meta (at_bridge r f a) = call_meta a"
  "next_ref (at_bridge r f a) = next_ref a" "sockets (at_bridge r f a) = sockets a"
  "wire (at_bridge r f a) = wire a" "handoff_tasks (at_bridge r f a) = handoff_tasks a"
  "twilio_log (at_bridge r f a) = twilio_log a" "has_twilio (at_bridge r f a) = has_twilio a"
  "app_settings (at_bridge r f a) = app_settings a" "user_legs (at_bridge r f a) = user_legs a"
  "pending_goals (at_bridge r f a) = pending_goals a" "dtmf_threads (at_bridge r f a) = dtmf_threads a"
  "clock (at_bridge r f a) = clock a" "executors (at_bridge r f a) = executors a"
  "sessions (at_bridge r f a) = sessions a" "telemetry (at_bridge r f a) = telemetry a"
  by (simp_all add: at_bridge_def)

definition opened :: "Deps \<Rightarrow> nat \<Rightarrow> App \<Rightarrow> App" where
  "opened dp r a = (let a1 = at_bridge r (\<lambda>b. b\<lparr>handoff_started := True, relay_open := True\<rparr>) a
     in (case notify_user (heap a r) of None \<Rightarrow> a1 | Some g \<Rightarrow> sms dp g ConnectedText a1))"

inductive hook :: "Deps \<Rightarrow> nat \<Rightarrow> outcall list \<times> App \<Rightarrow> outcall list \<times> App \<Rightarrow> bool" for dp r where
  emitted: "hook dp r (tr, a) (tr @ [Emit e], a\<lparr>telemetry := telemetry a @ [e]\<rparr>)"
| submitted: "hook dp r (tr, a) (tr @ [SubmitJob j], a\<lparr>executors := (executors a)(r := x)\<rparr>)"
| polled: "cs = [] \<or> (\<exists>res. cs = [PollResult res])
     \<Longrightarrow> hook dp r (tr, a) (tr @ cs, a\<lparr>executors := (executors a)(r := x)\<rparr>)"
| pressed: "hook dp r (tr, a) (tr @ [SendDtmf d],
     at_bridge r (\<lambda>b. b\<lparr>reconnecting := True, reconnect_since := Some (clock a)\<rparr>)
       (a\<lparr>dtmf_threads := dtmf_threads a @ [(r, keys)]\<rparr>))"
| not_pressed: "hook dp r (tr, a) (tr @ [SendDtmf d], a)"
| handoff_refused: "hook dp r (tr, a) (tr @ [OnBridge], at_bridge r (\<lambda>b. b\<lparr>handoff_started := True\<rparr>) a)"
| handoff_open: "\<not> handoff_started (heap a r) \<Longrightarrow> user_stream_sid (heap a r) \<noteq> None
     \<Longrightarrow> hook dp r (tr, a) (tr @ [OnBridge], opened dp r a)"
| handoff_spawned: "\<not> handoff_started (heap a r) \<Longrightarrow> user_stream_sid (heap a r) \<noteq> None
     \<Longrightarrow> hook dp r (tr, a) (tr @ [OnBridge], at_bridge r (\<lambda>b. b\<lparr>handoff_started := True\<rparr>)
           (a\<lparr>handoff_tasks := (handoff_tasks a)(r \<mapsto> Speaking)\<rparr>))"
| failed: "hook dp r (tr, a) (tr @ [OnFail reason],
     (case on_teardown (heap a r) of None \<Rightarrow> a | Some g \<Rightarrow> teardown_group dp g (Some reason) True a))"

lemma at_bridge_id: "at_bridge r (\<lambda>_. heap a r) a = a"
  by (simp add: at_bridge_def)

lemma hook_dtmf: "hook dp r (tr, a) (tr @ [SendDtmf d], snd (dtmf_sender (bridge_env dp r) d a))"
proof (cases "fst (press_dtmf d (clock a) (heap a r)) = []")
  case True
  then have "press_dtmf d (clock a) (heap a r) = ([], heap a r)"
    by (auto simp: press_dtmf_def Let_def split: if_splits)
  then have "snd (dtmf_sender (bridge_env dp r) d a) = a"
    by (simp add: bridge_env_def run_effects_def at_bridge_id)
  then show ?thesis by (simp add: hook.not_pressed)
next
  case False
  then have "snd (dtmf_sender (bridge_env dp r) d a) =
      at_bridge r (\<lambda>b. b\<lparr>reconnecting := True, reconnect_since := Some (clock a)\<rparr>)
       (a\<lparr>dtmf_threads := dtmf_threads a @ [(r, filter (\<lambda>c. c \<in> set dtmf_keys) d)]\<rparr>)"
    by (auto simp: bridge_env_def run_effects_def press_dtmf_def Let_def at_bridge_def split: if_splits)
  then show ?thesis by (simp add: hook.pressed)
qed

lemma hook_bridge: "hook dp r (tr, a) (tr @ [OnBridge], snd (on_bridge (bridge_env dp r) a))"
proof -
  let ?b = "heap a r" and ?a' = "snd (on_bridge (bridge_env dp r) a)"
  have marked: "handoff_started b \<Longrightarrow> b\<lparr>handoff_started := True\<rparr> = b" for b :: CallBridge
    by (cases b) simp
  show ?thesis
  proof (cases "handoff_started ?b \<or> user_stream_sid ?b = None")
    case True
    then have "?a' = at_bridge r (\<lambda>b. b\<lparr>handoff_started := True\<rparr>) a"
      by (auto simp: bridge_env_def begin_handoff_def run_effects_def at_bridge_def marked)
    then show ?thesis by (simp add: hook.handoff_refused)
  next
    case False
    show ?thesis
    proof (cases "\<not> has_loop ?b \<or> openai_api_key (settings (session ?b)) = ''''")
      case True
      with False have "?a' = opened dp r a"
        by (auto simp: bridge_env_def begin_handoff_def open_relay_def run_effects_def opened_def
            at_bridge_def split: option.split)
      with False show ?thesis by (simp add: hook.handoff_open)
    next
      case started: False
      with False have "?a' = at_bridge r (\<lambda>b. b\<lparr>handoff_started := True\<rparr>)
           (a\<lparr>handoff_tasks := (handoff_tasks a)(r \<mapsto> Speaking)\<rparr>)"
        by (auto simp: bridge_env_def begin_handoff_def run_effects_def at_bridge_def)
      with False show ?thesis by (simp add: hook.handoff_spawned)
    qed
  qed
qed

lemma hook_fail: "hook dp r (tr, a) (tr @ [OnFail reason], snd (on_fail (bridge_env dp r) reason a))"
  using hook.failed [of dp r tr a reason]
  by (simp add: bridge_env_def run_effects_def on_session_fail_def at_bridge_def)

lemma hook_exec:
  "hook dp r (tr, a) (tr @ [SubmitJob j], snd (exec_submit (bridge_env dp r) j a))"
  "exec_poll (bridge_env dp r) a = (p, a') \<Longrightarrow> hook dp r (tr, a) (tr, a')"
  "exec_poll (bridge_env dp r) a = (p, a') \<Longrightarrow> hook dp r (tr, a) (tr @ [PollResult res], a')"
  "hook dp r (tr, a) (tr, exec_close (bridge_env dp r) a)"
proof -
  show "hook dp r (tr, a) (tr @ [SubmitJob j], snd (exec_submit (bridge_env dp r) j a))"
    by (auto simp: bridge_env_def at_executor_def intro: hook.submitted split: prod.split)
  have poll: "hook dp r (tr, a) (tr @ cs, a\<lparr>executors := (executors a)(r := x)\<rparr>)"
    if "cs = [] \<or> (\<exists>res. cs = [PollResult res])" for cs x
    using that by (rule hook.polled)
  show "hook dp r (tr, a) (tr, a')" "hook dp r (tr, a) (tr @ [PollResult res], a')"
    if "exec_poll (bridge_env dp r) a = (p, a')"
    using that poll [of "[]"] poll [of "[PollResult res]"]
    by (auto simp: bridge_env_def at_executor_def split: prod.splits)
  show "hook dp r (tr, a) (tr, exec_close (bridge_env dp r) a)"
    using poll [of "[]"] by (simp add: bridge_env_def)
qed

interpretation hooks: session_world "bridge_env dp r" "\<lambda>tr w. (hook dp r)\<^sup>*\<^sup>* st (tr, w)" for dp r st
proof unfold_locales
  fix tr :: "outcall list" and w w' :: App
  assume run: "(hook dp r)\<^sup>*\<^sup>* st (tr, w)"
  note into = rtranclp.rtrancl_into_rtrancl [OF run]
  have "telemetry_emit (bridge_env dp r) e w = w\<lparr>telemetry := telemetry w @ [e]\<rparr>" for e
    by (simp add: bridge_env_def)
  then show "(hook dp r)\<^sup>*\<^sup>* st (tr @ [Emit e], telemetry_emit (bridge_env dp r) e w)" for e
    by (simp add: into [OF hook.emitted])
  show "(hook dp r)\<^sup>*\<^sup>* st (tr @ [SubmitJob j], snd (exec_submit (bridge_env dp r) j w))" for j
    by (rule into [OF hook_exec(1)])
  show "exec_poll (bridge_env dp r) w = (Inr (Some res), w') \<Longrightarrow>
      (hook dp r)\<^sup>*\<^sup>* st (tr @ [PollResult res], w')" for res
    by (rule into [OF hook_exec(3)])
  show "exec_poll (bridge_env dp r) w = (p, w') \<Longrightarrow> (hook dp r)\<^sup>*\<^sup>* st (tr, w')" for p
    by (rule into [OF hook_exec(2)])
  show "(hook dp r)\<^sup>*\<^sup>* st (tr @ [SendDtmf d], snd (dtmf_sender (bridge_env dp r) d w))" for d
    by (rule into [OF hook_dtmf])
  show "(hook dp r)\<^sup>*\<^sup>* st (tr @ [OnBridge], snd (on_bridge (bridge_env dp r) w))"
    by (rule into [OF hook_bridge])
  show "(hook dp r)\<^sup>*\<^sup>* st (tr @ [OnFail reason], snd (on_fail (bridge_env dp r) reason w))" for reason
    by (rule into [OF hook_fail])
  show "(hook dp r)\<^sup>*\<^sup>* st (tr, exec_close (bridge_env dp r) w)"
    by (rule into [OF hook_exec(4)])
qed

section \<open>A session running on its bridge\<close>

text \<open>
  However a frame from the business call, or the abort of a session, ends: the session made
  steps of its own, the process made \<open>hook\<close> steps, and the session was put back.
\<close>

definition session_ran :: "Deps \<Rightarrow> nat \<Rightarrow> App \<Rightarrow> App \<Rightarrow> bool" where
  "session_ran dp r a a' \<longleftrightarrow> (\<exists>s' a2. session_step\<^sup>*\<^sup>* (session (heap a r)) s'
     \<and> (hook dp r)\<^sup>*\<^sup>* (trace (session (heap a r)), a) (trace s', a2) \<and> a' = put_session r s' a2)"

lemma put_session_id: "put_session r (session (heap a r)) a = a"
  by (simp add: put_session_def at_bridge_def)

definition took_frame :: "nat \<Rightarrow> byte list \<Rightarrow> App \<Rightarrow> App" where
  "took_frame r ulaw = at_bridge r (\<lambda>b. relay_to_user ulaw (tee_probe ulaw b))"

lemma agent_audio_ran:
  assumes "on_agent_audio dp r ulaw a = Some (res, a')"
  shows "session_ran dp r (took_frame r ulaw a) a'"
proof (cases "finished (session (heap (took_frame r ulaw a) r))")
  case True
  with assms have "a' = took_frame r ulaw a"
    by (simp add: on_agent_audio_def took_frame_def)
  then show ?thesis
    unfolding session_ran_def using put_session_id [of r a'] by (metis rtranclp.rtrancl_refl)
next
  case False
  let ?a = "took_frame r ulaw a"
  let ?s = "session (heap ?a r)"
  from False assms obtain s' a2 where
    feed: "feed_audio (bridge_env dp r) (Int16 (ulaw_to_pcm16 ulaw)) (?s, ?a) = Some (res, (s', a2))"
    and a': "a' = put_session r s' a2"
    by (auto simp: on_agent_audio_def took_frame_def [symmetric] Let_def split: option.splits prod.splits)
  from feed_audio_steps [OF feed] hooks.feed_audio_sound [OF feed, of "(trace ?s, ?a)"] a'
  show ?thesis unfolding session_ran_def by blast
qed

lemma abort_ran:
  assumes "abort_session dp r reason a = (res, a')"
  shows "session_ran dp r a a'"
proof -
  let ?s = "session (heap a r)"
  from assms obtain s' a2 where run: "abort (bridge_env dp r) reason (?s, a) = (res, (s', a2))"
    and a': "a' = put_session r s' a2"
    by (auto simp: abort_session_def split: prod.splits)
  have "session_step\<^sup>*\<^sup>* ?s s'"
    using session_run_steps [of "bridge_env dp r" "[Abort reason]" ?s a s' a2] run by simp
  with hooks.abort_sound [OF run, of "(trace ?s, a)"] a' show ?thesis
    unfolding session_ran_def by blast
qed

end
