(* ===== verification/Session_Protocol.thy ===== *)
theory Session_Protocol
  imports Session_Steps
begin

text \<open>
  The contract between a call session and its collaborators, as a monitor of the session's
  trace: the abstract specification of \<open>agent/session.py\<close>. The monitor knows the phase the
  events announced, the Tier 2 job in flight, whether a terminal event was seen, and the
  previous entry; \<open>allowed\<close> says which entry may come next. The simulation shows that the
  trace of every session is accepted and that the monitor ends in the session's state, for
  any collaborators; the safety properties follow from the monitor alone.
\<close>

section \<open>The monitor\<close>

record Monitor =
  phase :: CallState
  job :: "Tier2Kind option"
  over :: bool
  prev :: "outcall option"

definition monitor0 :: Monitor where
  "monitor0 = \<lparr>phase = DIALING, job = None, over = False, prev = None\<rparr>"

definition all_states :: "CallState list" where
  "all_states = [DIALING, IVR_MENU, ON_HOLD, EVALUATING_SPEECH, HUMAN_DETECTED, BRIDGING, DONE, FAILED]"

definition state_of_value :: "string \<Rightarrow> CallState option" where
  "state_of_value v = find (\<lambda>q. state_value q = v) all_states"

lemma state_of_value [simp]: "state_of_value (state_value q) = Some q"
  by (cases q) (simp_all add: state_of_value_def all_states_def)

lemma state_of_value_Some: "state_of_value v = Some q \<Longrightarrow> v = state_value q"
  by (auto simp: state_of_value_def find_Some_iff)

text \<open>What must directly precede a change of phase.\<close>

fun change_cause :: "CallState \<Rightarrow> CallState \<Rightarrow> outcall option \<Rightarrow> bool" where
  "change_cause _ HUMAN_DETECTED v = (case v of Some (Emit (ProbeResult _ _ h)) \<Rightarrow> h | _ \<Rightarrow> False)"
| "change_cause _ BRIDGING v = (v = Some OnBridge)"
| "change_cause _ DONE v = (case v of Some (Emit (BridgeStarted _ _)) \<Rightarrow> True | _ \<Rightarrow> False)"
| "change_cause EVALUATING_SPEECH ON_HOLD v = (case v of
       Some (Emit (ProbeResult _ _ h)) \<Rightarrow> \<not> h
     | Some (Emit (FrameClassified _ _ _ _ _)) \<Rightarrow> True
     | _ \<Rightarrow> False)"
| "change_cause _ _ v = (case v of Some (Emit (FrameClassified _ _ _ _ _)) \<Rightarrow> True | _ \<Rightarrow> False)"

definition changed_to :: "CallState \<Rightarrow> CallState \<Rightarrow> outcall option \<Rightarrow> bool" where
  "changed_to p q v = (case v of
       Some (Emit (StateChanged _ _ a b)) \<Rightarrow> a = state_value p \<and> b = state_value q
     | _ \<Rightarrow> False)"

fun allowed_event :: "Monitor \<Rightarrow> Event \<Rightarrow> bool" where
  "allowed_event m (FrameClassified _ _ _ _ _) = (\<not> over m)"
| "allowed_event m (StateChanged _ _ a b) =
     (\<not> over m \<and> a = state_value (phase m)
      \<and> (case state_of_value b of None \<Rightarrow> False
          | Some q \<Rightarrow> phase_edge (phase m) q \<and> change_cause (phase m) q (prev m)))"
| "allowed_event m (Tier2Woken _ _ why) =
     (\<not> over m \<and> job m = None
      \<and> (why = ''menu'' \<and> phase m = IVR_MENU \<or> why = ''probe'' \<and> phase m = EVALUATING_SPEECH))"
| "allowed_event m (DtmfSent _ _ d) = (prev m = Some (SendDtmf d))"
| "allowed_event m (ProbeResult _ _ h) =
     (case prev m of Some (PollResult (Inr (ProbeOutcome h' _ _))) \<Rightarrow> h' = h | _ \<Rightarrow> False)"
| "allowed_event m (HumanDetected _ _) =
     (\<not> over m \<and> changed_to EVALUATING_SPEECH HUMAN_DETECTED (prev m))"
| "allowed_event m (BridgeStarted _ _) = (\<not> over m \<and> changed_to HUMAN_DETECTED BRIDGING (prev m))"
| "allowed_event m (CallCompleted _ _ r) =
     (\<not> over m \<and> r = ''human_bridged'' \<and> changed_to BRIDGING DONE (prev m))"
| "allowed_event m (CallFailed _ _ r) =
     (phase m \<noteq> DONE \<and>
      (over m \<longrightarrow> phase m = FAILED \<and> (case prev m of Some (PollResult (Inl _)) \<Rightarrow> True | _ \<Rightarrow> False)))"

fun allowed :: "string \<Rightarrow> Monitor \<Rightarrow> outcall \<Rightarrow> bool" where
  "allowed cid m (Emit e) = (call_id e = cid \<and> allowed_event m e)"
| "allowed cid m (SubmitJob j) =
     (job m = None \<and> (case prev m of
         Some (Emit (Tier2Woken _ _ why)) \<Rightarrow>
           (case j of ChooseMenuDigit _ _ _ \<Rightarrow> why = ''menu'' | RunProbe _ _ \<Rightarrow> why = ''probe'')
       | _ \<Rightarrow> False))"
| "allowed cid m (PollResult r) = (job m \<noteq> None \<and> (over m \<longrightarrow> phase m = FAILED))"
| "allowed cid m (SendDtmf d) =
     (d \<noteq> '''' \<and> (case prev m of
         Some (PollResult (Inr (MenuDecision d' _))) \<Rightarrow> d' = Some d | _ \<Rightarrow> False))"
| "allowed cid m OnBridge = (case prev m of Some (Emit (HumanDetected _ _)) \<Rightarrow> True | _ \<Rightarrow> False)"
| "allowed cid m (OnFail r) = (case prev m of Some (Emit (CallFailed _ _ r')) \<Rightarrow> r' = r | _ \<Rightarrow> False)"

fun effect :: "outcall \<Rightarrow> Monitor \<Rightarrow> Monitor" where
  "effect (Emit (StateChanged _ _ _ b)) m = m\<lparr>phase := the (state_of_value b)\<rparr>"
| "effect (Emit (CallFailed _ _ _)) m = m\<lparr>over := True\<rparr>"
| "effect (Emit (CallCompleted _ _ _)) m = m\<lparr>over := True\<rparr>"
| "effect (SubmitJob (ChooseMenuDigit _ _ _)) m = m\<lparr>job := Some Menu\<rparr>"
| "effect (SubmitJob (RunProbe _ _)) m = m\<lparr>job := Some Probe\<rparr>"
| "effect (PollResult _) m = m\<lparr>job := None\<rparr>"
| "effect _ m = m"

text \<open>Three announcements that must be made good at once: by the next entry, or never.\<close>

fun pays :: "outcall option \<Rightarrow> outcall \<Rightarrow> bool" where
  "pays (Some (Emit (CallFailed _ _ r))) c = (c = OnFail r)"
| "pays (Some (Emit (HumanDetected _ _))) c = (c = OnBridge)"
| "pays (Some (Emit (Tier2Woken _ _ _))) c = (case c of SubmitJob _ \<Rightarrow> True | _ \<Rightarrow> False)"
| "pays _ _ = True"

fun owes :: "outcall option \<Rightarrow> bool" where
  "owes (Some (Emit (CallFailed _ _ _))) = True"
| "owes (Some (Emit (HumanDetected _ _))) = True"
| "owes (Some (Emit (Tier2Woken _ _ _))) = True"
| "owes _ = False"

lemma pays_settled [simp]: "\<not> owes v \<Longrightarrow> pays v c"
  by (cases "(v, c)" rule: pays.cases) simp_all

definition monitor :: "string \<Rightarrow> Monitor \<Rightarrow> outcall \<Rightarrow> Monitor option" where
  "monitor cid m c =
     (if allowed cid m c \<and> pays (prev m) c then Some ((effect c m)\<lparr>prev := Some c\<rparr>) else None)"

abbreviation monitored :: "string \<Rightarrow> outcall list \<Rightarrow> Monitor option" where
  "monitored cid \<equiv> replay (monitor cid) monitor0"

section \<open>The simulation\<close>

text \<open>
  The trace is accepted, leaves the monitor in the session's own state, and announces
  nothing that was not made good.
\<close>

definition seen :: "AgentSession \<Rightarrow> Monitor" where
  "seen s = \<lparr>phase = state (fsm s), job = tier2_kind s, over = finished s,
             prev = (if trace s = [] then None else Some (last (trace s)))\<rparr>"

definition conforms :: "AgentSession \<Rightarrow> bool" where
  "conforms s \<longleftrightarrow> monitored (session_call_id s) (trace s) = Some (seen s) \<and> \<not> owes (prev (seen s))"

text \<open>Extending a conforming session by some entries and an update of its other fields.\<close>

lemma conforms_extend:
  assumes "conforms s" "session_call_id s' = session_call_id s" "trace s' = trace s @ cs"
    and "replay (monitor (session_call_id s)) (seen s) cs = Some (seen s')"
    and "\<not> owes (prev (seen s'))"
  shows "conforms s'"
  using assms by (simp add: conforms_def)

lemma paid: "conforms s \<Longrightarrow> trace s \<noteq> [] \<Longrightarrow> pays (Some (last (trace s))) c"
  by (simp add: conforms_def seen_def)

lemma conforms_same:
  assumes "conforms s" "session_call_id s' = session_call_id s" "trace s' = trace s" "seen s' = seen s"
  shows "conforms s'"
  using assms by (simp add: conforms_def)

lemmas monitor_simps = monitor_def seen_def changed_to_def

lemma seen_logs [simp]:
  "phase (seen s) = state (fsm s)" "job (seen s) = tier2_kind s" "over (seen s) = finished s"
  by (simp_all add: seen_def)

lemma effect_fields [simp]:
  "session_call_id (logs cs s) = session_call_id s" "session_call_id (moved now m s) = session_call_id s"
  "session_call_id (failed_at now r s) = session_call_id s"
  "session_call_id (woken k why j now s) = session_call_id s"
  "session_call_id (got res s) = session_call_id s"
  "fsm (logs cs s) = fsm s" "fsm (moved now m s) = m" "fsm (failed_at now r s) = fsm s"
  "fsm (woken k why j now s) = fsm s" "fsm (got res s) = fsm s"
  "finished (logs cs s) = finished s" "finished (moved now m s) = finished s"
  "finished (failed_at now r s)" "finished (woken k why j now s) = finished s"
  "finished (got res s) = finished s"
  "tier2_kind (logs cs s) = tier2_kind s" "tier2_kind (moved now m s) = tier2_kind s"
  "tier2_kind (failed_at now r s) = tier2_kind s" "tier2_kind (woken k why j now s) = Some k"
  "tier2_kind (got res s) = None"
  "trace (logs cs s) = trace s @ cs"
  "trace (got res s) = trace s @ [PollResult res]"
  by (simp_all add: effect_defs got_def)

lemma failed_at_conforms:
  assumes "conforms s" "state (fsm s) \<noteq> DONE"
    and "finished s \<Longrightarrow> state (fsm s) = FAILED \<and> (\<exists>e. prev (seen s) = Some (PollResult (Inl e)))"
  shows "conforms (failed_at now r s)"
  using assms(1)
  by (rule conforms_extend [where cs = "[Emit (CallFailed (session_call_id s) now r), OnFail r]"])
    (use assms(2,3) in \<open>auto simp: failed_at_def monitor_def seen_def logs_def paid [OF assms(1)]\<close>)

lemma woken_conforms:
  assumes "conforms s" "\<not> finished s" "tier2_kind s = None"
    and "state (fsm s) = IVR_MENU \<and> k = Menu \<and> why = ''menu'' \<and> j = menu_job s
      \<or> state (fsm s) = EVALUATING_SPEECH \<and> k = Probe \<and> why = ''probe'' \<and> j = probe_job s"
  shows "conforms (woken k why j now s)"
  using assms(1)
  by (rule conforms_extend [where cs = "[Emit (Tier2Woken (session_call_id s) now why), SubmitJob j]"])
    (use assms(2-4) in \<open>auto simp: effect_defs monitor_def seen_def paid [OF assms(1)]\<close>)

lemma moved_conforms:
  assumes "conforms s" "\<not> finished s"
    and "state m = state (fsm s) \<or> phase_edge (state (fsm s)) (state m)
      \<and> change_cause (state (fsm s)) (state m) (prev (seen s))"
  shows "conforms (moved now m s)"
proof (cases "state m = state (fsm s)")
  case True
  then show ?thesis
    using assms(1) by (intro conforms_same [OF assms(1)]) (simp_all add: moved_def state_change_def seen_def)
next
  case False
  show ?thesis
    using assms(1)
    by (rule conforms_extend [where cs = "state_change s (state (fsm s)) (state m) now"])
      (use False assms(2,3) in \<open>auto simp: moved_def state_change_def monitor_def seen_def logs_def paid [OF assms(1)]\<close>)
qed

lemma moved_same_conforms:
  "conforms s \<Longrightarrow> state m = state (fsm s) \<Longrightarrow> conforms (moved now m s)"
  by (erule conforms_same) (simp_all add: moved_def state_change_def seen_def)

lemma handoff_asked_conforms:
  assumes "conforms s" "\<not> finished s" "changed_to EVALUATING_SPEECH HUMAN_DETECTED (prev (seen s))"
  shows "conforms (handoff_asked now s)"
  using assms(1)
  by (rule conforms_extend [where cs = "[Emit (HumanDetected (session_call_id s) now), OnBridge]"])
    (use assms(2,3) in \<open>auto simp: handoff_asked_def monitor_def seen_def logs_def paid [OF assms(1)]\<close>)

lemma handed_off_conforms:
  assumes "conforms s" "\<not> finished s" "state (fsm s) = HUMAN_DETECTED" "prev (seen s) = Some OnBridge"
  shows "conforms (handed_off now s)"
  using assms(1)
  by (rule conforms_extend [where cs = "[
        Emit (StateChanged (session_call_id s) now (state_value HUMAN_DETECTED) (state_value BRIDGING)),
        Emit (BridgeStarted (session_call_id s) now),
        Emit (StateChanged (session_call_id s) now (state_value BRIDGING) (state_value DONE)),
        Emit (CallCompleted (session_call_id s) now ''human_bridged'')]"])
    (use assms(2-4) in \<open>simp_all add: handed_off_def moved_def state_change_def logs_def Let_def
       bridged_def completed_def monitor_def seen_def changed_to_def phase_edge.intros
       state_of_value [unfolded state_of_value_def] del: state_value.simps\<close>)

text \<open>A decision is carried out as agreed when the machine is where the decision leaves it.\<close>

definition ready :: "Action \<Rightarrow> AgentSession \<Rightarrow> bool" where
  "ready a s = (case a of
       WAKE_TIER2_PROBE \<Rightarrow> \<not> finished s \<and> state (fsm s) = EVALUATING_SPEECH
     | BRIDGE \<Rightarrow> \<not> finished s \<and> state (fsm s) = HUMAN_DETECTED
         \<and> changed_to EVALUATING_SPEECH HUMAN_DETECTED (prev (seen s))
     | FAIL \<Rightarrow> \<not> finished s \<and> state (fsm s) = FAILED
     | _ \<Rightarrow> True)"

lemma acts_conforms:
  assumes "acts now a s s'" "conforms s" "ready a s"
  shows "conforms s'"
  using assms
proof cases
  case handoff
  then show ?thesis using assms(2,3)
    by (auto simp: ready_def intro!: handed_off_conforms handoff_asked_conforms)
      (simp_all add: handoff_asked_def seen_def)
next
  case (handoff_failed r)
  then show ?thesis using assms(2,3)
    by (auto simp: ready_def intro!: failed_at_conforms handoff_asked_conforms)
      (simp_all add: handoff_asked_def)
next
  case handoff_interrupted
  then show ?thesis using assms(2,3) by (auto simp: ready_def intro!: handoff_asked_conforms)
qed (auto simp: ready_def intro: woken_conforms failed_at_conforms conforms_same [OF assms(2)] simp: seen_def)

lemma change_cause_frame:
  "q \<notin> {HUMAN_DETECTED, BRIDGING, DONE} \<Longrightarrow> change_cause p q (Some (Emit (FrameClassified i t l c fs)))"
  by (cases p; cases q) simp_all

lemma phase_rule_target:
  "phase_rule m now l n a q \<Longrightarrow> q = state m \<or> q \<notin> {HUMAN_DETECTED, BRIDGING, DONE}"
  by (erule phase_rule.cases) simp_all

lemma observe_move:
  "state (snd (observe l c now m)) = state m
   \<or> phase_edge (state m) (state (snd (observe l c now m)))
     \<and> change_cause (state m) (state (snd (observe l c now m)))
         (Some (Emit (FrameClassified i t l' c' fs)))"
  using phase_rule_edge [OF observe_phase_rule [of m now l c]]
    phase_rule_target [OF observe_phase_rule [of m now l c]] change_cause_frame
  by blast

lemma ready_after_window:
  "\<not> finished s \<Longrightarrow> ready (fst (observe l c now (fsm s)))
     (moved now (snd (observe l c now (fsm s))) (logs cs s))"
  using observe_action_range [of l c now "fsm s"] observe_probe_state(2) [of l c now "fsm s"]
    observe_fail_state(2) [of l c now "fsm s"]
  by (cases "fst (observe l c now (fsm s))") (simp_all add: ready_def)

text \<open>In the middle of a tick the call may have ended, but only by a lost connection.\<close>

definition mid_tick :: "AgentSession \<Rightarrow> bool" where
  "mid_tick s \<longleftrightarrow> state (fsm s) \<noteq> DONE \<and> (finished s \<longrightarrow> state (fsm s) = FAILED)"

definition done_ends :: "AgentSession \<Rightarrow> bool" where
  "done_ends s \<longleftrightarrow> (state (fsm s) = DONE \<longrightarrow> finished s)"

lemma acts_ending:
  assumes "acts now a s s'" "\<not> finished s" "a = FAIL \<Longrightarrow> state (fsm s) = FAILED" "a \<noteq> BRIDGE"
    "state (fsm s) \<noteq> DONE"
  shows "mid_tick s'"
  using assms by cases (auto simp: mid_tick_def)

lemma handed_off_fields [simp]:
  "finished (handed_off now s)" "fsm (handoff_asked now s) = fsm s"
  by (simp_all add: effect_defs Let_def)

lemma acts_done:
  assumes "acts now a s s'" "state (fsm s) \<noteq> DONE" shows "done_ends s'"
  using assms by cases (auto simp: done_ends_def)

lemma windowed_conforms:
  assumes "windowed now s s'" "conforms s" "\<not> finished s" "done_ends s"
  shows "conforms s'" "mid_tick s'"
proof -
  from assms(1) obtain l c c' fs where
    act: "acts now (fst (observe l c now (fsm s)))
       (moved now (snd (observe l c now (fsm s))) (logs [window_event s now l c' fs] s)) s'"
    by cases
  let ?s1 = "logs [window_event s now l c' fs] s"
  have 1: "conforms ?s1"
    using assms(2)
    by (rule conforms_extend [where cs = "[window_event s now l c' fs]"])
      (use assms(3) in \<open>simp_all add: window_event_def monitor_def seen_def logs_def paid [OF assms(2)]\<close>)
  have "prev (seen ?s1) = Some (window_event s now l c' fs)" by (simp add: seen_def)
  then have "conforms (moved now (snd (observe l c now (fsm s))) ?s1)"
    using 1 assms(3) observe_move [of l c now "fsm s"]
    by (intro moved_conforms) (simp_all add: window_event_def)
  from acts_conforms [OF act this ready_after_window [OF assms(3)]] show "conforms s'" .
  have "state (snd (observe l c now (fsm s))) \<noteq> DONE"
    using phase_rule_target [OF observe_phase_rule [of "fsm s" now l c]] assms(3,4)
    by (auto simp: done_ends_def)
  then show "mid_tick s'"
    using acts_ending [OF act] assms(3) observe_fail_state(2) [of l c now "fsm s"]
      observe_action_range [of l c now "fsm s"] by simp
qed

lemma fired_conforms:
  assumes "fired now s s'" "conforms s" "mid_tick s"
  shows "conforms s'" "mid_tick s'"
proof -
  have same: "conforms (s\<lparr>menu_wake_due := None\<rparr>)"
    using assms(2) by (erule_tac conforms_same) (simp_all add: seen_def)
  show "conforms s'"
    using assms(1)
  proof cases
    case wake_fired
    with same assms(3) show ?thesis
      by (auto intro!: woken_conforms simp: menu_job_def mid_tick_def)
  qed (use assms(2) same in simp_all)
  show "mid_tick s'"
    using assms(1,3) by cases (auto simp: mid_tick_def)
qed

lemma got_conforms:
  assumes "conforms s" "tier2_kind s \<noteq> None" "mid_tick s"
  shows "conforms (got res s)"
  using assms(1)
  by (rule conforms_extend [where cs = "[PollResult res]"])
    (use assms(2,3) in \<open>simp_all add: monitor_def seen_def got_def logs_def mid_tick_def paid [OF assms(1)]\<close>)

lemma prev_got [simp]: "prev (seen (got res s)) = Some (PollResult res)"
  by (simp add: seen_def)

lemma seen_with_fsm:
  "state m = state (fsm s) \<Longrightarrow> conforms s \<Longrightarrow> conforms (s\<lparr>fsm := m\<rparr>)"
  by (erule conforms_same) (simp_all add: seen_def)

lemma verdict_conforms:
  assumes "acts now (fst (probe_result h now (fsm s)))
      (moved now (snd (probe_result h now (fsm s)))
        (logs [Emit (ProbeResult (session_call_id s) now h)] (got (Inr (ProbeOutcome h why v)) s))) s'"
    and "conforms s" "tier2_kind s \<noteq> None" "mid_tick s"
  shows "conforms s'"
proof -
  let ?g = "got (Inr (ProbeOutcome h why v)) s"
  let ?s1 = "logs [Emit (ProbeResult (session_call_id s) now h)] ?g"
  let ?s2 = "moved now (snd (probe_result h now (fsm s))) ?s1"
  have 1: "conforms ?s1"
    using got_conforms [OF assms(2-4)]
    by (rule conforms_extend [where cs = "[Emit (ProbeResult (session_call_id s) now h)]"])
      (simp_all add: monitor_def, simp_all add: seen_def)
  have p: "prev (seen ?s1) = Some (Emit (ProbeResult (session_call_id s) now h))"
    by (simp add: seen_def)
  have 2: "conforms ?s2"
  proof (cases "state (fsm s) = EVALUATING_SPEECH")
    case True
    with assms(4) have "\<not> finished s" by (auto simp: mid_tick_def)
    with True 1 p show ?thesis
      by (intro moved_conforms) (auto simp: state_probe_result intro: phase_edge.intros)
  next
    case False
    then show ?thesis using 1 by (intro moved_same_conforms) (simp_all add: state_probe_result)
  qed
  have "ready (fst (probe_result h now (fsm s))) ?s2"
    using assms(4)
    by (auto simp: mid_tick_def ready_def action_probe_result state_probe_result changed_to_def seen_def moved_def
        state_change_def)
  from acts_conforms [OF assms(1) 2 this] show ?thesis .
qed

lemma answered_conforms:
  assumes "answered now s s'" "conforms s" "mid_tick s"
  shows "conforms s'"
  using assms(1)
proof cases
  case (error_fatal k e r)
  with assms(2,3) show ?thesis
    by (auto intro!: failed_at_conforms got_conforms simp: mid_tick_def)
next
  case (abstained d why)
  with assms(2,3) show ?thesis
    by (auto intro!: seen_with_fsm got_conforms)
next
  case (pressed d why)
  have "conforms (got (Inr (MenuDecision (Some d) why)) s)"
    using got_conforms [OF assms(2) _ assms(3)] pressed by simp
  then have "conforms (logs [SendDtmf d, Emit (DtmfSent (session_call_id s) now d)]
          (got (Inr (MenuDecision (Some d) why)) s))"
    by (rule conforms_extend [where cs = "[SendDtmf d, Emit (DtmfSent (session_call_id s) now d)]"])
      (use pressed(3) in \<open>simp_all add: monitor_def\<close>, simp_all add: seen_def)
  then show ?thesis unfolding pressed(1) by (rule seen_with_fsm [rotated]) simp
next
  case (press_interrupted d why)
  have "conforms (got (Inr (MenuDecision (Some d) why)) s)"
    using got_conforms [OF assms(2) _ assms(3)] press_interrupted by simp
  then show ?thesis unfolding press_interrupted(1)
    by (rule conforms_extend [where cs = "[SendDtmf d]"])
      (use press_interrupted(3) in \<open>simp_all add: monitor_def\<close>, simp_all add: seen_def)
next
  case (verdict h why v)
  show ?thesis by (rule verdict_conforms [OF verdict(2) assms(2)]) (use verdict(1) assms(3) in simp_all)
qed (use assms got_conforms in auto)

lemma answered_done:
  assumes "answered now s s'" "mid_tick s"
  shows "done_ends s'"
  using assms(1)
proof cases
  case (verdict h why v)
  from acts_done [OF verdict(2)] assms(2) show ?thesis
    by (simp add: state_probe_result mid_tick_def)
qed (use assms(2) in \<open>auto simp: done_ends_def mid_tick_def\<close>)

lemma session_step_conforms:
  assumes "session_step s s'" "conforms s" "done_ends s"
  shows "conforms s' \<and> done_ends s'"
  using assms(1)
proof cases
  case (heard chunk)
  with assms(3) show ?thesis
    by (auto intro!: conforms_same [OF assms(2)] simp: seen_def skip_ahead_def ingest_def done_ends_def)
next
  case ticked
  from ticked(2) obtain s1 s2 where
    t: "windowed (next_classify_at s) s s1" "fired (next_classify_at s) s1 s2"
      "answered (next_classify_at s) s2 s'"
    by cases
  note w = windowed_conforms [OF t(1) assms(2) ticked(1) assms(3)]
  note f = fired_conforms [OF t(2) w]
  from answered_conforms [OF t(3) f] answered_done [OF t(3) f(2)] show ?thesis by blast
next
  case clocked
  with assms(3) show ?thesis
    by (auto intro!: conforms_same [OF assms(2)] simp: seen_def done_ends_def)
next
  case (aborted r)
  with assms(2,3) show ?thesis by (auto intro!: failed_at_conforms simp: done_ends_def)
qed

lemma new_session_fields [simp]:
  "session_call_id (new_AgentSession cid sett cf g conf leg) = cid"
  "state (fsm (new_AgentSession cid sett cf g conf leg)) = DIALING"
  "tier2_kind (new_AgentSession cid sett cf g conf leg) = None"
  "finished (new_AgentSession cid sett cf g conf leg) = False"
  "trace (new_AgentSession cid sett cf g conf leg) = []"
  by (simp_all add: new_AgentSession_def new_CallStateMachine_def)

lemma acts_call_id: "acts now a s s' \<Longrightarrow> session_call_id s' = session_call_id s"
  by (induction rule: acts.induct) (simp_all add: effect_defs Let_def)

lemma answered_call_id: "answered now s s' \<Longrightarrow> session_call_id s' = session_call_id s"
  by (induction rule: answered.induct) (auto dest: acts_call_id)

lemma session_step_call_id: "session_step s s' \<Longrightarrow> session_call_id s' = session_call_id s"
proof (induction rule: session_step.induct)
  case (ticked s s')
  from ticked(2) obtain s1 s2 where
    t: "windowed (next_classify_at s) s s1" "fired (next_classify_at s) s1 s2"
      "answered (next_classify_at s) s2 s'"
    by cases
  have "session_call_id s1 = session_call_id s"
    using t(1) by cases (auto dest: acts_call_id)
  moreover have "session_call_id s2 = session_call_id s1"
    using t(2) by cases auto
  ultimately show ?case using answered_call_id [OF t(3)] by simp
qed (simp_all add: skip_ahead_def ingest_def)

lemma session_steps_conform:
  assumes "session_step\<^sup>*\<^sup>* (new_AgentSession cid sett cf g conf leg) s"
  shows "conforms s \<and> done_ends s \<and> session_call_id s = cid"
  using assms
proof induction
  case base
  show ?case by (simp add: conforms_def done_ends_def seen_def monitor0_def)
next
  case (step s s')
  with session_step_conforms show ?case by (metis session_step_call_id)
qed

lemma session_accepted:
  assumes "session_run env is (new_AgentSession cid sett cf g conf leg, w) = Some (s, w')"
  shows "monitored cid (trace s) = Some (seen s)"
  using session_steps_conform [OF session_run_steps [OF assms]] by (auto simp: conforms_def)

end
