(* ===== verification/App_Run.thy ===== *)
theory App_Run
  imports App_Facts Session_Protocol
begin

text \<open>
  Runs of the process. \<open>expected\<close> is what the outside world promises: \<open>uuid4\<close> gives every
  call a group no call or stream had before, and Twilio sends one \<open>start\<close> per media stream.
  The invariants of the registry are proved over every reachable state.
\<close>

section \<open>Reachable states\<close>

fun call_group :: "TwilioCall \<Rightarrow> string option" where
  "call_group (PlaceCall _ _ g) = Some g"
| "call_group (RingUser _ _ g) = Some g"
| "call_group (SendSms g _ _) = Some g"
| "call_group _ = None"

definition fresh_group :: "App \<Rightarrow> string \<Rightarrow> bool" where
  "fresh_group a g \<longleftrightarrow> Some g \<notin> call_group ` set (twilio_log a)"

fun expected :: "App \<Rightarrow> app_event \<Rightarrow> bool" where
  "expected a (CreateCall req g) = fresh_group a g"
| "expected a (Receive k (Start m)) = (case sockets a k of Reading h \<Rightarrow> h_bridge h = None | _ \<Rightarrow> True)"
| "expected a _ = True"

inductive app_reachable :: "Deps \<Rightarrow> Settings \<Rightarrow> App \<Rightarrow> bool" for dp sett where
  created: "app_reachable dp sett (create_app sett)"
| stepped: "app_reachable dp sett a \<Longrightarrow> expected a ev \<Longrightarrow> app_step dp a ev = Some a'
    \<Longrightarrow> app_reachable dp sett a'"

section \<open>Sessions inside the process\<close>

definition identity :: "AgentSession \<Rightarrow> string \<times> string option \<times> Settings" where
  "identity s = (session_call_id s, user_leg_sid s, settings s)"

definition ended_on_record :: "AgentSession \<Rightarrow> bool" where
  "ended_on_record s \<longleftrightarrow> (finished s \<longrightarrow> (\<exists>x. OnFail x \<in> set (trace s))
     \<or> (\<exists>i t. Emit (CallCompleted i t ''human_bridged'') \<in> set (trace s)))"

definition kept :: "AgentSession \<Rightarrow> AgentSession \<Rightarrow> bool" where
  "kept s s' \<longleftrightarrow> identity s' = identity s \<and> (ended_on_record s \<longrightarrow> ended_on_record s')"

lemma kept_refl [simp]: "kept s s"
  by (simp add: kept_def)

lemma kept_trans: "kept s t \<Longrightarrow> kept t u \<Longrightarrow> kept s u"
  by (simp add: kept_def)

lemma kept_logs: "identity s' = identity s \<Longrightarrow> finished s' = finished s \<Longrightarrow> trace s' = trace s @ cs \<Longrightarrow> kept s s'"
  by (auto simp: kept_def ended_on_record_def)

lemma kept_failed [simp]: "kept s (failed_at now r s)"
  by (auto simp: kept_def ended_on_record_def identity_def effect_defs)

lemma kept_handed [simp]: "kept s (handed_off now s)"
  by (auto simp: kept_def ended_on_record_def identity_def effect_defs Let_def)

lemma kept_asked [simp]: "kept s (handoff_asked now s)"
  by (rule kept_logs) (auto simp: identity_def effect_defs)

lemma kept_woken [simp]: "kept s (woken k why j now s)"
  by (rule kept_logs) (auto simp: identity_def effect_defs)

lemma kept_got [simp]: "kept s (got res s)"
  by (rule kept_logs) (auto simp: identity_def got_def logs_def)

lemma kept_moved [simp]: "kept s (moved now m s)" "kept s (logs cs s)"
  by (rule kept_logs; auto simp: identity_def moved_def logs_def)+

lemma kept_silent [simp]: "kept s (s\<lparr>menu_wake_due := d\<rparr>)" "kept s (s\<lparr>fsm := m\<rparr>)"
    "kept s (s\<lparr>next_classify_at := t\<rparr>)"
  by (rule kept_logs [where cs = "[]"]; simp add: identity_def)+

lemmas kept_then = kept_trans [OF _ kept_failed] kept_trans [OF _ kept_handed] kept_trans [OF _ kept_asked]
  kept_trans [OF _ kept_woken] kept_trans [OF _ kept_got] kept_trans [OF _ kept_moved(1)]
  kept_trans [OF _ kept_moved(2)] kept_trans [OF _ kept_silent(1)] kept_trans [OF _ kept_silent(2)]

lemma kept_acts: "acts now a s s' \<Longrightarrow> kept s s'"
  by (induction rule: acts.induct) (intro kept_then kept_refl)+

lemma kept_answered: "answered now s s' \<Longrightarrow> kept s s'"
proof (induction rule: answered.induct)
  case (verdict s h why v s')
  show ?case
    by (rule kept_trans [OF _ kept_acts [OF verdict(2)]]) (intro kept_then kept_refl)
qed (intro kept_then kept_refl)+

lemma kept_windowed: "windowed now s s' \<Longrightarrow> kept s s'"
proof (induction rule: windowed.induct)
  case (window l c s c' fs s')
  show ?case
    by (rule kept_trans [OF _ kept_acts [OF window]]) (intro kept_then kept_refl)
qed

lemma kept_fired: "fired now s s' \<Longrightarrow> kept s s'"
  by (induction rule: fired.induct) (intro kept_then kept_refl)+

lemma kept_step: "session_step s s' \<Longrightarrow> kept s s'"
proof (induction rule: session_step.induct)
  case (heard s chunk)
  show ?case
    by (rule kept_logs [where cs = "[]"]) (simp_all add: identity_def skip_ahead_def ingest_def)
next
  case (ticked s s')
  then show ?case
    by (auto elim!: tick.cases dest!: kept_windowed kept_fired kept_answered intro: kept_trans)
qed simp_all

lemma kept_steps: "session_step\<^sup>*\<^sup>* s s' \<Longrightarrow> kept s s'"
  by (induction rule: rtranclp.induct) (auto dest: kept_step intro: kept_trans)

section \<open>What a running session keeps of the process\<close>

lemma opened_fields [simp]:
  "heap (opened dp r a) = (heap a)(r := (heap a r)\<lparr>handoff_started := True, relay_open := True\<rparr>)"
  "bridges (opened dp r a) = bridges a" "next_ref (opened dp r a) = next_ref a"
  "sockets (opened dp r a) = sockets a" "wire (opened dp r a) = wire a"
  "user_numbers (opened dp r a) = user_numbers a" "call_meta (opened dp r a) = call_meta a"
  "handoff_tasks (opened dp r a) = handoff_tasks a" "has_twilio (opened dp r a) = has_twilio a"
  "app_settings (opened dp r a) = app_settings a"
  "twilio_log (opened dp r a) = twilio_log a @ (case notify_user (heap a r) of None \<Rightarrow> []
     | Some g \<Rightarrow> sms_calls (has_twilio a) (user_numbers a g) g ConnectedText)"
  by (simp_all add: opened_def Let_def sms_eq split: option.split)

lemma hook_session: "hook dp r (tr, a) (tr', a') \<Longrightarrow> session (heap a' x) = session (heap a x)"
  by (erule hook.cases) (auto split: option.split)

lemma hooks_keep:
  assumes "(hook dp r)\<^sup>*\<^sup>* (tr, a) (tr', a')" "P a"
    and "\<And>tr b tr' b'. P b \<Longrightarrow> hook dp r (tr, b) (tr', b') \<Longrightarrow> P b'"
  shows "P a'"
proof -
  have "P (snd (tr', a'))"
    by (rule rtranclp_keeps [OF assms(1), of "\<lambda>x. P (snd x)"]) (use assms(2,3) in auto)
  then show ?thesis by simp
qed

lemma ran_keeps:
  assumes "session_ran dp r a a'" "P a"
    and "\<And>tr b tr' b'. P b \<Longrightarrow> hook dp r (tr, b) (tr', b') \<Longrightarrow> P b'"
    and "\<And>b s. P b \<Longrightarrow> session_step\<^sup>*\<^sup>* (session (heap b r)) s \<Longrightarrow> P (put_session r s b)"
  shows "P a'"
proof -
  from assms(1) obtain s' a2 where steps: "session_step\<^sup>*\<^sup>* (session (heap a r)) s'"
    and hooks: "(hook dp r)\<^sup>*\<^sup>* (trace (session (heap a r)), a) (trace s', a2)"
    and a': "a' = put_session r s' a2"
    by (auto simp: session_ran_def)
  let ?Q = "\<lambda>b. P b \<and> session (heap b r) = session (heap a r)"
  have "?Q a2"
  proof (rule hooks_keep [OF hooks])
    show "?Q a" using assms(2) by simp
    show "?Q b'" if "?Q b" "hook dp r (tr, b) (tr', b')" for tr b tr' b'
      using that assms(3) [of b tr tr' b'] hook_session [OF that(2)] by simp
  qed
  with assms(4) steps a' show ?thesis by simp
qed

section \<open>The registry\<close>

definition tags :: "CallBridge \<Rightarrow> string \<times> bool \<times> string option \<times> string option" where
  "tags b = (group_id b, bridge_closed b, notify_user b, on_teardown b)"

definition registry :: "App \<Rightarrow> bool" where
  "registry a \<longleftrightarrow> distinct (map fst (bridges a))
     \<and> (\<forall>g r. map_of (bridges a) g = Some r \<longrightarrow>
          r < next_ref a \<and> group_id (heap a r) = g \<and> \<not> bridge_closed (heap a r))
     \<and> (\<forall>r < next_ref a. notify_user (heap a r) = Some (group_id (heap a r))
          \<and> on_teardown (heap a r) = Some (group_id (heap a r)))"

lemma registry_same:
  assumes "registry a" "bridges a' = bridges a" "next_ref a' = next_ref a"
    "\<And>r. tags (heap a' r) = tags (heap a r)"
  shows "registry a'"
  using assms by (simp add: registry_def tags_def)

lemma registry_entry:
  "registry a \<Longrightarrow> map_of (bridges a) g = Some r
    \<Longrightarrow> r < next_ref a \<and> group_id (heap a r) = g \<and> \<not> bridge_closed (heap a r)"
  unfolding registry_def by blast

lemma registry_wired:
  "registry a \<Longrightarrow> r < next_ref a \<Longrightarrow> notify_user (heap a r) = Some (group_id (heap a r))
     \<and> on_teardown (heap a r) = Some (group_id (heap a r))"
  by (simp add: registry_def)

lemma registry_teardown:
  assumes "registry a" shows "registry (teardown_group dp g reason hang a)"
proof -
  let ?a = "teardown_group dp g reason hang a"
  have "r < next_ref ?a \<and> group_id (heap ?a r) = g' \<and> \<not> bridge_closed (heap ?a r)"
    if "map_of (bridges ?a) g' = Some r" for g' r
    using that registry_entry [OF assms, of g' r] registry_entry [OF assms, of g]
    by (auto split: option.splits if_splits)
  moreover have "distinct (map fst (bridges ?a))"
    using assms by (simp add: registry_def)
  moreover have "notify_user (heap ?a r) = Some (group_id (heap ?a r))
     \<and> on_teardown (heap ?a r) = Some (group_id (heap ?a r))" if "r < next_ref ?a" for r
    using that registry_wired [OF assms, of r] by (simp split: option.split)
  ultimately show ?thesis unfolding registry_def by blast
qed

lemma registry_hook:
  assumes "hook dp r (tr, a) (tr', a')" "registry a" shows "registry a'"
  using assms
proof cases
  case (failed reason)
  with assms(2) show ?thesis by (simp add: registry_teardown split: option.split)
qed (use assms(2) in \<open>auto elim!: registry_same simp: tags_def\<close>)

lemma registry_ran:
  assumes "session_ran dp r a a'" "registry a" shows "registry a'"
  using assms
proof (rule ran_keeps)
  show "registry (put_session r s b)" if "registry b" for b s
    using that by (rule registry_same) (simp_all add: tags_def put_session_def)
qed (rule registry_hook)

end
