(* ===== verification/App_Registry.thy ===== *)
theory App_Registry
  imports App_Run
begin

text \<open>
  The invariant of the process's registries: whatever happens, an entry of \<open>bridges\<close> is an
  open bridge of its group, and the sockets' handlers refer to bridges of the groups they
  serve.
\<close>

section \<open>The invariant\<close>

definition handler_ok :: "App \<Rightarrow> Handler \<Rightarrow> bool" where
  "handler_ok a h \<longleftrightarrow>
     (\<forall>r. h_bridge h = Some r \<longrightarrow> r < next_ref a \<and> group_id (heap a r) = h_group h)
     \<and> (\<forall>w \<in> set (writers h). writer_ref w < next_ref a)"

fun socket_ok :: "App \<Rightarrow> Socket \<Rightarrow> bool" where
  "socket_ok a (Reading h) = handler_ok a h"
| "socket_ok a (Attaching h _ _) = (handler_ok a h \<and> h_bridge h = None)"
| "socket_ok a (Relaying h r) = (handler_ok a h \<and> h_bridge h = None \<and> r < next_ref a)"
| "socket_ok a (UserClosing h r) = (handler_ok a h \<and> h_bridge h = None \<and> r < next_ref a)"
| "socket_ok a (Closing h) = handler_ok a h"
| "socket_ok a _ = True"

definition core :: "App \<Rightarrow> bool" where
  "core a \<longleftrightarrow> registry a \<and> (\<forall>k. socket_ok a (sockets a k))"

text \<open>The frame the sockets depend on.\<close>

definition still :: "App \<Rightarrow> App \<Rightarrow> bool" where
  "still a a' \<longleftrightarrow> sockets a' = sockets a \<and> next_ref a' = next_ref a
     \<and> (\<forall>r. group_id (heap a' r) = group_id (heap a r))"

lemma still_refl [simp]: "still a a"
  by (simp add: still_def)

lemma still_trans: "still a b \<Longrightarrow> still b c \<Longrightarrow> still a c"
  by (simp add: still_def)

lemma handler_ok_still: "still a a' \<Longrightarrow> handler_ok a' h = handler_ok a h"
  by (simp add: still_def handler_ok_def)

lemma still_next: "still a a' \<Longrightarrow> next_ref a' = next_ref a"
  by (simp add: still_def)

lemma socket_ok_still: "still a a' \<Longrightarrow> socket_ok a' s = socket_ok a s"
  by (cases s) (simp_all add: handler_ok_still still_next)

lemma core_still: "core a \<Longrightarrow> still a a' \<Longrightarrow> registry a' \<Longrightarrow> core a'"
  by (simp add: core_def socket_ok_still) (simp add: still_def)

lemma core_registry: "core a \<Longrightarrow> registry a"
  by (simp add: core_def)

lemma core_socket: "core a \<Longrightarrow> socket_ok a (sockets a k)"
  by (simp add: core_def)

lemma set_socket_fields [simp]:
  "heap (set_socket k s a) = heap a" "bridges (set_socket k s a) = bridges a"
  "next_ref (set_socket k s a) = next_ref a" "sockets (set_socket k s a) = (sockets a)(k := s)"
  "wire (set_socket k s a) = wire a" "twilio_log (set_socket k s a) = twilio_log a"
  "user_numbers (set_socket k s a) = user_numbers a" "call_meta (set_socket k s a) = call_meta a"
  "handoff_tasks (set_socket k s a) = handoff_tasks a" "has_twilio (set_socket k s a) = has_twilio a"
  "app_settings (set_socket k s a) = app_settings a" "user_legs (set_socket k s a) = user_legs a"
  by (simp_all add: set_socket_def)

lemma handler_ok_same [simp]:
  "handler_ok (set_socket k s a) h = handler_ok a h"
  by (simp add: handler_ok_def)

lemma socket_ok_same [simp]: "socket_ok (set_socket k s a) t = socket_ok a t"
  by (cases t) simp_all

lemma core_set_socket: "core a \<Longrightarrow> socket_ok a s \<Longrightarrow> core (set_socket k s a)"
  by (auto simp: core_def elim!: registry_same)

section \<open>Operations that leave the sockets alone\<close>

lemma still_teardown [simp]: "still a (teardown_group dp g reason hang a)"
  by (simp add: still_def split: option.split)

lemma still_hook: "hook dp r (tr, a) (tr', a') \<Longrightarrow> still a a'"
  by (erule hook.cases) (auto simp: still_def split: option.split)

lemma still_ran:
  assumes "session_ran dp r a a'" shows "still a a'"
  using assms still_refl [of a]
proof (rule ran_keeps [where P = "still a"])
  show "still a b'" if "still a b" "hook dp r (tr, b) (tr', b')" for tr b tr' b'
    using still_trans [OF that(1) still_hook [OF that(2)]] .
  show "still a (put_session r s b)" if "still a b" for b s
    using that by (simp add: still_def put_session_def)
qed

lemma core_ran: "session_ran dp r a a' \<Longrightarrow> core a \<Longrightarrow> core a'"
  using core_still still_ran registry_ran core_registry by blast

lemma core_teardown: "core a \<Longrightarrow> core (teardown_group dp g reason hang a)"
  using core_still still_teardown registry_teardown core_registry by blast

lemma core_reap: "core a \<Longrightarrow> core (snd (reap_over dp now xs a))"
  by (induction xs arbitrary: a) (auto simp: core_teardown split_beta)

lemma core_quiet:
  assumes "core a" "bridges a' = bridges a" "next_ref a' = next_ref a" "sockets a' = sockets a"
    "\<And>r. tags (heap a' r) = tags (heap a r)"
  shows "core a'"
proof (rule core_still [OF assms(1)])
  show "registry a'" by (rule registry_same [OF core_registry [OF assms(1)] assms(2,3,5)])
  show "still a a'" using assms(3-5) by (simp add: still_def tags_def)
qed

lemma core_at_bridge: "core a \<Longrightarrow> (\<And>b. tags (f b) = tags b) \<Longrightarrow> core (at_bridge r f a)"
  by (erule core_quiet) simp_all

lemma tags_ops [simp]:
  "tags (relay_to_user u b) = tags b" "tags (tee_probe u b) = tags b" "tags (on_user_audio u b) = tags b"
  "tags (play_to_agent ord s b) = tags b" "tags (bind_user sid b) = tags b" "tags (bind_agent sid l b) = tags b"
  "tags (record_frame u b) = tags b" "tags (probe_begins b) = tags b" "tags (probe_ends b) = tags b"
  "tags (snd (probe_reads b)) = tags b" "tags (snd (drain leg b)) = tags b"
  "tags (b\<lparr>user_stream_sid := x\<rparr>) = tags b" "tags (b\<lparr>reconnecting := y\<rparr>) = tags b"
  "tags (b\<lparr>reconnect_since := z\<rparr>) = tags b" "tags (b\<lparr>relay_open := y\<rparr>) = tags b"
  "tags (b\<lparr>session := s'\<rparr>) = tags b"
  by (auto simp: tags_def bridge_op_defs record_frame_def drain_def split: option.splits list.splits Leg.splits)

lemma core_create: "core a \<Longrightarrow> core (snd (create_call dp req g a))"
  by (erule core_quiet)
    (simp_all add: create_call_def twilio_def ring_user_leg_def Let_def split: option.split)

lemma core_dtmf: "core a \<Longrightarrow> core (dtmf_thread dp t a)"
  by (erule core_quiet)
    (auto simp: dtmf_thread_def twilio_def split: option.split)

lemma handoff_turn_eq:
  "handoff_turn dp r left a =
     (if left = 0 \<or> outbound_agent (heap a r) = []
      then let a1 = at_bridge r (\<lambda>b. b\<lparr>relay_open := True\<rparr>)
                      (a\<lparr>handoff_tasks := (handoff_tasks a)(r := None)\<rparr>)
           in (case notify_user (heap a r) of None \<Rightarrow> a1 | Some g \<Rightarrow> sms dp g ConnectedText a1)
      else a\<lparr>handoff_tasks := (handoff_tasks a)(r \<mapsto> Waiting (left - 1))\<rparr>)"
  by (simp add: handoff_turn_def handoff_poll_def open_relay_def run_effects_def at_bridge_def Let_def)

lemma core_handoff: "core a \<Longrightarrow> core (handoff_turn dp r left a)"
  by (erule core_quiet)
    (simp_all add: handoff_turn_eq Let_def sms_eq split: option.split)

lemma core_media:
  assumes "on_agent_audio dp r ulaw a = Some (res, a')" "core a"
  shows "core a'"
  by (rule core_ran [OF agent_audio_ran [OF assms(1)]])
    (simp add: took_frame_def core_at_bridge assms(2))

section \<open>The sockets\<close>

lemma handler_ok_fields [simp]:
  "handler_ok a (h\<lparr>saw_stop := True\<rparr>) = handler_ok a h"
  by (simp add: handler_ok_def)

lemma handler_ok_tl: "handler_ok a h \<Longrightarrow> handler_ok a (h\<lparr>writers := tl (writers h)\<rparr>)"
  by (cases "writers h") (auto simp: handler_ok_def)

lemma core_attach:
  assumes "core a" "handler_ok a h" "h_bridge h = None"
  shows "core (attach_user k h sid tries a)"
proof (cases "tries < USER_ATTACH_TRIES")
  case False
  with assms show ?thesis by (simp add: attach_user_def core_set_socket)
next
  case True
  show ?thesis
  proof (cases "map_of (bridges a) (h_group h)")
    case None
    with True assms show ?thesis by (simp add: attach_user_def core_set_socket)
  next
    case (Some r)
    let ?h = "h\<lparr>writers := \<lparr>writer_leg = UserLeg, writer_ref = r, unsent = []\<rparr> # writers h\<rparr>"
    let ?a = "at_bridge r (bind_user sid) a"
    have r: "r < next_ref a" using registry_entry [OF core_registry [OF assms(1)] Some] by simp
    have "core ?a" using assms(1) by (simp add: core_at_bridge)
    moreover have "handler_ok ?a ?h"
      using assms(2,3) r by (simp add: handler_ok_def)
    ultimately have "core (set_socket k (Relaying ?h r) ?a)"
      using assms(3) r by (simp add: core_set_socket)
    with True Some show ?thesis by (simp add: attach_user_def)
  qed
qed

lemma core_rebind:
  assumes "core a" "handler_ok a h" "map_of (bridges a) g = Some r"
    "rebind_agent_leg r g sid h a = (h', a')"
  shows "core a' \<and> handler_ok a' h'"
proof -
  have r: "r < next_ref a \<and> group_id (heap a r) = g"
    using registry_entry [OF core_registry [OF assms(1)] assms(3)] by simp
  have eq: "h' = h\<lparr>h_bridge := Some r, h_group := g, writers := agent_writer r # writers h\<rparr>"
    "a' = at_bridge r (\<lambda>b. (bind_agent sid True b)\<lparr>reconnecting := False, reconnect_since := None\<rparr>) a"
    using assms(4) by (auto simp: rebind_agent_leg_def)
  have "core a'"
    using assms(1) unfolding eq by (rule core_at_bridge) (simp add: tags_def bind_agent_def)
  moreover have "handler_ok a' h'"
    using assms(2) r by (auto simp: eq handler_ok_def agent_writer_def bind_agent_def)
  ultimately show ?thesis ..
qed

lemma agent_bridge_fields [simp]:
  "group_id (agent_bridge a cid g sid) = g" "bridge_closed (agent_bridge a cid g sid) = False"
  "notify_user (agent_bridge a cid g sid) = Some g" "on_teardown (agent_bridge a cid g sid) = Some g"
  "session (agent_bridge a cid g sid) = make_session a cid g"
  "relay_open (agent_bridge a cid g sid) = False" "outbound_user (agent_bridge a cid g sid) = []"
  "outbound_agent (agent_bridge a cid g sid) = []"
  "handoff_started (agent_bridge a cid g sid) = False"
  "user_stream_sid (agent_bridge a cid g sid) = None"
  "agent_stream_sid (agent_bridge a cid g sid) = Some sid"
  "reconnecting (agent_bridge a cid g sid) = False"
  by (simp_all add: agent_bridge_def wire_bridge_hooks_def wire_dtmf_def bind_agent_def new_CallBridge_def)

lemma core_new_leg:
  assumes "core a" "handler_ok a h" "map_of (bridges a) g = None"
    "new_agent_leg cid g sid h a = (h', a')"
  shows "core a' \<and> handler_ok a' h'"
proof -
  let ?r = "next_ref a"
  have eq: "h' = h\<lparr>h_bridge := Some ?r, h_group := g, writers := agent_writer ?r # writers h\<rparr>"
    and heap: "heap a' = (heap a)(?r := agent_bridge a cid g sid)"
    and br: "bridges a' = AList.update g ?r (bridges a)" and bound: "next_ref a' = ?r + 1"
    and so: "sockets a' = sockets a"
    using assms(4) by (auto simp: new_agent_leg_def Let_def)
  have reg: "registry a" using assms(1) by (rule core_registry)
  have entry: "r < next_ref a' \<and> group_id (heap a' r) = g' \<and> \<not> bridge_closed (heap a' r)"
    if "map_of (bridges a') g' = Some r" for g' r
    using that registry_entry [OF reg, of g' r]
    by (cases "g' = g") (auto simp: br heap bound update_conv')
  have wired: "notify_user (heap a' r) = Some (group_id (heap a' r))
     \<and> on_teardown (heap a' r) = Some (group_id (heap a' r))" if "r < next_ref a'" for r
    using that registry_wired [OF reg, of r] by (cases "r = ?r") (auto simp: heap bound)
  have dist: "distinct (map fst (bridges a'))"
    using reg by (simp add: br registry_def distinct_update)
  have reg': "registry a'" using dist entry wired unfolding registry_def by blast
  have old: "handler_ok a' x" if "handler_ok a x" for x
    using that by (auto simp: handler_ok_def heap bound less_Suc_eq)
  have sock: "socket_ok a' s" if "socket_ok a s" for s
    using that by (cases s) (auto simp: old bound)
  have "core a'"
    using reg' sock core_socket [OF assms(1)] by (simp add: core_def so)
  moreover have "handler_ok a' h'"
    using old [OF assms(2)] by (auto simp: eq handler_ok_def heap bound agent_writer_def)
  ultimately show ?thesis ..
qed

lemma core_start:
  assumes "core a" "handler_ok a h" "h_bridge h = None"
  shows "core (on_start k h m a)"
proof (cases "param_role m = Some ''user''")
  case True
  have "core (attach_user k (h\<lparr>h_group := start_group m\<rparr>) (py_or (start_stream m) '''') 0 a)"
    by (rule core_attach) (use assms in \<open>auto simp: handler_ok_def\<close>)
  with True show ?thesis by (simp add: on_start_def Let_def)
next
  case False
  let ?g = "start_group m" and ?sid = "py_or (start_stream m) ''''"
    and ?cid = "py_or (start_call m) ''unknown''"
  define p where "p = (case map_of (bridges a) ?g of
      Some r \<Rightarrow> rebind_agent_leg r ?g ?sid h a | None \<Rightarrow> new_agent_leg ?cid ?g ?sid h a)"
  have "core (snd p) \<and> handler_ok (snd p) (fst p)"
    using core_rebind [OF assms(1,2)] core_new_leg [OF assms(1,2)]
    by (auto simp: p_def split: option.split) (metis prod.collapse)+
  then have "core (set_socket k (Reading (fst p)) (snd p))"
    by (simp add: core_set_socket)
  with False show ?thesis
    by (simp add: on_start_def Let_def p_def [symmetric] split_beta)
qed

lemma core_shut:
  assumes "core a" "\<And>g. map_of (bridges a) g \<noteq> Some r"
  shows "core (shut_bridge r a)"
proof -
  let ?a = "shut_bridge r a"
  have same: "bridges ?a = bridges a" "next_ref ?a = next_ref a" "sockets ?a = sockets a"
    by (simp_all add: shut_bridge_def)
  have heap: "heap ?a = (heap a)(r := close_bridge (heap a r))"
    by (simp add: shut_bridge_def)
  have reg: "registry a" using assms(1) by (rule core_registry)
  have "r' < next_ref ?a \<and> group_id (heap ?a r') = g \<and> \<not> bridge_closed (heap ?a r')"
    if "map_of (bridges ?a) g = Some r'" for g r'
    using that registry_entry [OF reg, of g r'] assms(2) [of g] by (auto simp: same heap)
  moreover have "notify_user (heap ?a r') = Some (group_id (heap ?a r'))
     \<and> on_teardown (heap ?a r') = Some (group_id (heap ?a r'))" if "r' < next_ref ?a" for r'
    using that registry_wired [OF reg, of r'] by (auto simp: same heap)
  moreover have "distinct (map fst (bridges ?a))" using reg by (simp add: same registry_def)
  ultimately have "registry ?a" unfolding registry_def by blast
  then show ?thesis
    by (rule core_still [OF assms(1), rotated]) (simp add: still_def same heap)
qed

lemma drop_fields [simp]:
  "bridges (drop_session r a) = bridges a" "next_ref (drop_session r a) = next_ref a"
  "sockets (drop_session r a) = sockets a" "heap (drop_session r a) = heap a"
  "twilio_log (drop_session r a) = twilio_log a" "user_numbers (drop_session r a) = user_numbers a"
  "call_meta (drop_session r a) = call_meta a" "has_twilio (drop_session r a) = has_twilio a"
  "handoff_tasks (drop_session r a) = handoff_tasks a" "wire (drop_session r a) = wire a"
  "bridges (drop_bridge g a) = AList.delete g (bridges a)" "next_ref (drop_bridge g a) = next_ref a"
  "sockets (drop_bridge g a) = sockets a" "heap (drop_bridge g a) = heap a"
  "twilio_log (drop_bridge g a) = twilio_log a" "user_numbers (drop_bridge g a) = user_numbers a"
  "call_meta (drop_bridge g a) = call_meta a" "has_twilio (drop_bridge g a) = has_twilio a"
  "handoff_tasks (drop_bridge g a) = handoff_tasks a" "wire (drop_bridge g a) = wire a"
  by (simp_all add: drop_session_def drop_bridge_def)

lemma core_drop_session: "core a \<Longrightarrow> core (drop_session r a)"
  by (erule core_quiet) simp_all

lemma core_drop_bridge:
  assumes "core a" shows "core (drop_bridge g a)"
proof -
  let ?a = "drop_bridge g a"
  have reg: "registry a" using assms by (rule core_registry)
  have "r < next_ref ?a \<and> group_id (heap ?a r) = g' \<and> \<not> bridge_closed (heap ?a r)"
    if "map_of (bridges ?a) g' = Some r" for g' r
    using that registry_entry [OF reg, of g' r] by (auto split: if_splits)
  moreover have "distinct (map fst (bridges ?a))" using reg by (simp add: registry_def)
  moreover have "notify_user (heap ?a r) = Some (group_id (heap ?a r))
     \<and> on_teardown (heap ?a r) = Some (group_id (heap ?a r))" if "r < next_ref ?a" for r
    using that registry_wired [OF reg, of r] by simp
  ultimately have "registry ?a" unfolding registry_def by blast
  then show ?thesis by (rule core_still [OF assms, rotated]) (simp add: still_def)
qed

lemma redial_fields [simp]:
  "bridges (snd (redial_agent_leg dp g a)) = bridges a" "heap (snd (redial_agent_leg dp g a)) = heap a"
  "next_ref (snd (redial_agent_leg dp g a)) = next_ref a" "sockets (snd (redial_agent_leg dp g a)) = sockets a"
  "user_numbers (snd (redial_agent_leg dp g a)) = user_numbers a"
  "wire (snd (redial_agent_leg dp g a)) = wire a" "handoff_tasks (snd (redial_agent_leg dp g a)) = handoff_tasks a"
  "has_twilio (snd (redial_agent_leg dp g a)) = has_twilio a"
  by (simp_all add: redial_agent_leg_def Let_def twilio_def split: option.split)

text \<open>\<open>finish_agent_leg\<close> after the guards.\<close>

definition dropped_leg :: "Handler \<Rightarrow> nat \<Rightarrow> App \<Rightarrow> bool" where
  "dropped_leg h r a \<longleftrightarrow> \<not> saw_stop h \<and> \<not> finished (session (heap a r))"

definition replaced_leg :: "string \<Rightarrow> nat \<Rightarrow> App \<Rightarrow> App" where
  "replaced_leg g r a = shut_bridge r (drop_session r
     (if map_of (bridges a) g = Some r then drop_bridge g a else a))"

lemma finish_cases:
  assumes "h_bridge h = Some r"
  obtains (waiting) "reconnecting (heap a r)" "finish_agent_leg dp h a = a"
  | (redialed) "\<not> reconnecting (heap a r)" "dropped_leg h r a"
      "fst (redial_agent_leg dp (h_group h) a)"
      "finish_agent_leg dp h a = replaced_leg (h_group h) r (snd (redial_agent_leg dp (h_group h) a))"
  | (lost) "\<not> reconnecting (heap a r)" "dropped_leg h r a"
      "\<not> fst (redial_agent_leg dp (h_group h) a)"
      "finish_agent_leg dp h a = teardown_group dp (h_group h) (Some ''dropped'') True
         (snd (redial_agent_leg dp (h_group h) a))"
  | (over) "\<not> reconnecting (heap a r)" "\<not> dropped_leg h r a"
      "finish_agent_leg dp h a = teardown_group dp (h_group h) None False a"
proof (cases "reconnecting (heap a r)")
  case True
  with assms waiting show ?thesis by (simp add: finish_agent_leg_def)
next
  case no: False
  show ?thesis
  proof (cases "dropped_leg h r a")
    case True
    show ?thesis
    proof (cases "fst (redial_agent_leg dp (h_group h) a)")
      case yes: True
      from no True yes assms show ?thesis
        by (intro redialed)
          (auto simp: finish_agent_leg_def dropped_leg_def replaced_leg_def Let_def split_beta)
    next
      case False
      from no True False assms show ?thesis
        by (intro lost) (auto simp: finish_agent_leg_def dropped_leg_def Let_def split_beta)
    qed
  next
    case False
    with no assms show ?thesis
      by (intro over) (auto simp: finish_agent_leg_def dropped_leg_def Let_def)
  qed
qed

lemma core_redial: "core a \<Longrightarrow> core (snd (redial_agent_leg dp g a))"
  by (erule core_quiet) simp_all

lemma core_replaced:
  assumes "core a" "group_id (heap a r) = g"
  shows "core (replaced_leg g r a)"
proof -
  let ?a = "if map_of (bridges a) g = Some r then drop_bridge g a else a"
  have core: "core ?a" using assms(1) by (simp add: core_drop_bridge)
  have "map_of (bridges ?a) g' \<noteq> Some r" for g'
    using registry_entry [OF core_registry [OF assms(1)], of g' r] assms(2) by auto
  then show ?thesis
    unfolding replaced_leg_def by (intro core_shut core_drop_session core) simp
qed

lemma core_finish:
  assumes "core a" "handler_ok a h" shows "core (finish_agent_leg dp h a)"
proof (cases "h_bridge h")
  case None
  with assms show ?thesis by (simp add: finish_agent_leg_def)
next
  case (Some r)
  with assms(2) have "group_id (heap a r) = h_group h" by (simp add: handler_ok_def)
  then show ?thesis
    by (cases rule: finish_cases [OF Some, of a dp])
      (simp_all add: assms(1) core_replaced core_redial core_teardown)
qed

section \<open>Every step keeps it\<close>

lemma core_agent_media:
  assumes "core a" "handler_ok a h" "on_agent_media dp k h b64 a = Some a'"
  shows "core a'"
proof (cases "h_bridge h")
  case None
  with assms show ?thesis by (simp add: on_agent_media_def)
next
  case (Some r)
  show ?thesis
  proof (cases "b64decode b64")
    case None
    with Some assms show ?thesis by (auto simp: on_agent_media_def core_set_socket)
  next
    case (Some ulaw)
    let ?a = "at_bridge r (record_frame ulaw) a"
    have "core ?a" using assms(1) by (simp add: core_at_bridge)
    moreover obtain res a2 where run: "on_agent_audio dp r ulaw ?a = Some (res, a2)"
      using assms(3) Some \<open>h_bridge h = Some r\<close>
      by (auto simp: on_agent_media_def split: option.splits)
    ultimately have "core a2" by (rule core_media [rotated])
    moreover have "still ?a a2"
      using still_trans [OF _ still_ran [OF agent_audio_ran [OF run]], of ?a]
      by (simp add: still_def took_frame_def relay_to_user_def tee_probe_def split: option.split)
    then have "handler_ok a2 h"
      using assms(2) handler_ok_still [of ?a a2 h] by (auto simp: handler_ok_def record_frame_def)
    moreover have "a' = a2 \<or> a' = set_socket k (Closing h) a2"
      using assms(3) run Some \<open>h_bridge h = Some r\<close>
      by (auto simp: on_agent_media_def split: sum.splits)
    ultimately show ?thesis by (auto simp: core_set_socket)
  qed
qed

lemma core_receive:
  assumes "core a" "expected a (Receive k msg)" "receive dp k msg a = Some a'"
  shows "core a'"
proof (cases "sockets a k")
  case (Reading h)
  have ok: "handler_ok a h" using core_socket [OF assms(1), of k] Reading by simp
  show ?thesis
  proof (cases msg)
    case (Start m)
    with Reading assms(2,3) have "h_bridge h = None" "a' = on_start k h m a"
      by (auto simp: receive_def)
    with assms(1) ok show ?thesis by (simp add: core_start)
  next
    case (Media b64)
    with Reading assms(3) have "on_agent_media dp k h b64 a = Some a'" by (simp add: receive_def)
    then show ?thesis by (rule core_agent_media [OF assms(1) ok])
  qed (use assms Reading ok in \<open>auto simp: receive_def core_set_socket\<close>)
next
  case (Relaying h r)
  then have "handler_ok a h \<and> h_bridge h = None \<and> r < next_ref a"
    using core_socket [OF assms(1), of k] by simp
  with Relaying assms(1,3) show ?thesis
    by (cases msg) (auto simp: receive_def core_set_socket core_at_bridge split: option.splits)
qed (use assms in \<open>auto simp: receive_def\<close>)

definition user_unbound :: "Deps \<Rightarrow> nat \<Rightarrow> App \<Rightarrow> App" where
  "user_unbound dp r a =
     (let a1 = at_bridge r (\<lambda>b. b\<lparr>user_stream_sid := None\<rparr>) a
      in if relay_open (heap a r) \<or> finished (session (heap a r)) then a1
         else snd (abort_session dp r ''user_left'' a1))"

lemma user_leg_gone_eq:
  "user_leg_gone dp k h r a = set_socket k (Closing (h\<lparr>writers := tl (writers h)\<rparr>)) (user_unbound dp r a)"
  by (simp add: user_leg_gone_def user_unbound_def Let_def)

lemma user_unbound_ran:
  "session_ran dp r (at_bridge r (\<lambda>b. b\<lparr>user_stream_sid := None\<rparr>) a) (user_unbound dp r a)"
proof -
  let ?a1 = "at_bridge r (\<lambda>b. b\<lparr>user_stream_sid := None\<rparr>) a"
  have "session_ran dp r ?a1 ?a1"
    unfolding session_ran_def using put_session_id [of r ?a1] by (metis rtranclp.rtrancl_refl)
  moreover have "session_ran dp r ?a1 (snd (abort_session dp r ''user_left'' ?a1))"
    by (rule abort_ran [OF surjective_pairing])
  ultimately show ?thesis by (simp add: user_unbound_def Let_def)
qed

lemma core_user_gone:
  assumes "core a" "handler_ok a h"
  shows "core (user_leg_gone dp k h r a)"
proof -
  let ?a1 = "at_bridge r (\<lambda>b. b\<lparr>user_stream_sid := None\<rparr>) a"
  have "core ?a1" using assms(1) by (simp add: core_at_bridge)
  then have "core (user_unbound dp r a)" by (rule core_ran [OF user_unbound_ran])
  moreover have "still ?a1 (user_unbound dp r a)" by (rule still_ran [OF user_unbound_ran])
  then have "handler_ok (user_unbound dp r a) h"
    using assms(2) handler_ok_still [of ?a1 "user_unbound dp r a" h] by (auto simp: handler_ok_def)
  ultimately show ?thesis
    by (simp add: user_leg_gone_eq core_set_socket handler_ok_tl)
qed

lemma core_socket_step:
  assumes "core a" shows "core (socket_step dp k a)"
proof (cases "sockets a k")
  case (Attaching h sid n)
  with assms core_socket [OF assms, of k] show ?thesis by (simp add: socket_step_def core_attach)
next
  case (UserClosing h r)
  with assms core_socket [OF assms, of k] show ?thesis by (simp add: socket_step_def core_user_gone)
next
  case (Closing h)
  with assms core_socket [OF assms, of k] show ?thesis
    by (simp add: socket_step_def core_finish core_set_socket)
qed (use assms in \<open>simp_all add: socket_step_def\<close>)

text \<open>A writer's turn replaces one writer of a socket by one for the same bridge.\<close>

lemma handler_of_with [simp]: "handler_of s = Some h \<Longrightarrow> handler_of (with_handler h' s) = Some h'"
  by (cases s) simp_all

lemma core_writer:
  assumes "core a" shows "core (writer_turn k i a)"
proof (cases "handler_of (sockets a k)")
  case None
  with assms show ?thesis by (simp add: writer_turn_def)
next
  case (Some h)
  show ?thesis
  proof (cases "i < length (writers h)")
    case False
    with Some assms show ?thesis by (simp add: writer_turn_def)
  next
    case True
    let ?w = "writers h ! i"
    let ?put = "\<lambda>w'. set_socket k (with_handler (h\<lparr>writers := (writers h)[i := w']\<rparr>) (sockets a k))"
    have ok: "handler_ok a h"
      using Some core_socket [OF assms, of k] by (cases "sockets a k") auto
    have put: "core (?put w' a')"
      if "core a'" "still a a'" "writer_ref w' = writer_ref ?w" for w' a'
    proof -
      have "handler_ok a (h\<lparr>writers := (writers h)[i := w']\<rparr>)"
        using ok True that(3) by (auto simp: handler_ok_def set_conv_nth nth_list_update)
      then have "socket_ok a (with_handler (h\<lparr>writers := (writers h)[i := w']\<rparr>) (sockets a k))"
        using core_socket [OF assms, of k] Some by (cases "sockets a k") auto
      with that socket_ok_still [OF that(2)] show ?thesis by (simp add: core_set_socket)
    qed
    show ?thesis
    proof (cases "unsent ?w")
      case (Cons msg rest)
      let ?a = "a\<lparr>wire := wire a @ [(k, writer_leg ?w, writer_ref ?w, msg)]\<rparr>"
      have "core ?a" using assms by (rule core_quiet) simp_all
      with put [of ?a "?w\<lparr>unsent := rest\<rparr>"] Some True Cons show ?thesis
        by (simp add: writer_turn_def Let_def still_def)
    next
      case Nil
      let ?d = "drain (writer_leg ?w) (heap a (writer_ref ?w))"
      let ?a = "at_bridge (writer_ref ?w) (\<lambda>_. snd ?d) a"
      have same: "tags (heap ?a x) = tags (heap a x)" for x by simp
      have "core ?a" using assms by (rule core_quiet) (simp_all only: same, simp_all)
      moreover have "still a ?a" using same by (auto simp: still_def tags_def)
      ultimately show ?thesis
        using put [of ?a "?w\<lparr>unsent := fst ?d\<rparr>"] Some True Nil
        by (simp add: writer_turn_def Let_def split_beta)
    qed
  qed
qed

lemma core_step:
  assumes "core a" "expected a ev" "app_step dp a ev = Some a'"
  shows "core a'"
proof (cases ev)
  case (Connect k)
  with assms show ?thesis
    by (auto simp: app_step_def new_handler_def handler_ok_def core_set_socket split: if_splits)
next
  case (Receive k msg)
  with assms show ?thesis using core_receive by (simp add: app_step_def)
next
  case (Reap)
  with assms core_reap show ?thesis by (auto simp: app_step_def reap_stale_bridges_def)
next
  case (WorkerTakes r)
  with assms show ?thesis by (auto simp: app_step_def elim!: core_quiet)
next
  case (WorkerFinishes r res)
  with assms show ?thesis by (auto simp: app_step_def elim!: core_quiet)
next
  case (Passes dt)
  with assms show ?thesis by (auto simp: app_step_def elim!: core_quiet split: if_splits)
next
  case (DtmfThreadRuns i)
  have "core (a\<lparr>dtmf_threads := xs\<rparr>)" for xs
    using assms(1) by (rule core_quiet) simp_all
  with DtmfThreadRuns assms show ?thesis by (auto simp: app_step_def core_dtmf split: if_splits)
next
  case (HandoffTurn r)
  with assms show ?thesis
    by (auto simp: app_step_def core_handoff split: option.splits HandoffPhase.splits)
qed (use assms in \<open>auto simp: app_step_def core_create core_socket_step core_writer core_at_bridge speaks_def
      split: if_splits option.splits\<close>)

lemma core_create_app: "core (create_app sett)"
  by (simp add: core_def registry_def create_app_def)

lemma reachable_core: "app_reachable dp sett a \<Longrightarrow> core a"
  by (induction rule: app_reachable.induct) (auto simp: core_create_app intro: core_step)

end
