(* ===== verification/App_Safety.thy ===== *)
theory App_Safety
  imports App_Registry
begin

text \<open>
  Invariants that tie a bridge to its session: every bridge's session is a run of the session
  model; its relay is open, or its handoff task alive, only after the session asked for the
  handoff; and a bridge still registered belongs to a session that has not failed.
\<close>

section \<open>The invariant of one bridge\<close>

definition fair :: "App \<Rightarrow> nat \<Rightarrow> outcall list \<Rightarrow> bool" where
  "fair a r tr \<longleftrightarrow>
     (relay_open (heap a r) \<longrightarrow> OnBridge \<in> set tr)
     \<and> (handoff_tasks a r \<noteq> None \<longrightarrow> OnBridge \<in> set tr)
     \<and> (map_of (bridges a) (group_id (heap a r)) = Some r \<longrightarrow> (\<forall>x. OnFail x \<notin> set tr))"

definition born :: "AgentSession \<Rightarrow> bool" where
  "born s \<longleftrightarrow> (\<exists>cid sett g conf leg.
     session_step\<^sup>*\<^sup>* (new_AgentSession cid sett default_FsmConfig g conf leg) s)"

definition alive :: "App \<Rightarrow> bool" where
  "alive a \<longleftrightarrow> (\<forall>r < next_ref a. born (session (heap a r)) \<and> fair a r (trace (session (heap a r))))
     \<and> (\<forall>r \<ge> next_ref a. handoff_tasks a r = None)"

lemma born_new: "born (new_AgentSession cid sett default_FsmConfig g conf leg)"
  unfolding born_def by blast

lemma born_steps: "born s \<Longrightarrow> session_step\<^sup>*\<^sup>* s s' \<Longrightarrow> born s'"
  unfolding born_def by (meson rtranclp_trans)

text \<open>What \<open>fair\<close> depends on.\<close>

lemma fair_mono:
  assumes "fair a r tr" "relay_open (heap a' r) \<Longrightarrow> relay_open (heap a r)"
    "handoff_tasks a' r \<noteq> None \<Longrightarrow> handoff_tasks a r \<noteq> None"
    "group_id (heap a' r) = group_id (heap a r)"
    "map_of (bridges a') (group_id (heap a r)) = Some r \<Longrightarrow> map_of (bridges a) (group_id (heap a r)) = Some r"
  shows "fair a' r tr"
  using assms by (simp add: fair_def)

lemma fair_append: "fair a r tr \<Longrightarrow> \<forall>x. OnFail x \<notin> set cs \<Longrightarrow> fair a r (tr @ cs)"
  by (auto simp: fair_def)

section \<open>A running session keeps it\<close>

lemma fair_hook_other:
  assumes "hook dp r (tr, a) (tr', a')" "fair a x t" "x \<noteq> r"
  shows "fair a' x t"
  using assms(1)
proof cases
  case (failed reason)
  then show ?thesis
    using assms(2) by (auto elim!: fair_mono split: option.splits if_splits)
qed (use assms(2,3) in \<open>auto elim!: fair_mono\<close>)

lemma fair_hook_self:
  assumes "hook dp r (tr, a) (tr', a')" "fair a r tr" "registry a" "r < next_ref a"
  shows "fair a' r tr'"
  using assms(1)
proof cases
  case (failed reason)
  let ?g = "group_id (heap a r)"
  have a': "a' = teardown_group dp ?g (Some reason) True a"
    using failed registry_wired [OF assms(3,4)] by simp
  have tr': "tr' = tr @ [OnFail reason]" using failed by simp
  show ?thesis unfolding a' tr' using assms(2) by (auto simp: fair_def split: option.split)
qed (use assms(2) in \<open>auto simp: fair_def\<close>)

lemma hook_tasks: "hook dp r (tr, a) (tr', a') \<Longrightarrow> x \<noteq> r \<Longrightarrow> handoff_tasks a' x = handoff_tasks a x"
  by (erule hook.cases) (auto split: option.split)

lemma alive_ran:
  assumes "session_ran dp r a a'" "alive a" "core a" "r < next_ref a"
  shows "alive a'"
proof -
  let ?s = "session (heap a r)"
  from assms(1) obtain s' a2 where steps: "session_step\<^sup>*\<^sup>* ?s s'"
    and hooks: "(hook dp r)\<^sup>*\<^sup>* (trace ?s, a) (trace s', a2)" and a': "a' = put_session r s' a2"
    by (auto simp: session_ran_def)
  define Q where "Q p \<longleftrightarrow> registry (snd p) \<and> next_ref (snd p) = next_ref a
     \<and> (\<forall>x. session (heap (snd p) x) = session (heap a x)) \<and> fair (snd p) r (fst p)
     \<and> (\<forall>x < next_ref a. x \<noteq> r \<longrightarrow> fair (snd p) x (trace (session (heap a x))))
     \<and> (\<forall>x \<ge> next_ref a. handoff_tasks (snd p) x = None)" for p
  have Q_step: "Q y" if "Q x" "hook dp r x y" for x y
  proof -
    obtain tr b tr' b' where xy: "x = (tr, b)" "y = (tr', b')" by fastforce
    have h: "hook dp r (tr, b) (tr', b')" using that(2) xy by simp
    show ?thesis
      using that(1) registry_hook [OF h] fair_hook_other [OF h] fair_hook_self [OF h]
        hook_session [OF h] still_next [OF still_hook [OF h]] hook_tasks [OF h] assms(4)
      by (auto simp: Q_def xy)
  qed
  have "Q (trace ?s, a)"
    using assms(2-4) by (auto simp: Q_def alive_def core_registry)
  then have Q: "Q (trace s', a2)"
    by (rule rtranclp_keeps [OF hooks]) (rule Q_step)
  have "fair a' x t" if "fair a2 x t" for x t
    using that by (rule fair_mono) (simp_all add: a' put_session_def split: if_splits)
  then show ?thesis
    using Q assms(2,4) born_steps [OF _ steps]
    by (auto simp: alive_def Q_def a' put_session_def)
qed

section \<open>Every step keeps it\<close>

definition life :: "CallBridge \<Rightarrow> AgentSession \<times> bool \<times> string" where
  "life b = (session b, relay_open b, group_id b)"

lemma alive_same:
  assumes "alive a" "next_ref a' = next_ref a" "\<And>x. life (heap a' x) = life (heap a x)"
    "\<And>x. handoff_tasks a' x \<noteq> None \<Longrightarrow> handoff_tasks a x \<noteq> None"
    "\<And>g x. map_of (bridges a') g = Some x \<Longrightarrow> map_of (bridges a) g = Some x"
  shows "alive a'"
proof -
  have "fair a' x t" if "fair a x t" for x t
    using that assms(3) [of x] assms(4) [of x] assms(5) [of "group_id (heap a x)" x]
    by (auto simp: life_def elim!: fair_mono)
  moreover have "handoff_tasks a' x = None" if "handoff_tasks a x = None" for x
    using assms(4) [of x] that by (cases "handoff_tasks a' x") auto
  ultimately show ?thesis
    using assms(1,3) by (auto simp: alive_def assms(2) life_def)
qed

lemma life_ops [simp]:
  "life (relay_to_user u b) = life b" "life (tee_probe u b) = life b" "life (on_user_audio u b) = life b"
  "life (play_to_agent ord s b) = life b" "life (bind_user sid b) = life b" "life (bind_agent sid l b) = life b"
  "life (record_frame u b) = life b" "life (probe_begins b) = life b" "life (probe_ends b) = life b"
  "life (snd (probe_reads b)) = life b" "life (snd (drain leg b)) = life b" "life (close_bridge b) = life b"
  "life (b\<lparr>user_stream_sid := x\<rparr>) = life b" "life (b\<lparr>reconnecting := y\<rparr>) = life b"
  "life (b\<lparr>reconnect_since := z\<rparr>) = life b"
  by (auto simp: life_def bridge_op_defs record_frame_def drain_def split: option.splits list.splits Leg.splits)

lemma alive_at_bridge: "alive a \<Longrightarrow> (\<And>b. life (f b) = life b) \<Longrightarrow> alive (at_bridge r f a)"
  by (erule alive_same) simp_all

lemma alive_set_socket: "alive a \<Longrightarrow> alive (set_socket k s a)"
  by (erule alive_same) simp_all

lemma alive_teardown: "alive a \<Longrightarrow> alive (teardown_group dp g reason hang a)"
  by (erule alive_same) (auto split: option.splits if_splits)

lemma alive_reap: "alive a \<Longrightarrow> alive (snd (reap_over dp now xs a))"
  by (induction xs arbitrary: a) (auto simp: alive_teardown split_beta)

lemma alive_create: "alive a \<Longrightarrow> alive (snd (create_call dp req g a))"
  by (erule alive_same)
    (auto simp: create_call_def twilio_def ring_user_leg_def Let_def split: option.splits if_splits)

lemma alive_dtmf: "alive a \<Longrightarrow> alive (dtmf_thread dp t a)"
  by (erule alive_same)
    (auto simp: dtmf_thread_def twilio_def split: option.splits if_splits)

lemma alive_redial: "alive a \<Longrightarrow> alive (snd (redial_agent_leg dp g a))"
  by (erule alive_same) simp_all

lemma shut_fields [simp]:
  "heap (shut_bridge r a) = (heap a)(r := close_bridge (heap a r))" "bridges (shut_bridge r a) = bridges a"
  "next_ref (shut_bridge r a) = next_ref a" "sockets (shut_bridge r a) = sockets a"
  "handoff_tasks (shut_bridge r a) = handoff_tasks a" "twilio_log (shut_bridge r a) = twilio_log a"
  "user_numbers (shut_bridge r a) = user_numbers a" "call_meta (shut_bridge r a) = call_meta a"
  "has_twilio (shut_bridge r a) = has_twilio a" "wire (shut_bridge r a) = wire a"
  by (simp_all add: shut_bridge_def)

lemma alive_replaced: "alive a \<Longrightarrow> alive (replaced_leg g r a)"
  by (erule alive_same) (auto simp: replaced_leg_def split: if_splits)

lemma alive_finish: "alive a \<Longrightarrow> alive (finish_agent_leg dp h a)"
proof (cases "h_bridge h")
  case (Some r)
  then show "alive a \<Longrightarrow> ?thesis"
    by (cases rule: finish_cases [OF Some, of a dp])
      (simp_all add: alive_replaced alive_redial alive_teardown)
qed (simp add: finish_agent_leg_def)

lemma alive_handoff:
  assumes "alive a" "handoff_tasks a r \<noteq> None" shows "alive (handoff_turn dp r left a)"
proof -
  have r: "r < next_ref a" using assms unfolding alive_def by (meson not_less)
  let ?a = "handoff_turn dp r left a"
  have same: "next_ref ?a = next_ref a" "bridges ?a = bridges a" "session (heap ?a x) = session (heap a x)"
    "group_id (heap ?a x) = group_id (heap a x)" for x
    by (simp_all add: handoff_turn_eq Let_def sms_eq split: option.split)
  have other: "relay_open (heap ?a x) = relay_open (heap a x)" "handoff_tasks ?a x = handoff_tasks a x"
    if "x \<noteq> r" for x
    using that by (simp_all add: handoff_turn_eq Let_def sms_eq split: option.split)
  have "fair ?a x t" if "fair a x t" for x t
    using that assms(2) other [of x] by (cases "x = r") (auto simp: fair_def same)
  moreover have "handoff_tasks ?a x = None" if "x \<ge> next_ref a" for x
    using that r assms(1) other(2) [of x] by (auto simp: alive_def)
  ultimately show ?thesis using assms(1) by (auto simp: alive_def same)
qed

lemma alive_new_leg:
  assumes "alive a" "core a" "map_of (bridges a) g = None"
  shows "alive (snd (new_agent_leg cid g sid h a))"
proof -
  let ?a = "snd (new_agent_leg cid g sid h a)" and ?r = "next_ref a"
  have eq: "heap ?a = (heap a)(?r := agent_bridge a cid g sid)" "next_ref ?a = ?r + 1"
    "bridges ?a = AList.update g ?r (bridges a)" "handoff_tasks ?a = handoff_tasks a"
    by (simp_all add: new_agent_leg_def Let_def)
  have "fair ?a x t" if "fair a x t" "x < ?r" for x t
    using that by (auto simp: fair_def eq update_conv' split: if_splits)
  moreover have "fair ?a ?r []"
    using assms(1) by (simp add: fair_def eq alive_def)
  moreover have "born (make_session a cid g)" "trace (make_session a cid g) = []"
    by (simp_all add: make_session_def born_new)
  ultimately show ?thesis
    using assms(1) by (auto simp: alive_def eq less_Suc_eq)
qed

lemma alive_start:
  assumes "alive a" "core a" shows "alive (on_start k h m a)"
proof -
  have "alive (attach_user k h' sid n a)" for h' sid n
    using assms(1) by (auto simp: attach_user_def alive_set_socket alive_at_bridge split: option.split)
  moreover have "alive (snd (rebind_agent_leg r g sid h a))" for r g sid
    using assms(1) by (simp add: rebind_agent_leg_def alive_at_bridge)
  ultimately show ?thesis
    using alive_new_leg [OF assms]
    by (auto simp: on_start_def Let_def split_beta alive_set_socket split: option.split)
qed

lemma core_took: "core a \<Longrightarrow> core (took_frame r ulaw a)"
  by (simp add: took_frame_def core_at_bridge)

lemma alive_took: "alive a \<Longrightarrow> alive (took_frame r ulaw a)"
  by (simp add: took_frame_def alive_at_bridge)

lemma alive_media:
  assumes "alive a" "core a" "handler_ok a h" "on_agent_media dp k h b64 a = Some a'"
  shows "alive a'"
proof (cases "h_bridge h")
  case (Some r)
  with assms(3) have r: "r < next_ref a" by (simp add: handler_ok_def)
  show ?thesis
  proof (cases "b64decode b64")
    case (Some ulaw)
    let ?a = "at_bridge r (record_frame ulaw) a"
    obtain res a2 where run: "on_agent_audio dp r ulaw ?a = Some (res, a2)"
      and a': "a' = a2 \<or> a' = set_socket k (Closing h) a2"
      using assms(4) Some \<open>h_bridge h = Some r\<close>
      by (auto simp: on_agent_media_def split: option.splits sum.splits)
    have "alive a2"
      by (rule alive_ran [OF agent_audio_ran [OF run]])
        (use assms(1,2) r in \<open>simp_all add: alive_took core_took alive_at_bridge core_at_bridge\<close>,
         simp add: took_frame_def)
    with a' show ?thesis by (auto simp: alive_set_socket)
  qed (use assms Some in \<open>auto simp: on_agent_media_def alive_set_socket\<close>)
qed (use assms in \<open>simp add: on_agent_media_def\<close>)

lemma alive_receive:
  assumes "alive a" "core a" "receive dp k msg a = Some a'"
  shows "alive a'"
proof (cases "sockets a k")
  case (Reading h)
  then have "handler_ok a h" using core_socket [OF assms(2), of k] by simp
  with Reading assms show ?thesis
    by (cases msg) (auto simp: receive_def alive_set_socket alive_start intro: alive_media)
next
  case (Relaying h r)
  with assms show ?thesis
    by (cases msg) (auto simp: receive_def alive_set_socket alive_at_bridge split: option.splits)
qed (use assms in \<open>auto simp: receive_def\<close>)

lemma alive_socket_step:
  assumes "alive a" "core a" shows "alive (socket_step dp k a)"
proof (cases "sockets a k")
  case (Attaching h sid n)
  with assms(1) show ?thesis
    by (auto simp: socket_step_def attach_user_def alive_set_socket alive_at_bridge split: option.split)
next
  case (UserClosing h r)
  have "alive (user_unbound dp r a)"
    by (rule alive_ran [OF user_unbound_ran])
      (use assms UserClosing core_socket [OF assms(2), of k] in \<open>simp_all add: alive_at_bridge core_at_bridge\<close>)
  with UserClosing show ?thesis by (simp add: socket_step_def user_leg_gone_eq alive_set_socket)
qed (use assms in \<open>simp_all add: socket_step_def alive_set_socket alive_finish\<close>)

lemma alive_writer: "alive a \<Longrightarrow> alive (writer_turn k i a)"
proof (erule alive_same)
  show "next_ref (writer_turn k i a) = next_ref a" "life (heap (writer_turn k i a) x) = life (heap a x)"
    "handoff_tasks (writer_turn k i a) x \<noteq> None \<Longrightarrow> handoff_tasks a x \<noteq> None"
    "map_of (bridges (writer_turn k i a)) g = Some x \<Longrightarrow> map_of (bridges a) g = Some x" for g x
    by (auto simp: writer_turn_def Let_def split_beta split: option.splits list.splits if_splits)
qed

lemma alive_step:
  assumes "alive a" "core a" "app_step dp a ev = Some a'"
  shows "alive a'"
proof (cases ev)
  case (HandoffTurn r)
  with assms show ?thesis
    by (auto simp: app_step_def alive_handoff split: option.splits HandoffPhase.splits)
next
  case (DtmfThreadRuns i)
  have "alive (a\<lparr>dtmf_threads := xs\<rparr>)" for xs
    using assms(1) by (rule alive_same) simp_all
  with DtmfThreadRuns assms show ?thesis by (auto simp: app_step_def alive_dtmf split: if_splits)
next
  case (Receive k msg)
  with assms show ?thesis using alive_receive by (simp add: app_step_def)
next
  case (WorkerTakes r)
  with assms show ?thesis by (auto simp: app_step_def elim!: alive_same)
next
  case (WorkerFinishes r res)
  with assms show ?thesis by (auto simp: app_step_def elim!: alive_same)
next
  case (Passes dt)
  with assms show ?thesis by (auto simp: app_step_def elim!: alive_same split: if_splits)
qed (use assms in \<open>auto simp: app_step_def alive_create alive_socket_step alive_writer alive_at_bridge
      alive_set_socket speaks_def alive_reap reap_stale_bridges_def split: if_splits option.splits\<close>)

lemma reachable_alive: "app_reachable dp sett a \<Longrightarrow> alive a"
proof (induction rule: app_reachable.induct)
  case created
  show ?case by (simp add: alive_def create_app_def)
next
  case (stepped a ev a')
  then show ?case using alive_step reachable_core by blast
qed

end
