(* ===== verification/App_Relay.thy ===== *)
theory App_Relay
  imports App_Safety
begin

text \<open>
  The relay: nothing reaches the user's leg, not even the queue toward it, before the relay of
  its bridge is open; and an open relay stays open.
\<close>

section \<open>The invariant\<close>

definition gate :: "CallBridge \<Rightarrow> bool" where
  "gate b \<longleftrightarrow> (\<not> relay_open b \<longrightarrow> outbound_user b = [])"

definition writer_gated :: "App \<Rightarrow> Writer \<Rightarrow> bool" where
  "writer_gated a w \<longleftrightarrow>
     (writer_leg w = UserLeg \<longrightarrow> unsent w \<noteq> [] \<longrightarrow> relay_open (heap a (writer_ref w)))"

definition sent_gated :: "App \<Rightarrow> nat \<times> Leg \<times> nat \<times> MediaMsg \<Rightarrow> bool" where
  "sent_gated a x = (case x of (k, leg, r, msg) \<Rightarrow>
     r < next_ref a \<and> (leg = UserLeg \<longrightarrow> relay_open (heap a r)))"

definition gated :: "App \<Rightarrow> bool" where
  "gated a \<longleftrightarrow> (\<forall>r. gate (heap a r)) \<and> (\<forall>x \<in> set (wire a). sent_gated a x)
     \<and> (\<forall>k h. handler_of (sockets a k) = Some h \<longrightarrow> (\<forall>w \<in> set (writers h). writer_gated a w))"

text \<open>\<open>a'\<close> has every relay open that \<open>a\<close> has, and no new traffic.\<close>

definition opens :: "App \<Rightarrow> App \<Rightarrow> bool" where
  "opens a a' \<longleftrightarrow> next_ref a \<le> next_ref a' \<and> wire a' = wire a
     \<and> (\<forall>r < next_ref a. relay_open (heap a r) \<longrightarrow> relay_open (heap a' r))
     \<and> (\<forall>r. gate (heap a r) \<longrightarrow> gate (heap a' r))"

lemma opens_refl [simp]: "opens a a"
  by (simp add: opens_def)

lemma opens_trans: "opens a b \<Longrightarrow> opens b c \<Longrightarrow> opens a c"
  by (simp add: opens_def)

lemma sent_opens: "opens a a' \<Longrightarrow> sent_gated a x \<Longrightarrow> sent_gated a' x"
  by (auto simp: opens_def sent_gated_def)

lemma writer_opens:
  "opens a a' \<Longrightarrow> writer_ref w < next_ref a \<Longrightarrow> writer_gated a w \<Longrightarrow> writer_gated a' w"
  by (simp add: opens_def writer_gated_def)

lemma handler_writers: "core a \<Longrightarrow> handler_of (sockets a k) = Some h \<Longrightarrow> handler_ok a h"
  using core_socket [of a k] by (cases "sockets a k") auto

lemma gated_opens:
  assumes "gated a" "core a" "opens a a'"
    and new: "\<And>k h w. handler_of (sockets a' k) = Some h \<Longrightarrow> sockets a' k \<noteq> sockets a k
      \<Longrightarrow> w \<in> set (writers h) \<Longrightarrow> unsent w = [] \<or> (\<exists>h'. handler_of (sockets a k) = Some h' \<and> w \<in> set (writers h'))"
  shows "gated a'"
proof -
  have old: "writer_gated a' w" if "handler_of (sockets a k) = Some h" "w \<in> set (writers h)" for k h w
    using that assms(1) writer_opens [OF assms(3), of w] handler_writers [OF assms(2) that(1)]
    by (auto simp: gated_def handler_ok_def)
  have "writer_gated a' w" if "handler_of (sockets a' k) = Some h" "w \<in> set (writers h)" for k h w
  proof (cases "sockets a' k = sockets a k")
    case True
    with that old show ?thesis by simp
  next
    case False
    from new [OF that(1) False that(2)] old show ?thesis by (auto simp: writer_gated_def)
  qed
  moreover have "\<forall>r. gate (heap a' r)" "wire a' = wire a"
    using assms(1,3) by (auto simp: gated_def opens_def)
  ultimately show ?thesis
    using assms(1) sent_opens [OF assms(3)] by (simp add: gated_def)
qed

lemma gated_same:
  assumes "gated a" "core a" "opens a a'" "sockets a' = sockets a"
  shows "gated a'"
  using assms(1-3) by (rule gated_opens) (simp add: assms(4))

section \<open>Operations that only open relays\<close>

lemma opens_at_bridge [simp]:
  "opens a (at_bridge r f a) \<longleftrightarrow>
     (r < next_ref a \<longrightarrow> relay_open (heap a r) \<longrightarrow> relay_open (f (heap a r)))
     \<and> (gate (heap a r) \<longrightarrow> gate (f (heap a r)))"
  by (auto simp: opens_def)

lemma gate_ops [simp]:
  "gate b \<Longrightarrow> gate (relay_to_user u b)" "gate (tee_probe u b) = gate b" "gate (on_user_audio u b) = gate b"
  "gate (play_to_agent ord s b) = gate b" "gate (bind_user sid b) = gate b" "gate (bind_agent sid l b) = gate b"
  "gate (record_frame u b) = gate b" "gate (probe_begins b) = gate b" "gate (probe_ends b) = gate b"
  "gate (snd (probe_reads b)) = gate b" "gate b \<Longrightarrow> gate (snd (drain leg b))" "gate (close_bridge b) = gate b"
  "gate (b\<lparr>user_stream_sid := x\<rparr>) = gate b" "gate (b\<lparr>reconnecting := y\<rparr>) = gate b"
  "gate (b\<lparr>reconnect_since := z\<rparr>) = gate b" "gate (b\<lparr>session := s'\<rparr>) = gate b"
  "gate (b\<lparr>handoff_started := y\<rparr>) = gate b" "gate (b\<lparr>relay_open := True\<rparr>)"
  by (auto simp: gate_def bridge_op_defs record_frame_def drain_def split: option.splits list.splits Leg.splits)

lemma relay_ops [simp]:
  "relay_open (relay_to_user u b) = relay_open b" "relay_open (tee_probe u b) = relay_open b"
  "relay_open (on_user_audio u b) = relay_open b" "relay_open (play_to_agent ord s b) = relay_open b"
  "relay_open (bind_user sid b) = relay_open b" "relay_open (bind_agent sid l b) = relay_open b"
  "relay_open (record_frame u b) = relay_open b" "relay_open (probe_begins b) = relay_open b"
  "relay_open (probe_ends b) = relay_open b" "relay_open (snd (probe_reads b)) = relay_open b"
  "relay_open (snd (drain leg b)) = relay_open b"
  by (auto simp: bridge_op_defs record_frame_def drain_def split: option.splits list.splits Leg.splits)

lemma opens_teardown [simp]: "opens a (teardown_group dp g reason hang a)"
  by (auto simp: opens_def split: option.split)

lemma opens_hook: "hook dp r (tr, a) (tr', a') \<Longrightarrow> opens a a'"
  by (erule hook.cases) (auto simp: opens_def split: option.split)

lemma opens_ran:
  assumes "session_ran dp r a a'" shows "opens a a'"
  using assms opens_refl [of a]
proof (rule ran_keeps [where P = "opens a"])
  show "opens a b'" if "opens a b" "hook dp r (tr, b) (tr', b')" for tr b tr' b'
    using opens_trans [OF that(1) opens_hook [OF that(2)]] .
  show "opens a (put_session r s b)" if "opens a b" for b s
    using that by (auto elim!: opens_trans simp: put_session_def)
qed

lemma opens_reap: "opens a (snd (reap_over dp now xs a))"
  by (induction xs arbitrary: a) (auto simp: split_beta intro: opens_trans [OF opens_teardown])

lemma opens_create: "opens a (snd (create_call dp req g a))"
  by (auto simp: opens_def create_call_def ring_user_leg_def twilio_def Let_def split: option.split)

lemma opens_dtmf: "opens a (dtmf_thread dp t a)"
  by (auto simp: opens_def dtmf_thread_def twilio_def split: option.split)

lemma opens_redial: "opens a (snd (redial_agent_leg dp g a))"
  by (simp add: opens_def)

lemma opens_replaced: "opens a (replaced_leg g r a)"
  by (auto simp: opens_def replaced_leg_def)

lemma opens_finish: "opens a (finish_agent_leg dp h a)"
proof (cases "h_bridge h")
  case (Some r)
  then show ?thesis
    by (cases rule: finish_cases [OF Some, of a dp])
      (simp_all add: opens_trans [OF opens_redial opens_replaced] opens_trans [OF opens_redial opens_teardown])
qed (simp add: finish_agent_leg_def)

lemma opens_handoff: "opens a (handoff_turn dp r left a)"
  by (auto simp: opens_def handoff_turn_eq Let_def sms_eq split: option.split)

lemma opens_took [simp]: "opens a (took_frame r ulaw a)"
  by (simp add: took_frame_def)

lemma opens_media:
  assumes "on_agent_audio dp r ulaw (at_bridge r (record_frame ulaw) a) = Some (res, a')"
  shows "opens a a'"
  by (rule opens_trans [OF _ opens_trans [OF opens_took opens_ran [OF agent_audio_ran [OF assms]]]]) simp

lemma opens_gone: "opens a (user_unbound dp r a)"
  by (rule opens_trans [OF _ opens_ran [OF user_unbound_ran]]) simp

section \<open>Every step keeps it\<close>

lemma opens_socket [simp]: "opens a (set_socket k s a') \<longleftrightarrow> opens a a'"
  by (simp add: opens_def)

lemma gated_set_socket:
  assumes "gated a" "core a" "opens a a'" "sockets a' = sockets a"
    "\<And>h w. handler_of s = Some h \<Longrightarrow> w \<in> set (writers h) \<Longrightarrow>
      unsent w = [] \<or> (\<exists>h'. handler_of (sockets a k) = Some h' \<and> w \<in> set (writers h'))"
  shows "gated (set_socket k s a')"
  using assms(1,2)
  by (rule gated_opens) (use assms(3-5) in \<open>auto split: if_splits\<close>)

lemma opens_new_leg: "core a \<Longrightarrow> opens a (snd (new_agent_leg cid g sid h a))"
  by (auto simp: opens_def new_agent_leg_def Let_def gate_def)

lemma gated_attach:
  assumes "gated a" "core a" "\<exists>h'. handler_of (sockets a k) = Some h' \<and> writers h = writers h'"
  shows "gated (attach_user k h sid n a)"
  using assms
  by (auto simp: attach_user_def intro!: gated_set_socket split: option.split)

lemma gated_start:
  assumes "gated a" "core a" "sockets a k = Reading h"
  shows "gated (on_start k h m a)"
proof -
  let ?g = "start_group m" and ?sid = "py_or (start_stream m) ''''"
    and ?cid = "py_or (start_call m) ''unknown''"
  have attach: "gated (attach_user k (h\<lparr>h_group := ?g\<rparr>) ?sid 0 a)"
    by (rule gated_attach) (use assms in auto)
  have leg: "gated (set_socket k (Reading (fst p)) (snd p))"
    if "p = rebind_agent_leg r ?g ?sid h a \<or> p = new_agent_leg ?cid ?g ?sid h a" for p r
  proof (rule gated_set_socket [OF assms(1,2)])
    show "opens a (snd p)"
      using that opens_new_leg [OF assms(2)] by (auto simp: rebind_agent_leg_def gate_def bind_agent_def)
    show "sockets (snd p) = sockets a"
      using that by (auto simp: rebind_agent_leg_def new_agent_leg_def Let_def)
    show "unsent w = [] \<or> (\<exists>h''. handler_of (sockets a k) = Some h'' \<and> w \<in> set (writers h''))"
      if "handler_of (Reading (fst p)) = Some h'" "w \<in> set (writers h')" for h' w
      using that \<open>p = _ \<or> p = _\<close> assms(3)
      by (auto simp: rebind_agent_leg_def new_agent_leg_def Let_def agent_writer_def)
  qed
  have legs: "gated (set_socket k (Reading (fst (rebind_agent_leg r ?g ?sid h a))) (snd (rebind_agent_leg r ?g ?sid h a)))"
    "gated (set_socket k (Reading (fst (new_agent_leg ?cid ?g ?sid h a))) (snd (new_agent_leg ?cid ?g ?sid h a)))" for r
    by (rule leg, rule disjI1, rule refl, rule leg, rule disjI2, rule refl)
  show ?thesis
    by (simp add: on_start_def Let_def split_beta attach legs split: option.split)
qed

lemma gated_agent_media:
  assumes "gated a" "core a" "sockets a k = Reading h" "on_agent_media dp k h b64 a = Some a'"
  shows "gated a'"
proof (cases "h_bridge h")
  case (Some r)
  show ?thesis
  proof (cases "b64decode b64")
    case (Some ulaw)
    let ?a = "at_bridge r (record_frame ulaw) a"
    obtain res a2 where run: "on_agent_audio dp r ulaw ?a = Some (res, a2)"
      and a': "a' = a2 \<or> a' = set_socket k (Closing h) a2"
      using assms(4) Some \<open>h_bridge h = Some r\<close>
      by (auto simp: on_agent_media_def split: option.splits sum.splits)
    have "sockets a2 = sockets (took_frame r ulaw ?a)"
      using still_ran [OF agent_audio_ran [OF run]] by (simp add: still_def)
    then have sock: "sockets a2 = sockets a" by (simp add: took_frame_def)
    with a' opens_media [OF run] show ?thesis
      by (auto intro: gated_same [OF assms(1,2)] gated_set_socket [OF assms(1,2)])
  qed (use assms Some in \<open>auto simp: on_agent_media_def intro: gated_set_socket\<close>)
qed (use assms in \<open>simp add: on_agent_media_def\<close>)

lemma gated_receive:
  assumes "gated a" "core a" "receive dp k msg a = Some a'"
  shows "gated a'"
proof (cases "sockets a k")
  case (Reading h)
  show ?thesis
  proof (cases msg)
    case (Start m)
    with Reading assms(3) have "a' = on_start k h m a" by (simp add: receive_def)
    with gated_start [OF assms(1,2) Reading] show ?thesis by simp
  next
    case (Media b64)
    with Reading assms(3) gated_agent_media [OF assms(1,2) Reading] show ?thesis by (simp add: receive_def)
  qed (use assms Reading in \<open>auto simp: receive_def intro!: gated_set_socket\<close>)
next
  case (Relaying h r)
  with assms show ?thesis
    by (cases msg) (auto simp: receive_def intro!: gated_set_socket intro: gated_same split: option.splits)
qed (use assms in \<open>auto simp: receive_def\<close>)

lemma gated_socket_step:
  assumes "gated a" "core a" shows "gated (socket_step dp k a)"
proof (cases "sockets a k")
  case (Attaching h sid n)
  with assms show ?thesis by (auto simp: socket_step_def intro: gated_attach)
next
  case (UserClosing h r)
  have "sockets (user_unbound dp r a) = sockets (at_bridge r (\<lambda>b. b\<lparr>user_stream_sid := None\<rparr>) a)"
    using still_ran [OF user_unbound_ran] by (simp add: still_def)
  with UserClosing assms opens_gone show ?thesis
    by (auto simp: socket_step_def user_leg_gone_eq intro!: gated_set_socket)
next
  case (Closing h)
  have "sockets (finish_agent_leg dp h a) = sockets a"
  proof (cases "h_bridge h")
    case (Some r)
    then show ?thesis
      by (cases rule: finish_cases [OF Some, of a dp]) (simp_all add: replaced_leg_def)
  qed (simp add: finish_agent_leg_def)
  with Closing assms opens_finish show ?thesis
    by (auto simp: socket_step_def intro!: gated_set_socket)
qed (use assms in \<open>simp_all add: socket_step_def\<close>)

lemma gated_writer:
  assumes "gated a" "core a" shows "gated (writer_turn k i a)"
proof (cases "handler_of (sockets a k)")
  case (Some h)
  show ?thesis
  proof (cases "i < length (writers h)")
    case True
    let ?w = "writers h ! i"
    have w: "?w \<in> set (writers h)" using True by simp
    have ref: "writer_ref ?w < next_ref a"
      using handler_writers [OF assms(2) Some] w by (auto simp: handler_ok_def)
    have wg: "writer_gated a ?w" using assms(1) Some w by (auto simp: gated_def)
    have put: "gated (set_socket k (with_handler (h\<lparr>writers := (writers h)[i := w']\<rparr>) (sockets a k)) a')"
      if "\<forall>r. gate (heap a' r)" "\<forall>r. relay_open (heap a' r) = relay_open (heap a r)"
        "next_ref a' = next_ref a" "sockets a' = sockets a" "writer_gated a' w'"
        "\<forall>x \<in> set (wire a'). sent_gated a x" for a' w'
    proof -
      have same: "writer_gated a' x = writer_gated a x" "sent_gated a' y = sent_gated a y" for x y
        using that(2,3) by (simp_all add: writer_gated_def sent_gated_def)
      have "writer_gated a' x" if "x \<in> set ((writers h)[i := w'])" for x
      proof -
        from that have "x \<in> set (writers h) \<or> x = w'"
          using set_update_subset_insert [of "writers h" i w'] by auto
        then show ?thesis using assms(1) Some \<open>writer_gated a' w'\<close> by (auto simp: gated_def same)
      qed
      then show ?thesis
        using that assms(1) Some by (auto simp: gated_def same writer_gated_def sent_gated_def)
    qed
    show ?thesis
    proof (cases "unsent ?w")
      case Nil
      let ?d = "drain (writer_leg ?w) (heap a (writer_ref ?w))"
      let ?a = "at_bridge (writer_ref ?w) (\<lambda>_. snd ?d) a"
      have "gate (heap a (writer_ref ?w))" using assms(1) by (simp add: gated_def)
      then have "writer_gated ?a (?w\<lparr>unsent := fst ?d\<rparr>)"
        by (auto simp: writer_gated_def drain_def drain_user_def gate_def)
      moreover have "\<forall>r. gate (heap ?a r)" "\<forall>x \<in> set (wire ?a). sent_gated a x"
        using assms(1) by (simp_all add: gated_def)
      ultimately show ?thesis
        using Some True Nil put [of ?a "?w\<lparr>unsent := fst ?d\<rparr>"]
        by (simp add: writer_turn_def Let_def split_beta)
    next
      case (Cons msg rest)
      let ?a = "a\<lparr>wire := wire a @ [(k, writer_leg ?w, writer_ref ?w, msg)]\<rparr>"
      have "writer_gated ?a (?w\<lparr>unsent := rest\<rparr>)" "sent_gated a (k, writer_leg ?w, writer_ref ?w, msg)"
        using wg Cons ref by (auto simp: writer_gated_def sent_gated_def)
      moreover have "\<forall>r. gate (heap ?a r)" "\<forall>x \<in> set (wire a). sent_gated a x"
        using assms(1) by (simp_all add: gated_def)
      ultimately show ?thesis
        using Some True Cons put [of ?a "?w\<lparr>unsent := rest\<rparr>"]
        by (simp add: writer_turn_def Let_def)
    qed
  qed (use assms Some in \<open>simp add: writer_turn_def\<close>)
qed (use assms in \<open>simp add: writer_turn_def\<close>)

lemma gated_step:
  assumes "gated a" "core a" "app_step dp a ev = Some a'"
  shows "gated a'"
proof (cases ev)
  case (Connect k)
  with assms show ?thesis
    by (auto simp: app_step_def new_handler_def intro!: gated_set_socket split: if_splits)
next
  case (Receive k msg)
  with assms show ?thesis using gated_receive by (simp add: app_step_def)
next
  case (SocketTurn k)
  with assms show ?thesis by (auto simp: app_step_def gated_socket_step)
next
  case (WriterTurn k i)
  with assms show ?thesis by (auto simp: app_step_def gated_writer)
next
  case other: (HandoffTurn r)
  have "opens a (handoff_turn dp r n a)" "sockets (handoff_turn dp r n a) = sockets a" for n
    by (auto simp: opens_handoff) (simp add: handoff_turn_eq Let_def sms_eq split: option.split)
  with other assms show ?thesis
    by (auto simp: app_step_def intro: gated_same split: option.splits HandoffPhase.splits)
next
  case (DtmfThreadRuns i)
  have threads: "gated (dtmf_thread dp t (a\<lparr>dtmf_threads := xs\<rparr>))" for t xs
  proof (rule gated_same [OF assms(1,2)])
    show "opens a (dtmf_thread dp t (a\<lparr>dtmf_threads := xs\<rparr>))"
      using opens_dtmf [of "a\<lparr>dtmf_threads := xs\<rparr>" dp t] by (simp add: opens_def)
    show "sockets (dtmf_thread dp t (a\<lparr>dtmf_threads := xs\<rparr>)) = sockets a"
      by (simp add: dtmf_thread_def twilio_def split: option.split)
  qed
  from DtmfThreadRuns assms(1,3) show ?thesis
    by (auto simp: app_step_def threads split: if_splits)
next
  case Reap
  have "sockets (snd (reap_over dp now xs b)) = sockets b" for now xs b
    by (induction xs arbitrary: b) (auto simp: split_beta)
  with Reap assms opens_reap show ?thesis
    by (auto simp: app_step_def reap_stale_bridges_def intro: gated_same)
next
  case (CreateCall req g)
  have "sockets (snd (create_call dp req g a)) = sockets a"
    by (simp add: create_call_def ring_user_leg_def twilio_def Let_def split: option.split)
  with CreateCall assms opens_create show ?thesis
    by (auto simp: app_step_def intro: gated_same)
qed (use assms in \<open>auto simp: app_step_def speaks_def opens_def intro: gated_same split: if_splits option.splits\<close>)

lemma reachable_gated: "app_reachable dp sett a \<Longrightarrow> gated a"
proof (induction rule: app_reachable.induct)
  case created
  show ?case by (simp add: gated_def create_app_def gate_def new_CallBridge_def)
next
  case (stepped a ev a')
  then show ?case using gated_step reachable_core by blast
qed

end
