(* ===== verification/App_Phone.thy ===== *)
theory App_Phone
  imports App_Registry
begin

text \<open>
  What is asked of Twilio for one group: the texts its user gets, and how often the business
  is called.
\<close>

section \<open>Reading the log\<close>

fun texts :: "string \<Rightarrow> TwilioCall list \<Rightarrow> SmsBody list" where
  "texts g [] = []"
| "texts g (SendSms g' _ body # cs) = (if g' = g then body # texts g cs else texts g cs)"
| "texts g (_ # cs) = texts g cs"

fun dials :: "string \<Rightarrow> TwilioCall list \<Rightarrow> nat" where
  "dials g [] = 0"
| "dials g (PlaceCall _ _ g' # cs) = (if g' = g then 1 + dials g cs else dials g cs)"
| "dials g (_ # cs) = dials g cs"

lemma texts_append [simp]: "texts g (xs @ ys) = texts g xs @ texts g ys"
  by (induction g xs rule: texts.induct) simp_all

lemma dials_append [simp]: "dials g (xs @ ys) = dials g xs + dials g ys"
  by (induction g xs rule: dials.induct) simp_all

lemma fresh_silent: "fresh_group a g \<Longrightarrow> texts g (twilio_log a) = [] \<and> dials g (twilio_log a) = 0"
proof -
  have "Some g \<notin> call_group ` set xs \<Longrightarrow> texts g xs = [] \<and> dials g xs = 0" for xs
    by (induction g xs rule: texts.induct) auto
  then show "fresh_group a g \<Longrightarrow> ?thesis" by (simp add: fresh_group_def)
qed

lemma sms_traffic [simp]:
  "dials g' (sms_calls tw num g body) = 0"
  "texts g' (sms_calls tw num g body) =
     (if g' = g \<and> tw \<and> num \<noteq> None \<and> num \<noteq> Some '''' then [body] else [])"
  by (auto simp: sms_calls_def split: option.split)

lemma hang_up_traffic [simp]:
  "dials g (hang_up_calls tw sid) = 0" "texts g (hang_up_calls tw sid) = []"
  "dials g (hang_up_legs a s hang) = 0" "texts g (hang_up_legs a s hang) = []"
proof -
  show hu: "dials g (hang_up_calls tw sid) = 0" "texts g (hang_up_calls tw sid) = []" for tw sid
    by (auto simp: hang_up_calls_def split: option.split)
  show "dials g (hang_up_legs a s hang) = 0" "texts g (hang_up_legs a s hang) = []"
    by (simp_all add: hang_up_legs_def hu)
qed

section \<open>The invariant\<close>

definition told :: "SmsBody list \<Rightarrow> string option \<Rightarrow> bool" where
  "told xs number \<longleftrightarrow> set (butlast xs) \<subseteq> {ConnectedText} \<and> (number \<noteq> None \<longrightarrow> set xs \<subseteq> {ConnectedText})"

definition dialled :: "nat \<Rightarrow> CallMeta option \<Rightarrow> bool" where
  "dialled n meta \<longleftrightarrow> n \<le> 1 + MAX_REDIALS
     \<and> (case meta of None \<Rightarrow> True | Some m \<Rightarrow> n \<le> 1 + redials m \<and> redials m \<le> MAX_REDIALS)"

definition phone :: "App \<Rightarrow> bool" where
  "phone a \<longleftrightarrow> (\<forall>g. told (texts g (twilio_log a)) (user_numbers a g)
     \<and> dialled (dials g (twilio_log a)) (call_meta a g))"

lemma told_connected: "told xs number \<Longrightarrow> number \<noteq> None \<Longrightarrow> told (xs @ [ConnectedText]) number"
  by (auto simp: told_def dest: in_set_butlastD)

lemma told_fallback: "told xs number \<Longrightarrow> number \<noteq> None \<Longrightarrow> told (xs @ [body]) None"
  by (auto simp: told_def)

lemma told_forget: "told xs number \<Longrightarrow> told xs None"
  by (simp add: told_def)

lemma dialled_forget: "dialled n meta \<Longrightarrow> dialled n None"
  by (simp add: dialled_def)

lemma phone_same:
  assumes "phone a" "\<And>g. texts g (twilio_log a') = texts g (twilio_log a)"
    "\<And>g. dials g (twilio_log a') = dials g (twilio_log a)"
    "user_numbers a' = user_numbers a" "call_meta a' = call_meta a"
  shows "phone a'"
  using assms by (simp add: phone_def)

lemma phone_connected:
  assumes "phone a" "twilio_log a' = twilio_log a @ sms_calls (has_twilio a) (user_numbers a g) g ConnectedText"
    "user_numbers a' = user_numbers a" "call_meta a' = call_meta a"
  shows "phone a'"
  using assms by (auto simp: phone_def intro: told_connected)

lemma phone_teardown:
  assumes "phone a" shows "phone (teardown_group dp g reason hang a)"
proof -
  let ?a = "teardown_group dp g reason hang a"
  have "dials g' (teardown_calls a g reason hang) = 0" for g'
    by (auto simp: teardown_calls_def fallback_calls_def split: option.split)
  then have dials: "dials g' (twilio_log ?a) = dials g' (twilio_log a)" for g' by simp
  have "texts g' (teardown_calls a g reason hang) = []" if "g' \<noteq> g" for g'
    using that by (auto simp: teardown_calls_def fallback_calls_def split: option.split)
  moreover have "texts g (teardown_calls a g reason hang) = [] \<or> (\<exists>b n. user_numbers a g = Some n
      \<and> texts g (teardown_calls a g reason hang) = [b])"
    by (auto simp: teardown_calls_def fallback_calls_def split: option.split)
  moreover have t: "told (texts g' (twilio_log a)) (user_numbers a g')" for g'
    using assms by (simp add: phone_def)
  ultimately have "told (texts g' (twilio_log ?a)) (user_numbers ?a g')" for g'
    using told_forget [OF t [of g]] told_fallback [OF t [of g]] t [of g']
    by (cases "g' = g") auto
  moreover have "dialled (dials g' (twilio_log ?a)) (call_meta ?a g')" for g'
    using assms dialled_forget by (auto simp: phone_def dials simp del: teardown_fields(15))
  ultimately show ?thesis unfolding phone_def by blast
qed

section \<open>Every step keeps it\<close>

lemma phone_hook:
  assumes "phone a" "hook dp r (tr, a) (tr', a')" shows "phone a'"
  using assms(2)
proof cases
  case handoff_open
  show ?thesis
  proof (cases "notify_user (heap a r)")
    case None
    with handoff_open assms(1) show ?thesis by (auto elim!: phone_same)
  next
    case (Some g)
    with handoff_open show ?thesis by (intro phone_connected [OF assms(1), of _ g]) auto
  qed
next
  case (failed reason)
  with assms(1) show ?thesis by (simp add: phone_teardown split: option.split)
qed (use assms(1) in \<open>auto elim!: phone_same\<close>)

lemma phone_at_bridge: "phone a \<Longrightarrow> phone (at_bridge r f a)"
  by (erule phone_same) simp_all

lemma phone_set_socket: "phone a \<Longrightarrow> phone (set_socket k s a)"
  by (erule phone_same) simp_all

lemma phone_ran: "session_ran dp r a a' \<Longrightarrow> phone a \<Longrightarrow> phone a'"
  by (rule ran_keeps) (auto simp: put_session_def phone_at_bridge intro: phone_hook)

lemma phone_reap: "phone a \<Longrightarrow> phone (snd (reap_over dp now xs a))"
  by (induction xs arbitrary: a) (auto simp: phone_teardown split_beta)

lemma phone_create:
  assumes "phone a" "fresh_group a g" shows "phone (snd (create_call dp req g a))"
proof -
  let ?a = "snd (create_call dp req g a)"
  have other: "texts g' (twilio_log ?a) = texts g' (twilio_log a)"
    "g' \<noteq> g \<Longrightarrow> dials g' (twilio_log ?a) = dials g' (twilio_log a)"
    "g' \<noteq> g \<Longrightarrow> user_numbers ?a g' = user_numbers a g'" "g' \<noteq> g \<Longrightarrow> call_meta ?a g' = call_meta a g'" for g'
    by (auto simp: create_call_def ring_user_leg_def twilio_def Let_def split: option.split)
  have "dials g (twilio_log ?a) \<le> 1"
    using fresh_silent [OF assms(2)]
    by (auto simp: create_call_def ring_user_leg_def twilio_def Let_def split: option.split)
  moreover have "call_meta ?a g = call_meta a g \<or> (\<exists>m. call_meta ?a g = Some m \<and> redials m = 0)"
    by (auto simp: create_call_def ring_user_leg_def twilio_def Let_def split: option.split)
  ultimately have "dialled (dials g (twilio_log ?a)) (call_meta ?a g)"
    using assms(1) by (auto simp: phone_def dialled_def split: option.splits)
  moreover have "told (texts g (twilio_log ?a)) (user_numbers ?a g)"
    using fresh_silent [OF assms(2)] by (simp add: other told_def)
  ultimately have "told (texts g' (twilio_log ?a)) (user_numbers ?a g')
      \<and> dialled (dials g' (twilio_log ?a)) (call_meta ?a g')" for g'
    using assms(1) other [of g'] by (cases "g' = g") (auto simp: phone_def)
  then show ?thesis by (simp add: phone_def)
qed

lemma phone_redial:
  assumes "phone a" shows "phone (snd (redial_agent_leg dp g a))"
proof (cases "snd (redial_agent_leg dp g a) = a")
  case False
  let ?a = "snd (redial_agent_leg dp g a)"
  from False obtain m where m: "call_meta a g = Some m" "redials m < MAX_REDIALS"
    and meta: "call_meta ?a = (call_meta a)(g \<mapsto> m\<lparr>redials := redials m + 1\<rparr>)"
    and log: "dials g' (twilio_log ?a) = dials g' (twilio_log a) + (if g' = g then 1 else 0)"
      "texts g' (twilio_log ?a) = texts g' (twilio_log a)" for g'
    by (auto simp: redial_agent_leg_def twilio_def Let_def not_le split: option.splits if_splits)
  have "dialled (dials g (twilio_log a)) (Some m)" using assms m(1) by (metis phone_def)
  then have "dialled (dials g (twilio_log ?a)) (call_meta ?a g)"
    using m(2) by (simp add: dialled_def meta log)
  then show ?thesis
    using assms by (auto simp: phone_def log meta)
qed (use assms in simp)

lemma phone_replaced: "phone a \<Longrightarrow> phone (replaced_leg g r a)"
  by (erule phone_same) (auto simp: replaced_leg_def shut_bridge_def)

lemma phone_finish: "phone a \<Longrightarrow> phone (finish_agent_leg dp h a)"
proof (cases "h_bridge h")
  case (Some r)
  then show "phone a \<Longrightarrow> ?thesis"
    by (cases rule: finish_cases [OF Some, of a dp])
      (simp_all add: phone_replaced phone_redial phone_teardown)
qed (simp add: finish_agent_leg_def)

lemma phone_dtmf: "phone a \<Longrightarrow> phone (dtmf_thread dp t a)"
  by (erule phone_same) (auto simp: dtmf_thread_def twilio_def split: option.splits)

lemma phone_handoff: "phone a \<Longrightarrow> phone (handoff_turn dp r left a)"
proof (cases "(left = 0 \<or> outbound_agent (heap a r) = []) \<and> notify_user (heap a r) \<noteq> None")
  case True
  then show "phone a \<Longrightarrow> ?thesis"
    by (auto elim!: phone_connected simp: handoff_turn_eq Let_def sms_eq)
next
  case False
  then show "phone a \<Longrightarrow> ?thesis"
    by (auto elim!: phone_same simp: handoff_turn_eq Let_def)
qed

lemma phone_start: "phone a \<Longrightarrow> phone (on_start k h m a)"
proof (erule phone_same)
  have "twilio_log (attach_user k h' sid n a) = twilio_log a"
    "user_numbers (attach_user k h' sid n a) = user_numbers a"
    "call_meta (attach_user k h' sid n a) = call_meta a" for h' sid n
    by (auto simp: attach_user_def split: option.split)
  then show "user_numbers (on_start k h m a) = user_numbers a" "call_meta (on_start k h m a) = call_meta a"
    "texts g (twilio_log (on_start k h m a)) = texts g (twilio_log a)"
    "dials g (twilio_log (on_start k h m a)) = dials g (twilio_log a)" for g
    by (auto simp: on_start_def rebind_agent_leg_def new_agent_leg_def Let_def split_beta split: option.split)
qed

lemma phone_media:
  assumes "phone a" "on_agent_media dp k h b64 a = Some a'"
  shows "phone a'"
proof (cases "h_bridge h")
  case (Some r)
  show ?thesis
  proof (cases "b64decode b64")
    case (Some ulaw)
    let ?a = "at_bridge r (record_frame ulaw) a"
    obtain res a2 where run: "on_agent_audio dp r ulaw ?a = Some (res, a2)"
      and a': "a' = a2 \<or> a' = set_socket k (Closing h) a2"
      using assms(2) Some \<open>h_bridge h = Some r\<close>
      by (auto simp: on_agent_media_def split: option.splits sum.splits)
    have "phone a2"
      by (rule phone_ran [OF agent_audio_ran [OF run]]) (simp add: took_frame_def phone_at_bridge assms(1))
    with a' show ?thesis by (auto simp: phone_set_socket)
  qed (use assms Some in \<open>auto simp: on_agent_media_def phone_set_socket\<close>)
qed (use assms in \<open>simp add: on_agent_media_def\<close>)

lemma phone_receive: "phone a \<Longrightarrow> receive dp k msg a = Some a' \<Longrightarrow> phone a'"
  by (cases "sockets a k"; cases msg)
    (auto simp: receive_def phone_set_socket phone_at_bridge phone_start
      intro: phone_media split: option.splits)

lemma phone_socket_step: "phone a \<Longrightarrow> phone (socket_step dp k a)"
proof (cases "sockets a k")
  case (Attaching h sid n)
  then show "phone a \<Longrightarrow> ?thesis"
    by (auto simp: socket_step_def attach_user_def phone_set_socket phone_at_bridge split: option.split)
next
  case (UserClosing h r)
  then show "phone a \<Longrightarrow> ?thesis"
    using phone_ran [OF user_unbound_ran phone_at_bridge]
    by (simp add: socket_step_def user_leg_gone_eq phone_set_socket)
qed (simp_all add: socket_step_def phone_set_socket phone_finish)

lemma phone_writer: "phone a \<Longrightarrow> phone (writer_turn k i a)"
  by (erule phone_same)
    (auto simp: writer_turn_def Let_def split_beta split: option.splits list.splits if_splits)

lemma phone_step:
  assumes "phone a" "expected a ev" "app_step dp a ev = Some a'"
  shows "phone a'"
proof (cases ev)
  case (CreateCall req g)
  with assms show ?thesis by (auto simp: app_step_def phone_create)
next
  case (HandoffTurn r)
  with assms show ?thesis
    by (auto simp: app_step_def phone_handoff split: option.splits HandoffPhase.splits)
next
  case (DtmfThreadRuns i)
  have "phone (a\<lparr>dtmf_threads := xs\<rparr>)" for xs
    using assms(1) by (rule phone_same) simp_all
  with DtmfThreadRuns assms show ?thesis by (auto simp: app_step_def phone_dtmf split: if_splits)
next
  case (Receive k msg)
  with assms show ?thesis using phone_receive by (simp add: app_step_def)
next
  case (WorkerTakes r)
  with assms show ?thesis by (auto simp: app_step_def elim!: phone_same)
next
  case (WorkerFinishes r res)
  with assms show ?thesis by (auto simp: app_step_def elim!: phone_same)
next
  case (Passes dt)
  with assms show ?thesis by (auto simp: app_step_def elim!: phone_same split: if_splits)
qed (use assms in \<open>auto simp: app_step_def phone_socket_step phone_writer phone_at_bridge
      phone_set_socket speaks_def phone_reap reap_stale_bridges_def split: if_splits option.splits\<close>)

lemma reachable_phone: "app_reachable dp sett a \<Longrightarrow> phone a"
proof (induction rule: app_reachable.induct)
  case created
  show ?case by (simp add: phone_def create_app_def told_def dialled_def)
qed (rule phone_step)

end
