(* ===== verification/Session_Demo.thy ===== *)
theory Session_Demo
  imports Session_Protocol
begin

text \<open>
  Sessions run on concrete collaborators: the classifier labels a window by its time, the
  executor delivers scripted poll results, the hooks succeed. The three calls below (a
  handoff, a keypress followed by a failed classification, a call that fails twice) are the
  inputs the session properties are exercised on. One tick is a millisecond of audio.
\<close>

definition scripted_env :: "(py_float \<Rightarrow> Label) \<Rightarrow> (exn + Tier2Value) option list env" where
  "scripted_env script = \<lparr>
     classify = (\<lambda>f. \<lparr>label = script (t_start f), confidence = 1, features = []\<rparr>),
     telemetry_emit = (\<lambda>_ w. w),
     exec_submit = (\<lambda>_ w. (Inr (), w)),
     exec_poll = (\<lambda>w. case w of [] \<Rightarrow> (Inr None, []) | r # rs \<Rightarrow> (Inr r, rs)),
     exec_close = (\<lambda>w. w),
     dtmf_sender = (\<lambda>_ w. (Inr (), w)),
     on_bridge = (\<lambda>w. (Inr (), w)),
     on_fail = (\<lambda>_ w. (Inr (), w))\<rparr>"

definition demo_config :: FsmConfig where
  "demo_config = default_FsmConfig\<lparr>enter_menu_frames := 1, dialing_to_hold_frames := 1,
     enter_hold_frames := 1, enter_eval_frames := 1, non_connect_frames := 1\<rparr>"

definition demo_settings :: Settings where
  "demo_settings = default_Settings\<lparr>classifier_interval_ms := 1, buffer_seconds := 1 / 8000,
     classify_window_ms := 1, menu_collect_s := 0\<rparr>"

abbreviation demo_session :: AgentSession where
  "demo_session \<equiv> new_AgentSession ''c1'' demo_settings demo_config None None None"

text \<open>One millisecond of silence.\<close>

abbreviation chunk8 :: session_input where
  "chunk8 \<equiv> FeedAudio (Int16 [0, 0, 0, 0, 0, 0, 0, 0])"

section \<open>Running the model\<close>

lemma tick_loop_stop:
  "\<not> next_classify_at s \<le> audio_seconds s \<Longrightarrow> tick_loop env (s, w) = Some (Inr (), (s, w))"
  by (subst tick_loop.simps) simp

lemma tick_loop_go:
  "next_classify_at s \<le> audio_seconds s \<Longrightarrow> tick_loop env (s, w) =
     (case run_tick env (next_classify_at s) (s, w) of
        (Inl e, st') \<Rightarrow> Some (Inl e, st')
      | (Inr _, (s', w')) \<Rightarrow>
          let s'' = s'\<lparr>next_classify_at := next_classify_at s' + interval s'\<rparr>
          in if finished s'' then Some (Inr (), (s'', w')) else tick_loop env (s'', w'))"
  by (subst tick_loop.simps) simp

lemmas run_session_defs =
  feed_audio_def ingest_def skip_ahead_def interval_def audio_seconds_def sample_rate_def
  tick_loop_stop tick_loop_go run_tick_def classify_and_observe_def fire_menu_wake_def
  poll_tier2_def dispatch_def start_menu_def start_probe_def apply_menu_def apply_probe_def
  tier2_error_def bridge_def handoff_done_def fail_def poll_def submit_def log_call_def
  state_change_def logs_def abort_def close_def run_simps
  buffer_write_def buffer_tail_def buffer_snapshot_def last_n_def py_int_def

text \<open>
  Evaluation order: the state a method runs on is brought to normal form first, the rest of
  the method only once it is reached.
\<close>

lemma eval_congs:
  "st = st' \<Longrightarrow> self f st = self f st'"
  "st = st' \<Longrightarrow> bind p q st = bind p q st'"
  "st = st' \<Longrightarrow> andthen p r st = andthen p r st'"
  "st = st' \<Longrightarrow> try_except p h st = try_except p h st'"
  "st = st' \<Longrightarrow> update g st = update g st'"
  by simp_all

lemmas run_fsm_defs =
  observe_unfold Let_def streak_for_def LIVE_STATES_def label_sets handler_defs enter_def
  fall_back_to_hold_def probe_result_def note_menu_action_def note_menu_abstained_def
  bridged_def completed_def

lemmas demo_defs =
  scripted_env_def demo_config_def demo_settings_def new_AgentSession_def
  new_CallStateMachine_def default_Settings_def default_FsmConfig_def new_RollingBuffer_def

section \<open>A call that reaches a human\<close>

definition hold_then_speech :: "py_float \<Rightarrow> Label" where
  "hold_then_speech t = (if t \<le> 0 then HOLD_MUSIC else LIVE_SPEECH_CANDIDATE)"

definition handoff_trace :: "outcall list" where
  "handoff_trace =
    [Emit (FrameClassified ''c1'' 0 ''HOLD_MUSIC'' (py_round 3 1) []),
     Emit (StateChanged ''c1'' 0 ''DIALING'' ''ON_HOLD''),
     Emit (FrameClassified ''c1'' (1 / 1000) ''LIVE_SPEECH_CANDIDATE'' (py_round 3 1) []),
     Emit (StateChanged ''c1'' (1 / 1000) ''ON_HOLD'' ''EVALUATING_SPEECH''),
     Emit (Tier2Woken ''c1'' (1 / 1000) ''probe''),
     SubmitJob (RunProbe [0] 8000),
     PollResult (Inr (ProbeOutcome True [] True)),
     Emit (ProbeResult ''c1'' (1 / 1000) True),
     Emit (StateChanged ''c1'' (1 / 1000) ''EVALUATING_SPEECH'' ''HUMAN_DETECTED''),
     Emit (HumanDetected ''c1'' (1 / 1000)),
     OnBridge,
     Emit (StateChanged ''c1'' (1 / 1000) ''HUMAN_DETECTED'' ''BRIDGING''),
     Emit (BridgeStarted ''c1'' (1 / 1000)),
     Emit (StateChanged ''c1'' (1 / 1000) ''BRIDGING'' ''DONE''),
     Emit (CallCompleted ''c1'' (1 / 1000) ''human_bridged'')]"

lemma demo_handoff:
  "\<exists>s. session_run (scripted_env hold_then_speech) [chunk8]
         (demo_session, [Some (Inr (ProbeOutcome True '''' True))]) = Some (s, [])
     \<and> trace s = handoff_trace \<and> finished s \<and> state (fsm s) = DONE"
  by (simp add: run_session_defs run_fsm_defs demo_defs hold_then_speech_def handoff_trace_def
      cong: eval_congs let_weak_cong)

section \<open>A call that presses a key\<close>

definition menu_then_hold :: "py_float \<Rightarrow> Label" where
  "menu_then_hold t = (if t \<le> 0 then MENU_SPEAKING else HOLD_MUSIC)"

definition keypress_trace :: "outcall list" where
  "keypress_trace =
    [Emit (FrameClassified ''c1'' 0 ''MENU_SPEAKING'' (py_round 3 1) []),
     Emit (StateChanged ''c1'' 0 ''DIALING'' ''IVR_MENU''),
     Emit (Tier2Woken ''c1'' 0 ''menu''),
     SubmitJob (ChooseMenuDigit [0] 8000 None),
     Emit (FrameClassified ''c1'' (1 / 1000) ''HOLD_MUSIC'' (py_round 3 1) []),
     Emit (StateChanged ''c1'' (1 / 1000) ''IVR_MENU'' ''ON_HOLD''),
     PollResult (Inr (MenuDecision (Some ''2'') [])),
     SendDtmf ''2'',
     Emit (DtmfSent ''c1'' (1 / 1000) ''2'')]"

lemma demo_keypress:
  "\<exists>s. session_run (scripted_env menu_then_hold) [chunk8]
         (demo_session, [None, Some (Inr (MenuDecision (Some ''2'') ''''))]) = Some (s, [])
     \<and> trace s = keypress_trace \<and> \<not> finished s \<and> state (fsm s) = ON_HOLD
     \<and> menu_presses (fsm s) = 0"
  by (simp add: run_session_defs run_fsm_defs demo_defs menu_then_hold_def keypress_trace_def
      cong: eval_congs let_weak_cong)

section \<open>A call that fails twice\<close>

text \<open>
  The probe is in flight when voicemail is recognised: the tick fails the call, polls the
  probe all the same, and its error fails the call again.
\<close>

definition hold_speech_voicemail :: "py_float \<Rightarrow> Label" where
  "hold_speech_voicemail t =
     (if t \<le> 0 then HOLD_MUSIC else if t \<le> 1 / 1000 then LIVE_SPEECH_CANDIDATE else VOICEMAIL)"

definition double_failure_trace :: "outcall list" where
  "double_failure_trace =
    [Emit (FrameClassified ''c1'' 0 ''HOLD_MUSIC'' (py_round 3 1) []),
     Emit (StateChanged ''c1'' 0 ''DIALING'' ''ON_HOLD''),
     Emit (FrameClassified ''c1'' (1 / 1000) ''LIVE_SPEECH_CANDIDATE'' (py_round 3 1) []),
     Emit (StateChanged ''c1'' (1 / 1000) ''ON_HOLD'' ''EVALUATING_SPEECH''),
     Emit (Tier2Woken ''c1'' (1 / 1000) ''probe''),
     SubmitJob (RunProbe [0] 8000),
     Emit (FrameClassified ''c1'' (1 / 500) ''VOICEMAIL'' (py_round 3 1) []),
     Emit (StateChanged ''c1'' (1 / 500) ''EVALUATING_SPEECH'' ''FAILED''),
     Emit (CallFailed ''c1'' (1 / 500) ''non_connect''),
     OnFail ''non_connect'',
     PollResult (Inl (Tier2Unavailable [])),
     Emit (CallFailed ''c1'' (1 / 500) ''tier2_unavailable''),
     OnFail ''tier2_unavailable'']"

lemma demo_double_failure:
  "\<exists>s. session_run (scripted_env hold_speech_voicemail) [chunk8, chunk8]
         (demo_session, [None, Some (Inl (Tier2Unavailable ''''))]) = Some (s, [])
     \<and> trace s = double_failure_trace \<and> finished s \<and> state (fsm s) = FAILED"
  by (simp add: run_session_defs run_fsm_defs demo_defs hold_speech_voicemail_def double_failure_trace_def
      cong: eval_congs let_weak_cong)

end
