(* ===== verification/App_Demo.thy ===== *)
theory App_Demo
  imports App_Relay App_Phone Session_Demo
begin

text \<open>
  The process run on a concrete outside world: Twilio accepts every request, the classifier
  labels a window by its time, one tick is a millisecond of audio.
\<close>

definition demo_deps :: Deps where
  "demo_deps = \<lparr>
     twilio_reply = (\<lambda>_ _. Some ''CA1''),
     classifier = (\<lambda>f. \<lparr>label = (if t_start f \<le> 5 / 1000 then HOLD_MUSIC else LIVE_SPEECH_CANDIDATE),
                       confidence = 1, features = []\<rparr>),
     byte_order = []\<rparr>"

definition app_settings0 :: Settings where
  "app_settings0 = default_Settings\<lparr>classifier_interval_ms := 1, buffer_seconds := 1 / 8000,
     classify_window_ms := 1, menu_collect_s := 0, twilio_account_sid := ''AC'',
     twilio_auth_token := ''tok'', twilio_from_number := ''555'', public_base_url := ''https://h''\<rparr>"

fun app_run :: "Deps \<Rightarrow> app_event list \<Rightarrow> App \<Rightarrow> App option" where
  "app_run dp [] a = Some a"
| "app_run dp (ev # evs) a =
     (if expected a ev then (case app_step dp a ev of None \<Rightarrow> None | Some a' \<Rightarrow> app_run dp evs a') else None)"

lemma app_run_reachable:
  "app_reachable dp sett a \<Longrightarrow> app_run dp evs a = Some a' \<Longrightarrow> app_reachable dp sett a'"
proof (induction evs arbitrary: a)
  case (Cons ev evs)
  then show ?case
    by (auto split: if_splits option.splits intro: app_reachable.stepped)
qed simp

definition agent_start :: "string \<Rightarrow> string \<Rightarrow> StartMsg" where
  "agent_start g cid = \<lparr>param_group = Some g, param_role = Some ''agent'',
     start_stream = Some (''MZ'' @ cid), start_call = Some cid\<rparr>"

definition user_start :: "string \<Rightarrow> StartMsg" where
  "user_start g = \<lparr>param_group = Some g, param_role = Some ''user'',
     start_stream = Some ''MZuser'', start_call = Some ''CAuser''\<rparr>"

definition demo_request :: CallRequest where
  "demo_request = \<lparr>business = ''8001'', user = ''5551'', call_goal = None\<rparr>"

definition both_legs :: "app_event list" where
  "both_legs = [CreateCall demo_request ''g'', Connect 0, Receive 0 (Start (agent_start ''g'' ''CAx'')),
     Connect 1, Receive 1 (Start (user_start ''g''))]"

lemmas app_eval =
  app_step_def create_call_def valid_request_def demo_request_def ring_user_leg_def twilio_def
  fresh_group_def receive_def on_start_def start_group_def py_or_def agent_start_def user_start_def
  attach_user_def USER_ATTACH_TRIES_def new_agent_leg_def rebind_agent_leg_def agent_bridge_def
  wire_dtmf_def wire_bridge_hooks_def new_recorder_def new_CallBridge_def make_session_def
  set_socket_def at_bridge_def bind_agent_def bind_user_def agent_writer_def new_handler_def
  voice_url_def join_url_def create_app_def build_twilio_client_def app_settings0_def default_Settings_def demo_deps_def
  both_legs_def

definition dropped_and_redialled :: "app_event list" where
  "dropped_and_redialled = both_legs @ [Receive 0 Broken, SocketTurn 0,
     Connect 2, Receive 2 (Start (agent_start ''g'' ''CAy''))]"

lemmas end_eval = socket_step_def finish_agent_leg_def redial_agent_leg_def MAX_REDIALS_def
  shut_bridge_def drop_session_def drop_bridge_def close_bridge_def

lemma demo_redial:
  "\<exists>a h. app_run demo_deps dropped_and_redialled (create_app app_settings0) = Some a
     \<and> bridges a = [(''g'', 1)] \<and> user_stream_sid (heap a 1) = None \<and> sockets a 1 = Relaying h 0
     \<and> bridge_closed (heap a 0) \<and> \<not> bridge_closed (heap a 1) \<and> \<not> handoff_started (heap a 1)
     \<and> dials ''g'' (twilio_log a) = 2"
  by (simp add: dropped_and_redialled_def app_eval Let_def end_eval cong: let_weak_cong)

text \<open>The old socket's end, after the stream has come back on a new one.\<close>

definition late_close :: "app_event list" where
  "late_close = both_legs @ [Connect 2, Receive 2 (Start (agent_start ''g'' ''CAx'')),
     Receive 0 Broken, SocketTurn 0]"

lemma demo_late_close:
  "\<exists>a h. app_run demo_deps late_close (create_app app_settings0) = Some a
     \<and> bridges a = [] \<and> sockets a 2 = Reading h \<and> h_bridge h = Some 0 \<and> bridge_closed (heap a 0)
     \<and> \<not> finished (session (heap a 0)) \<and> dials ''g'' (twilio_log a) = 2"
  by (simp add: late_close_def app_eval Let_def end_eval cong: let_weak_cong)

text \<open>The user hangs up while the menu is navigated.\<close>

definition user_hung_up :: "app_event list" where
  "user_hung_up = both_legs @ [Receive 1 Stop, SocketTurn 1]"

lemma demo_user_hung_up:
  "\<exists>a. app_run demo_deps user_hung_up (create_app app_settings0) = Some a
     \<and> texts ''g'' (twilio_log a) = [FallbackSms UserHungUp]"
  by (simp add: user_hung_up_def app_eval Let_def socket_step_def user_leg_gone_def abort_session_def
      abort_def fail_def emit_def outward_def log_call_def proc_defs bridge_env_def run_effects_def
      on_session_fail_def teardown_eq clear_context_def teardown_calls_def fallback_calls_def
      sms_calls_def fallback_message_def BY_REASON_def put_session_def
      cong: let_weak_cong)

section \<open>A handoff\<close>

definition two_ms :: "byte list" where
  "two_ms = replicate 16 0xFF"

definition one_ms :: "byte list" where
  "one_ms = replicate 8 0xFF"

definition agent_audio :: "byte list \<Rightarrow> app_event" where
  "agent_audio u = Receive 0 (Media (b64encode u))"

text \<open>Six windows of music, two of speech, the probe's verdict, and one more frame, relayed.\<close>

definition to_handoff :: "app_event list" where
  "to_handoff = both_legs @
     [agent_audio two_ms, agent_audio two_ms, agent_audio two_ms, agent_audio two_ms,
      WorkerTakes 0, WorkerFinishes 0 (Inr (ProbeOutcome True '''' True)),
      agent_audio one_ms, agent_audio one_ms, WriterTurn 1 0, WriterTurn 1 0]"

lemma length_ms [simp]: "length two_ms = 16" "length one_ms = 8"
  by (simp_all add: two_ms_def one_ms_def)

lemma ulaw_length [simp]: "length (ulaw_to_pcm16 u) = length u"
  by (simp add: ulaw_to_pcm16_def)

lemmas audio_eval = on_agent_media_def on_agent_audio_def record_frame_def relay_to_user_def
  tee_probe_def bridge_env_def put_session_def at_executor_def threaded_submit_def threaded_poll_def
  new_ThreadedExecutor_def

text \<open>
  The session on the way, with the calls it made so far as a parameter; and the process around
  it, of which a frame only changes the telemetry and the session's executor.
\<close>

definition call_at ::
  "CallState \<Rightarrow> Label option \<Rightarrow> nat \<Rightarrow> Tier2Kind option \<Rightarrow> nat \<Rightarrow> py_float \<Rightarrow> sample list \<Rightarrow> outcall list \<Rightarrow> AgentSession" where
  "call_at q l k j n t d tr = (new_AgentSession ''CAx'' app_settings0 default_FsmConfig None (Some ''g'') (Some ''CA1''))
     \<lparr>fsm := (new_CallStateMachine default_FsmConfig)\<lparr>state := q, streak_label := l, streak := k\<rparr>,
      tier2_kind := j, samples_seen := n, next_classify_at := t,
      buffer := \<lparr>max_samples = 1, rate = 8000, data = d\<rparr>, trace := tr\<rparr>"

definition demo_bridge :: "AgentSession \<Rightarrow> CallBridge" where
  "demo_bridge s = (wire_bridge_hooks ''g'' (bind_user ''MZuser'' (bind_agent ''MZCAx'' True (new_CallBridge ''g'' s))))
     \<lparr>dtmf_redirect := Some (''CAx'', ''https://h/twiml/voice?group=g'')\<rparr>"

definition agent_handler :: Handler where
  "agent_handler = \<lparr>h_bridge = Some 0, h_group = ''g'', saw_stop = False, writers = [agent_writer 0]\<rparr>"

definition user_handler :: Handler where
  "user_handler = \<lparr>h_bridge = None, h_group = ''g'', saw_stop = False,
     writers = [\<lparr>writer_leg = UserLeg, writer_ref = 0, unsent = []\<rparr>]\<rparr>"

definition standing :: "CallBridge \<Rightarrow> (Tier2Job, Tier2Value) ThreadedExecutor \<Rightarrow> App \<Rightarrow> bool" where
  "standing b e a \<longleftrightarrow> sockets a 0 = Reading agent_handler \<and> sockets a 1 = Relaying user_handler 0
     \<and> heap a 0 = b \<and> executors a 0 = e \<and> bridges a = [(''g'', 0)] \<and> wire a = []
     \<and> texts ''g'' (twilio_log a) = [] \<and> user_numbers a ''g'' = Some ''5551'' \<and> has_twilio a"

lemmas stage_eval = call_at_def app_settings0_def default_Settings_def default_FsmConfig_def
  new_AgentSession_def new_CallStateMachine_def demo_deps_def bridge_env_def at_executor_def
  threaded_submit_def threaded_poll_def new_ThreadedExecutor_def run_session_defs run_fsm_defs

lemma standing_start:
  "\<exists>a. app_run demo_deps both_legs (create_app app_settings0) = Some a
     \<and> standing (demo_bridge (new_AgentSession ''CAx'' app_settings0 default_FsmConfig None (Some ''g'') (Some ''CA1'')))
         new_ThreadedExecutor a"
  by (simp add: app_eval Let_def standing_def demo_bridge_def agent_handler_def user_handler_def cong: let_weak_cong)

lemma at_bridge_same: "f (heap a r) = heap a r \<Longrightarrow> at_bridge r f a = a"
  by (simp add: at_bridge_def)

lemma frame_step:
  assumes "standing (demo_bridge s) e a" "\<not> finished s"
    and "feed_audio (bridge_env demo_deps 0) (Int16 (ulaw_to_pcm16 u)) (s, a) = Some (Inr (), (s', a2))"
  shows "app_step demo_deps a (agent_audio u) = Some (put_session 0 s' a2)"
proof -
  have same: "at_bridge 0 (record_frame u) a = a" "at_bridge 0 (\<lambda>b. relay_to_user u (tee_probe u b)) a = a"
    using assms(1)
    by (intro at_bridge_same; simp add: standing_def demo_bridge_def record_frame_def relay_to_user_def tee_probe_def
        wire_bridge_hooks_def bind_user_def bind_agent_def new_CallBridge_def)+
  have "session (heap a 0) = s"
    using assms(1) by (simp add: standing_def demo_bridge_def wire_bridge_hooks_def bind_user_def
        bind_agent_def new_CallBridge_def)
  with assms(1) show ?thesis
    by (simp add: app_step_def agent_audio_def receive_def standing_def agent_handler_def on_agent_media_def
        on_agent_audio_def same Let_def assms(2,3))
qed

definition quiet :: "(Tier2Job, Tier2Value) ThreadedExecutor \<Rightarrow> App \<Rightarrow> App \<Rightarrow> bool" where
  "quiet e a a' \<longleftrightarrow> sockets a' = sockets a \<and> heap a' = heap a \<and> bridges a' = bridges a \<and> wire a' = wire a
     \<and> twilio_log a' = twilio_log a \<and> user_numbers a' = user_numbers a \<and> has_twilio a' = has_twilio a
     \<and> executors a' 0 = e"

lemma quiet_step:
  assumes "standing (demo_bridge s) e a" "\<not> finished s"
    and "\<exists>a2. feed_audio (bridge_env demo_deps 0) (Int16 (ulaw_to_pcm16 u)) (s, a) = Some (Inr (), (s', a2))
      \<and> quiet e' a a2"
  shows "\<exists>a'. app_step demo_deps a (agent_audio u) = Some a' \<and> standing (demo_bridge s') e' a'"
  using frame_step [OF assms(1,2)] assms(1,3)
  by (auto simp: standing_def put_session_def demo_bridge_def wire_bridge_hooks_def bind_user_def
      bind_agent_def new_CallBridge_def quiet_def)

lemma stage_hold:
  assumes "length xs = 16" "executors a 0 = new_ThreadedExecutor"
  shows "\<exists>a2. feed_audio (bridge_env demo_deps 0) (Int16 xs)
      (new_AgentSession ''CAx'' app_settings0 default_FsmConfig None (Some ''g'') (Some ''CA1''), a)
    = Some (Inr (), call_at DIALING (Some HOLD_MUSIC) 3 None 16 (3 / 1000) (drop 15 xs)
       (map (\<lambda>n. Emit (FrameClassified ''CAx'' (n / 1000) ''HOLD_MUSIC'' (py_round 3 1) [])) [0, 1, 2]), a2)
     \<and> quiet new_ThreadedExecutor a a2"
  using assms by (simp add: quiet_def stage_eval new_RollingBuffer_def cong: let_weak_cong eval_congs)

lemma stage_hold2:
  assumes "length xs = 16" "executors a 0 = new_ThreadedExecutor"
  shows "\<exists>a2 tr'. feed_audio (bridge_env demo_deps 0) (Int16 xs)
      (call_at DIALING (Some HOLD_MUSIC) 3 None 16 (3 / 1000) d tr, a)
    = Some (Inr (), call_at DIALING (Some HOLD_MUSIC) 5 None 32 (5 / 1000) (drop 15 xs) tr', a2)
     \<and> quiet new_ThreadedExecutor a a2"
  using assms by (simp add: quiet_def stage_eval cong: let_weak_cong eval_congs)

lemma stage_speech:
  assumes "length xs = 16" "executors a 0 = new_ThreadedExecutor"
  shows "\<exists>a2 tr'. feed_audio (bridge_env demo_deps 0) (Int16 xs)
      (call_at DIALING (Some HOLD_MUSIC) 5 None 32 (5 / 1000) d tr, a)
    = Some (Inr (), call_at ON_HOLD (Some LIVE_SPEECH_CANDIDATE) 1 None 48 (7 / 1000) (drop 15 xs) tr', a2)
     \<and> quiet new_ThreadedExecutor a a2"
  using assms by (simp add: quiet_def stage_eval cong: let_weak_cong eval_congs)

definition probing :: "sample list \<Rightarrow> (Tier2Job, Tier2Value) ThreadedExecutor" where
  "probing d = new_ThreadedExecutor\<lparr>queued := [(0, RunProbe d 8000)], future := Some 0, next_future := 1\<rparr>"

lemma stage_probe:
  assumes "length xs = 16" "executors a 0 = new_ThreadedExecutor"
  shows "\<exists>a2 tr'. feed_audio (bridge_env demo_deps 0) (Int16 xs)
      (call_at ON_HOLD (Some LIVE_SPEECH_CANDIDATE) 1 None 48 (7 / 1000) d tr, a)
    = Some (Inr (), call_at EVALUATING_SPEECH (Some LIVE_SPEECH_CANDIDATE) 1 (Some Probe) 64 (9 / 1000) (drop 15 xs) tr', a2)
     \<and> quiet (probing (drop 15 xs)) a a2"
  using assms by (simp add: quiet_def probing_def stage_eval cong: let_weak_cong eval_congs)

definition answered_probe :: "sample list \<Rightarrow> (Tier2Job, Tier2Value) ThreadedExecutor" where
  "answered_probe d = worker_finishes (Inr (ProbeOutcome True '''' True)) (worker_takes (probing d))"

definition connected :: "AgentSession \<Rightarrow> App \<Rightarrow> bool" where
  "connected s a \<longleftrightarrow> sockets a 0 = Reading agent_handler \<and> sockets a 1 = Relaying user_handler 0
     \<and> heap a 0 = (demo_bridge s)\<lparr>handoff_started := True, relay_open := True\<rparr>
     \<and> bridges a = [(''g'', 0)] \<and> wire a = [] \<and> texts ''g'' (twilio_log a) = [ConnectedText]"

lemma stage_handoff:
  assumes "length xs = 8" "standing (demo_bridge (call_at EVALUATING_SPEECH (Some LIVE_SPEECH_CANDIDATE) 1
      (Some Probe) 64 (9 / 1000) d tr)) (answered_probe d') a"
  shows "\<exists>a2 s'. feed_audio (bridge_env demo_deps 0) (Int16 xs)
      (call_at EVALUATING_SPEECH (Some LIVE_SPEECH_CANDIDATE) 1 (Some Probe) 64 (9 / 1000) d tr, a)
      = Some (Inr (), s', a2) \<and> finished s' \<and> connected s' (put_session 0 s' a2)"
  using assms
  by (simp add: standing_def probing_def answered_probe_def worker_takes_def worker_finishes_def
      begin_handoff_def open_relay_def run_effects_def sms_def twilio_def stage_eval at_bridge_def demo_bridge_def
      wire_bridge_hooks_def bind_user_def bind_agent_def new_CallBridge_def connected_def put_session_def
      cong: let_weak_cong eval_congs)

lemma relayed:
  assumes "connected s a" "finished s"
  shows "\<exists>a'. app_run demo_deps [agent_audio one_ms, WriterTurn 1 0, WriterTurn 1 0] a = Some a'
     \<and> wire a' = [(1, UserLeg, 0, frame ''MZuser'' one_ms)] \<and> bridges a' = [(''g'', 0)]
     \<and> texts ''g'' (twilio_log a') = [ConnectedText] \<and> session (heap a' 0) = s"
  using assms
  by (simp add: app_step_def agent_audio_def receive_def connected_def agent_handler_def on_agent_media_def
      on_agent_audio_def Let_def demo_bridge_def wire_bridge_hooks_def bind_user_def bind_agent_def
      new_CallBridge_def record_frame_def relay_to_user_def tee_probe_def writer_turn_def drain_def
      drain_user_def user_handler_def)

lemma app_run_append: "app_run dp (xs @ ys) a = Option.bind (app_run dp xs a) (app_run dp ys)"
  by (induction xs arbitrary: a) (simp_all split: option.split)

lemma heard_step:
  assumes "standing (demo_bridge s) e a" "\<not> finished s"
    and "\<exists>a2 tr'. feed_audio (bridge_env demo_deps 0) (Int16 (ulaw_to_pcm16 u)) (s, a) = Some (Inr (), s' tr', a2)
      \<and> quiet e' a a2"
  shows "\<exists>a' tr'. app_run demo_deps [agent_audio u] a = Some a' \<and> standing (demo_bridge (s' tr')) e' a'"
  using assms(3) quiet_step [OF assms(1,2), of u]
  by (fastforce simp: agent_audio_def)

lemma standing_executor: "standing b e a \<Longrightarrow> executors a 0 = e"
  by (simp add: standing_def)

lemma call_at_live [simp]: "\<not> finished (call_at q l k j n t d tr)"
  by (simp add: call_at_def)

lemma demo_to_handoff:
  "\<exists>a. app_run demo_deps to_handoff (create_app app_settings0) = Some a
     \<and> wire a = [(1, UserLeg, 0, frame ''MZuser'' one_ms)] \<and> bridges a = [(''g'', 0)]
     \<and> texts ''g'' (twilio_log a) = [ConnectedText] \<and> finished (session (heap a 0))"
proof -
  let ?u = "ulaw_to_pcm16 two_ms"
  let ?s0 = "new_AgentSession ''CAx'' app_settings0 default_FsmConfig None (Some ''g'') (Some ''CA1'')"
  have u: "length ?u = 16" by simp
  obtain a0 where a0: "app_run demo_deps both_legs (create_app app_settings0) = Some a0"
    "standing (demo_bridge ?s0) new_ThreadedExecutor a0"
    using standing_start by blast
  have "\<exists>a' tr'. app_run demo_deps [agent_audio two_ms] a0 = Some a'
      \<and> standing (demo_bridge (call_at DIALING (Some HOLD_MUSIC) 3 None 16 (3 / 1000) (drop 15 ?u) tr')) new_ThreadedExecutor a'"
    by (rule heard_step [OF a0(2)]) (use stage_hold [OF u standing_executor [OF a0(2)]] in auto)
  then obtain a1 tr1 where a1: "app_run demo_deps [agent_audio two_ms] a0 = Some a1"
    "standing (demo_bridge (call_at DIALING (Some HOLD_MUSIC) 3 None 16 (3 / 1000) (drop 15 ?u) tr1)) new_ThreadedExecutor a1"
    by blast
  obtain a2 tr2 where a2: "app_run demo_deps [agent_audio two_ms] a1 = Some a2"
    "standing (demo_bridge (call_at DIALING (Some HOLD_MUSIC) 5 None 32 (5 / 1000) (drop 15 ?u) tr2)) new_ThreadedExecutor a2"
    using heard_step [OF a1(2) call_at_live stage_hold2 [OF u standing_executor [OF a1(2)]]] by blast
  obtain a3 tr3 where a3: "app_run demo_deps [agent_audio two_ms] a2 = Some a3"
    "standing (demo_bridge (call_at ON_HOLD (Some LIVE_SPEECH_CANDIDATE) 1 None 48 (7 / 1000) (drop 15 ?u) tr3)) new_ThreadedExecutor a3"
    using heard_step [OF a2(2) call_at_live stage_speech [OF u standing_executor [OF a2(2)]]] by blast
  let ?e = "call_at EVALUATING_SPEECH (Some LIVE_SPEECH_CANDIDATE) 1 (Some Probe) 64 (9 / 1000) (drop 15 ?u)"
  obtain a4 tr4 where a4: "app_run demo_deps [agent_audio two_ms] a3 = Some a4"
    "standing (demo_bridge (?e tr4)) (probing (drop 15 ?u)) a4"
    using heard_step [OF a3(2) call_at_live stage_probe [OF u standing_executor [OF a3(2)]]] by blast
  obtain a5 where a5: "app_run demo_deps [WorkerTakes 0, WorkerFinishes 0 (Inr (ProbeOutcome True '''' True))] a4 = Some a5"
    "standing (demo_bridge (?e tr4)) (answered_probe (drop 15 ?u)) a5"
    using a4(2) by (simp add: app_step_def standing_def answered_probe_def)
  obtain a6 s where a6: "app_run demo_deps [agent_audio one_ms] a5 = Some a6" "finished s" "connected s a6"
    using stage_handoff [of "ulaw_to_pcm16 one_ms", OF _ a5(2)] frame_step [OF a5(2) call_at_live, of one_ms]
    by (auto simp: agent_audio_def)
  from relayed [OF a6(3,2)] obtain a7 where a7:
    "app_run demo_deps [agent_audio one_ms, WriterTurn 1 0, WriterTurn 1 0] a6 = Some a7"
    "wire a7 = [(1, UserLeg, 0, frame ''MZuser'' one_ms)]" "bridges a7 = [(''g'', 0)]"
    "texts ''g'' (twilio_log a7) = [ConnectedText]" "session (heap a7 0) = s" by blast
  have events: "to_handoff = both_legs @ [agent_audio two_ms] @ [agent_audio two_ms] @ [agent_audio two_ms]
      @ [agent_audio two_ms] @ [WorkerTakes 0, WorkerFinishes 0 (Inr (ProbeOutcome True '''' True))]
      @ [agent_audio one_ms] @ [agent_audio one_ms, WriterTurn 1 0, WriterTurn 1 0]"
    by (simp add: to_handoff_def)
  have "app_run demo_deps to_handoff (create_app app_settings0) = Some a7"
    unfolding events app_run_append
    using a0(1) a1(1) a2(1) a3(1) a4(1) a5(1) a6(1) a7(1) by (simp del: app_run.simps)
  with a6(2) a7 show ?thesis by blast
qed

end
