(* ===== verification/Session_Props.thy ===== *)
theory Session_Props
  imports Session_Demo
begin

text \<open>
  What every call session guarantees, whatever its collaborators answer or raise: first the
  consequences of the monitor for the entries of a trace, then the properties of
  \<open>AgentSession\<close>, over arbitrary sequences of calls from outside (\<open>session_run\<close>).
\<close>

section \<open>Reading an accepted trace\<close>

lemma monitored_at:
  assumes "monitored cid (xs @ c # ys) = Some m"
  obtains m0 where "monitored cid xs = Some m0" "allowed cid m0 c" "pays (prev m0) c"
proof -
  from assms obtain m0 where "monitored cid xs = Some m0" "monitor cid m0 c \<noteq> None"
    by (auto split: option.splits)
  then show ?thesis by (intro that [of m0]) (auto simp: monitor_def split: if_splits)
qed

lemma monitored_prefix:
  assumes "monitored cid (xs @ ys) = Some m"
  obtains m0 where "monitored cid xs = Some m0"
  using assms by (auto split: option.splits)

lemma monitored_prev:
  assumes "monitored cid xs = Some m" "prev m = Some c"
  obtains zs where "xs = zs @ [c]"
proof (cases xs rule: rev_cases)
  case Nil
  with assms show ?thesis by (auto simp: monitor0_def)
next
  case (snoc zs y)
  with assms show ?thesis
    by (intro that [of zs]) (auto simp: monitor_def split: option.splits if_splits)
qed

definition failures :: "outcall list \<Rightarrow> string list" where
  "failures tr = concat (map (\<lambda>c. case c of Emit (CallFailed _ _ r) \<Rightarrow> [r] | _ \<Rightarrow> []) tr)"

definition notices :: "outcall list \<Rightarrow> string list" where
  "notices tr = concat (map (\<lambda>c. case c of OnFail r \<Rightarrow> [r] | _ \<Rightarrow> []) tr)"

definition completions :: "outcall list \<Rightarrow> string list" where
  "completions tr = concat (map (\<lambda>c. case c of Emit (CallCompleted _ _ r) \<Rightarrow> [r] | _ \<Rightarrow> []) tr)"

definition handoffs :: "outcall list \<Rightarrow> nat" where
  "handoffs tr = length (filter (\<lambda>c. c = OnBridge) tr)"

definition submitted :: "outcall list \<Rightarrow> nat" where
  "submitted tr = length (filter (\<lambda>c. case c of SubmitJob _ \<Rightarrow> True | _ \<Rightarrow> False) tr)"

definition delivered :: "outcall list \<Rightarrow> nat" where
  "delivered tr = length (filter (\<lambda>c. case c of PollResult _ \<Rightarrow> True | _ \<Rightarrow> False) tr)"

lemmas trace_counts =
  failures_def notices_def completions_def handoffs_def submitted_def delivered_def

lemma monitored_jobs:
  assumes "monitored cid xs = Some m"
  shows "submitted xs = delivered xs + (if job m = None then 0 else 1)"
  using assms
proof (rule replay_invariant)
  fix ys m1 y m2
  assume "submitted ys = delivered ys + (if job m1 = None then 0 else 1)" "monitor cid m1 y = Some m2"
  then show "submitted (ys @ [y]) = delivered (ys @ [y]) + (if job m2 = None then 0 else 1)"
    by (cases "(y, m1)" rule: effect.cases) (auto simp: monitor_def trace_counts split: if_splits)
qed (simp add: trace_counts monitor0_def)

definition handoff_inv :: "outcall list \<Rightarrow> Monitor \<Rightarrow> bool" where
  "handoff_inv xs m \<longleftrightarrow> handoffs xs \<le> 1
     \<and> (phase m \<in> LIVE_STATES \<longrightarrow> handoffs xs = 0)
     \<and> (changed_to EVALUATING_SPEECH HUMAN_DETECTED (prev m)
         \<or> (\<exists>i t. prev m = Some (Emit (HumanDetected i t)))
        \<longrightarrow> handoffs xs = 0 \<and> phase m = HUMAN_DETECTED)"

lemma edge_from_live: "phase_edge p q \<Longrightarrow> q \<in> LIVE_STATES \<Longrightarrow> p \<in> LIVE_STATES"
  by (erule phase_edge.cases) (simp_all add: LIVE_STATES_def)

lemma changed_to_states:
  "changed_to p q (Some (Emit (StateChanged i t (state_value p') (state_value q')))) \<longleftrightarrow> p' = p \<and> q' = q"
  by (simp add: changed_to_def)

lemma handoff_inv_change:
  assumes "handoff_inv ys m" "allowed cid m (Emit (StateChanged i t a b))"
  shows "handoff_inv (ys @ [Emit (StateChanged i t a b)])
    ((effect (Emit (StateChanged i t a b)) m)\<lparr>prev := Some (Emit (StateChanged i t a b))\<rparr>)"
proof -
  from assms(2) obtain q where q: "b = state_value q" "a = state_value (phase m)" "phase_edge (phase m) q"
    by (auto dest!: state_of_value_Some split: option.splits)
  have "handoffs ys = 0" if "q \<in> LIVE_STATES"
    using assms(1) edge_from_live [OF q(3) that] by (simp add: handoff_inv_def)
  moreover have "handoffs ys = 0" if "phase m = EVALUATING_SPEECH"
    using assms(1) that by (simp add: handoff_inv_def LIVE_STATES_def)
  ultimately show ?thesis
    using assms(1) q(1,2) by (auto simp: handoff_inv_def handoffs_def changed_to_states)
qed

lemma monitored_handoffs:
  assumes "monitored cid xs = Some m"
  shows "handoff_inv xs m"
  using assms
proof (rule replay_invariant)
  show "handoff_inv [] monitor0"
    by (simp add: handoff_inv_def handoffs_def monitor0_def changed_to_def)
  fix ys m1 y m2
  assume I: "handoff_inv ys m1" and st: "monitor cid m1 y = Some m2"
  then have a: "allowed cid m1 y" and m2: "m2 = (effect y m1)\<lparr>prev := Some y\<rparr>"
    by (auto simp: monitor_def split: if_splits)
  show "handoff_inv (ys @ [y]) m2"
  proof (cases y)
    case (Emit e)
    show ?thesis
    proof (cases "\<exists>i t a b. e = StateChanged i t a b")
      case True
      with handoff_inv_change [OF I] a m2 Emit show ?thesis by auto
    next
      case False
      with I a m2 Emit show ?thesis
        by (cases e) (simp_all add: handoff_inv_def handoffs_def changed_to_def)
    qed
  next
    case (SubmitJob j)
    with I m2 show ?thesis by (cases j) (auto simp: handoff_inv_def handoffs_def changed_to_def)
  next
    case OnBridge
    with I a m2 show ?thesis
      by (auto simp: handoff_inv_def handoffs_def changed_to_def LIVE_STATES_def
          split: option.splits outcall.splits Event.splits)
  qed (use I m2 in \<open>auto simp: handoff_inv_def handoffs_def changed_to_def\<close>)
qed

lemma trace_counts_simps [simp]:
  "failures [] = []" "notices [] = []" "completions [] = []"
  "failures (xs @ [c]) = failures xs @ (case c of Emit (CallFailed _ _ r) \<Rightarrow> [r] | _ \<Rightarrow> [])"
  "notices (xs @ [c]) = notices xs @ (case c of OnFail r \<Rightarrow> [r] | _ \<Rightarrow> [])"
  "completions (xs @ [c]) = completions xs @ (case c of Emit (CallCompleted _ _ r) \<Rightarrow> [r] | _ \<Rightarrow> [])"
  by (simp_all add: trace_counts)

lemma monitorD:
  assumes "monitor cid m c = Some m'"
  shows "allowed cid m c" "pays (prev m) c" "m' = (effect c m)\<lparr>prev := Some c\<rparr>"
  using assms by (auto simp: monitor_def split: if_splits)

lemma over_effect:
  "over (effect c m) \<longleftrightarrow> over m \<or> (\<exists>i t r. c = Emit (CallFailed i t r) \<or> c = Emit (CallCompleted i t r))"
  by (cases "(c, m)" rule: effect.cases) auto

lemma monitored_over:
  assumes "monitored cid xs = Some m"
  shows "over m \<longleftrightarrow> failures xs \<noteq> [] \<or> completions xs \<noteq> []"
  using assms
proof (rule replay_invariant)
  fix ys m1 y m2
  assume "over m1 \<longleftrightarrow> failures ys \<noteq> [] \<or> completions ys \<noteq> []" "monitor cid m1 y = Some m2"
  then show "over m2 \<longleftrightarrow> failures (ys @ [y]) \<noteq> [] \<or> completions (ys @ [y]) \<noteq> []"
    using monitorD(3) [of cid m1 y m2]
    by (auto simp: over_effect split: outcall.split Event.split)
qed (simp add: monitor0_def)

text \<open>A failure announced last is still to be passed on.\<close>

definition owed :: "outcall option \<Rightarrow> string list" where
  "owed v = (case v of Some (Emit (CallFailed _ _ r)) \<Rightarrow> [r] | _ \<Rightarrow> [])"

lemma owed_pays: "owed v = [r] \<Longrightarrow> pays v c \<Longrightarrow> c = OnFail r"
  by (auto simp: owed_def split: option.splits outcall.splits Event.splits)

lemma owed_cases: "owed v = [] \<or> (\<exists>r. owed v = [r])"
  by (auto simp: owed_def split: option.splits outcall.splits Event.splits)

lemma onfail_owed: "allowed cid m (OnFail r) \<Longrightarrow> owed (prev m) = [r]"
  by (auto simp: owed_def split: option.splits outcall.splits Event.splits)

lemma monitored_notices:
  assumes "monitored cid xs = Some m"
  shows "failures xs = notices xs @ owed (prev m)"
  using assms
proof (rule replay_invariant)
  fix ys m1 y m2
  assume I: "failures ys = notices ys @ owed (prev m1)" and st: "monitor cid m1 y = Some m2"
  note M = monitorD [OF st]
  show "failures (ys @ [y]) = notices (ys @ [y]) @ owed (prev m2)"
  proof (cases "owed (prev m1) = []")
    case True
    then have "y \<noteq> OnFail r" for r using M(1) onfail_owed [of cid m1 r] by auto
    with I True M(3) show ?thesis by (auto simp: owed_def split: outcall.split Event.split)
  next
    case False
    then obtain r where r: "owed (prev m1) = [r]" using owed_cases [of "prev m1"] by blast
    from owed_pays [OF this M(2)] have y: "y = OnFail r" .
    have "owed (Some (OnFail r)) = []" by (simp add: owed_def)
    with I r M(3) y show ?thesis by simp
  qed
qed (simp add: monitor0_def owed_def)

text \<open>Nothing follows the completion of a call.\<close>

lemma completed_is_last:
  assumes "over m" "phase m = DONE" "prev m = Some (Emit (CallCompleted i t r))"
  shows "\<not> allowed cid m c"
proof (cases c)
  case (Emit e)
  with assms show ?thesis by (cases e) simp_all
qed (use assms in simp_all)

lemma changed_to_entry:
  assumes "changed_to p q v"
  obtains i t where "v = Some (Emit (StateChanged i t (state_value p) (state_value q)))"
  using assms by (auto simp: changed_to_def split: option.splits outcall.splits Event.splits)

lemma monitored_changed_to:
  assumes "monitored cid xs = Some m" "changed_to p q (prev m)"
  shows "phase m = q"
proof -
  obtain i t where c: "prev m = Some (Emit (StateChanged i t (state_value p) (state_value q)))"
    using changed_to_entry [OF assms(2)] .
  obtain zs where zs: "xs = zs @ [Emit (StateChanged i t (state_value p) (state_value q))]"
    using monitored_prev [OF assms(1) c] .
  then obtain m0 where
    "monitor cid m0 (Emit (StateChanged i t (state_value p) (state_value q))) = Some m"
    using assms(1) by (auto split: option.splits)
  from monitorD(3) [OF this] show ?thesis by simp
qed

lemma monitored_completions:
  assumes "monitored cid xs = Some m" "completions xs \<noteq> []"
  shows "completions xs = [''human_bridged''] \<and> failures xs = [] \<and> phase m = DONE
    \<and> (\<exists>i t r. prev m = Some (Emit (CallCompleted i t r)))"
proof -
  have "completions xs \<noteq> [] \<longrightarrow> completions xs = [''human_bridged''] \<and> failures xs = []
    \<and> phase m = DONE \<and> (\<exists>i t r. prev m = Some (Emit (CallCompleted i t r)))"
    using assms(1)
  proof (rule replay_invariant)
    fix ys m1 y m2
    assume run: "monitored cid ys = Some m1" and st: "monitor cid m1 y = Some m2"
      and I: "completions ys \<noteq> [] \<longrightarrow> completions ys = [''human_bridged''] \<and> failures ys = []
        \<and> phase m1 = DONE \<and> (\<exists>i t r. prev m1 = Some (Emit (CallCompleted i t r)))"
    note M = monitorD [OF st]
    have empty: "completions ys = []"
      using completed_is_last [of m1] monitored_over [OF run] I M(1) by blast
    show "completions (ys @ [y]) \<noteq> [] \<longrightarrow> completions (ys @ [y]) = [''human_bridged'']
      \<and> failures (ys @ [y]) = [] \<and> phase m2 = DONE \<and> (\<exists>i t r. prev m2 = Some (Emit (CallCompleted i t r)))"
    proof (cases "\<exists>i t r. y = Emit (CallCompleted i t r)")
      case True
      then obtain i t r where y: "y = Emit (CallCompleted i t r)" by blast
      with M(1) have "\<not> over m1" "r = ''human_bridged''" "changed_to BRIDGING DONE (prev m1)" by simp_all
      with empty y M(3) monitored_over [OF run] monitored_changed_to [OF run] show ?thesis by simp
    next
      case False
      with empty show ?thesis by (auto split: outcall.split Event.split)
    qed
  qed simp
  with assms(2) show ?thesis by blast
qed

text \<open>A second failure needs an error polled after the first; a third is impossible.\<close>

definition failure_inv :: "outcall list \<Rightarrow> Monitor \<Rightarrow> bool" where
  "failure_inv xs m \<longleftrightarrow> length (failures xs) \<le> 2
     \<and> (over m \<and> job m \<noteq> None \<longrightarrow> length (failures xs) \<le> 1)
     \<and> (over m \<and> (\<exists>res. prev m = Some (PollResult res)) \<longrightarrow> job m = None \<and> length (failures xs) \<le> 1)
     \<and> ((\<exists>i t why. prev m = Some (Emit (Tier2Woken i t why))) \<longrightarrow> \<not> over m)"

lemma monitored_failures:
  assumes "monitored cid xs = Some m"
  shows "failure_inv xs m"
  using assms
proof (rule replay_invariant)
  fix ys m1 y m2
  assume run: "monitored cid ys = Some m1" and I: "failure_inv ys m1" and st: "monitor cid m1 y = Some m2"
  note M = monitorD [OF st]
  have fresh: "\<not> over m1 \<Longrightarrow> failures ys = []" using monitored_over [OF run] by simp
  show "failure_inv (ys @ [y]) m2"
  proof (cases y)
    case (Emit e)
    show ?thesis
    proof (cases e)
      case (CallFailed i t r)
      show ?thesis
      proof (cases "over m1")
        case True
        with M(1) Emit CallFailed obtain er where "prev m1 = Some (PollResult (Inl er))"
          by (auto split: option.splits outcall.splits sum.splits)
        with True I M(3) Emit CallFailed show ?thesis by (simp add: failure_inv_def)
      next
        case False
        with fresh I M(3) Emit CallFailed show ?thesis by (simp add: failure_inv_def)
      qed
    qed (use I M fresh Emit in \<open>simp_all add: failure_inv_def\<close>)
  next
    case (SubmitJob j)
    with M(1) obtain i t why where "prev m1 = Some (Emit (Tier2Woken i t why))"
      by (auto split: option.splits outcall.splits Event.splits)
    with I have "\<not> over m1" by (simp add: failure_inv_def)
    with I M(3) SubmitJob show ?thesis by (cases j) (simp_all add: failure_inv_def)
  qed (use I M in \<open>simp_all add: failure_inv_def\<close>)
qed (simp add: failure_inv_def monitor0_def)

text \<open>One step back: what the entry before a monitored position was allowed by.\<close>

lemma monitored_back:
  assumes "monitored cid xs = Some m" "prev m = Some c"
  obtains zs m0 where "xs = zs @ [c]" "monitored cid zs = Some m0" "allowed cid m0 c"
proof -
  obtain zs where zs: "xs = zs @ [c]" using monitored_prev [OF assms] .
  with assms(1) have "monitored cid (zs @ c # []) = Some m" by simp
  from monitored_at [OF this] show ?thesis using that [OF zs] by metis
qed

lemma onbridge_entry:
  "allowed cid m OnBridge \<Longrightarrow> \<exists>i t. prev m = Some (Emit (HumanDetected i t))"
  by (auto split: option.splits outcall.splits Event.splits)

lemma proberesult_entry:
  "allowed cid m (Emit (ProbeResult i t h)) \<Longrightarrow>
     \<exists>why v. prev m = Some (PollResult (Inr (ProbeOutcome h why v)))"
  by (auto split: option.splits outcall.splits sum.splits Tier2Value.splits)

lemma senddtmf_entry:
  "allowed cid m (SendDtmf d) \<Longrightarrow>
     d \<noteq> '''' \<and> (\<exists>why. prev m = Some (PollResult (Inr (MenuDecision (Some d) why))))"
  by (auto split: option.splits outcall.splits sum.splits Tier2Value.splits)

lemma human_change_entry:
  assumes "allowed cid m (Emit (StateChanged i t p (state_value HUMAN_DETECTED)))"
  shows "\<exists>i t. prev m = Some (Emit (ProbeResult i t True))"
proof -
  have "change_cause (phase m) HUMAN_DETECTED (prev m)"
    using assms by (simp del: state_value.simps change_cause.simps)
  then show ?thesis by (auto split: option.splits outcall.splits Event.splits)
qed

lemma handoff_chain:
  assumes "monitored cid (xs @ OnBridge # ys) = Some m"
  shows "\<exists>zs t1 t2 t3 why v. xs = zs @
    [PollResult (Inr (ProbeOutcome True why v)), Emit (ProbeResult cid t1 True),
     Emit (StateChanged cid t2 (state_value EVALUATING_SPEECH) (state_value HUMAN_DETECTED)),
     Emit (HumanDetected cid t3)]"
proof -
  obtain m1 where m1: "monitored cid xs = Some m1" "allowed cid m1 OnBridge"
    using monitored_at [OF assms] .
  from onbridge_entry [OF m1(2)] obtain i3 t3 where p1: "prev m1 = Some (Emit (HumanDetected i3 t3))" by blast
  obtain x2 m2 where x2: "xs = x2 @ [Emit (HumanDetected i3 t3)]" "monitored cid x2 = Some m2"
      "allowed cid m2 (Emit (HumanDetected i3 t3))"
    using monitored_back [OF m1(1) p1] .
  then have "changed_to EVALUATING_SPEECH HUMAN_DETECTED (prev m2)" "i3 = cid" by simp_all
  then obtain i2 t2 where p2: "prev m2 = Some (Emit (StateChanged i2 t2 (state_value EVALUATING_SPEECH)
      (state_value HUMAN_DETECTED)))"
    using changed_to_entry by metis
  let ?c = "Emit (StateChanged i2 t2 (state_value EVALUATING_SPEECH) (state_value HUMAN_DETECTED))"
  obtain x3 m3 where x3: "x2 = x3 @ [?c]" "monitored cid x3 = Some m3" "allowed cid m3 ?c"
    using monitored_back [OF x2(2) p2] .
  from human_change_entry [OF x3(3)] obtain i1 t1 where p3: "prev m3 = Some (Emit (ProbeResult i1 t1 True))" by blast
  obtain x4 m4 where x4: "x3 = x4 @ [Emit (ProbeResult i1 t1 True)]" "monitored cid x4 = Some m4"
      "allowed cid m4 (Emit (ProbeResult i1 t1 True))"
    using monitored_back [OF x3(2) p3] .
  from proberesult_entry [OF x4(3)] obtain why v where
    p4: "prev m4 = Some (PollResult (Inr (ProbeOutcome True why v)))" by blast
  obtain x5 where x5: "x4 = x5 @ [PollResult (Inr (ProbeOutcome True why v))]"
    using monitored_prev [OF x4(2) p4] .
  have "i1 = cid" "i2 = cid" "i3 = cid" using x4(3) x3(3) x2(3) by simp_all
  with x2(1) x3(1) x4(1) x5 show ?thesis by force
qed

lemma session_outcome:
  assumes "monitored cid (trace s) = Some (seen s)" "conforms s"
  shows "(finished s \<longleftrightarrow> failures (trace s) \<noteq> [] \<or> completions (trace s) \<noteq> [])
    \<and> (completions (trace s) \<noteq> [] \<longrightarrow> completions (trace s) = [''human_bridged'']
         \<and> failures (trace s) = [] \<and> state (fsm s) = DONE
         \<and> (\<exists>i t r. last (trace s) = Emit (CallCompleted i t r)))
    \<and> notices (trace s) = failures (trace s)"
proof -
  note run = assms(1)
  from assms(2) have "owed (prev (seen s)) = []"
    by (cases "owed (prev (seen s))")
      (auto simp: conforms_def owed_def split: option.splits outcall.splits Event.splits)
  with monitored_notices [OF run] have "notices (trace s) = failures (trace s)" by simp
  moreover have "\<exists>i t r. last (trace s) = Emit (CallCompleted i t r)" if "completions (trace s) \<noteq> []"
    using monitored_completions [OF run that] by (auto simp: seen_def split: if_splits)
  ultimately show ?thesis
    using monitored_over [OF run] monitored_completions [OF run] by simp
qed

section \<open>The properties\<close>

text \<open>
  [C1] The session refines its contract: whatever the classifier, the sinks, the Tier 2
  executor and the telephony hooks do, and whatever audio and aborts arrive, the sequence of
  calls a session makes to its collaborators is one the monitor accepts (wake before submit,
  at most one job, verdict before handoff, handoff before completion, every failure passed
  on, nothing but one poll after the end), and the phase, the job and the ending the monitor
  read off the trace are the session's own.
\<close>

theorem session_conforms_to_protocol:
  assumes "session_run env is (new_AgentSession cid sett cf g conf leg, w) = Some (s, w')"
  shows "monitored cid (trace s) = Some (seen s)"
  by (rule session_accepted [OF assms])

theorem session_conforms_to_protocol_witness:
  "\<exists>s::AgentSession. trace s = handoff_trace \<and> monitored ''c1'' (trace s) = Some (seen s) \<and> state (fsm s) = DONE"
proof -
  obtain s where s: "session_run (scripted_env hold_then_speech) [chunk8]
      (demo_session, [Some (Inr (ProbeOutcome True [] True))]) = Some (s, [])" "trace s = handoff_trace"
      "state (fsm s) = DONE"
    using demo_handoff by blast
  with session_conforms_to_protocol [OF s(1)] show ?thesis by blast
qed

text \<open>
  [C2] The user is connected only to a verified human: each time a session calls
  \<open>on_bridge\<close>, the four entries before it are a Tier 2 probe outcome with \<open>is_human\<close> true,
  its \<open>ProbeResult\<close> event, the change from EVALUATING_SPEECH to HUMAN_DETECTED and the
  \<open>HumanDetected\<close> event, in this order with nothing in between; and it calls \<open>on_bridge\<close> at
  most once in its life.
\<close>

theorem handoff_needs_human_verdict:
  assumes "session_run env is (new_AgentSession cid sett cf g conf leg, w) = Some (s, w')"
  shows "(\<forall>xs ys. trace s = xs @ OnBridge # ys \<longrightarrow>
      (\<exists>zs t1 t2 t3 why v. xs = zs @
        [PollResult (Inr (ProbeOutcome True why v)), Emit (ProbeResult cid t1 True),
         Emit (StateChanged cid t2 (state_value EVALUATING_SPEECH) (state_value HUMAN_DETECTED)),
         Emit (HumanDetected cid t3)]))
    \<and> handoffs (trace s) \<le> 1"
  using handoff_chain [of cid] session_accepted [OF assms] monitored_handoffs [OF session_accepted [OF assms]]
  by (auto simp only: handoff_inv_def)

theorem handoff_needs_human_verdict_witness:
  "\<exists>s::AgentSession. trace s = handoff_trace \<and> handoffs (trace s) \<le> 1 \<and> OnBridge \<in> set (trace s)"
proof -
  obtain s where s: "session_run (scripted_env hold_then_speech) [chunk8]
      (demo_session, [Some (Inr (ProbeOutcome True '''' True))]) = Some (s, [])" "trace s = handoff_trace"
    using demo_handoff by blast
  with handoff_needs_human_verdict [OF s(1)] show ?thesis
    by (intro exI [of _ s]) (simp add: handoff_trace_def)
qed

text \<open>
  [C9] Exactly one outcome: a session is finished precisely when its trace holds a
  terminal event; a completed call has one \<open>CallCompleted\<close>, as the very last entry, and no
  failure; and the \<open>on_fail\<close> hook is given exactly the reasons of the \<open>CallFailed\<close> events,
  in order.
\<close>

theorem one_outcome_per_call:
  assumes "session_run env is (new_AgentSession cid sett cf g conf leg, w) = Some (s, w')"
  shows "(finished s \<longleftrightarrow> failures (trace s) \<noteq> [] \<or> completions (trace s) \<noteq> [])
    \<and> (completions (trace s) \<noteq> [] \<longrightarrow> completions (trace s) = [''human_bridged'']
         \<and> failures (trace s) = [] \<and> state (fsm s) = DONE
         \<and> (\<exists>i t r. last (trace s) = Emit (CallCompleted i t r)))
    \<and> notices (trace s) = failures (trace s)"
  using session_outcome [OF session_accepted [OF assms]] session_steps_conform [OF session_run_steps [OF assms]]
  by blast

theorem one_outcome_per_call_witness:
  "\<exists>s::AgentSession. trace s = handoff_trace \<and> completions (trace s) = [''human_bridged''] \<and> notices (trace s) = failures (trace s)"
proof -
  obtain s where s: "session_run (scripted_env hold_then_speech) [chunk8]
      (demo_session, [Some (Inr (ProbeOutcome True '''' True))]) = Some (s, [])" "trace s = handoff_trace"
    using demo_handoff by blast
  with one_outcome_per_call [OF s(1)] show ?thesis
    by (intro exI [of _ s]) (simp add: handoff_trace_def completions_def)
qed

text \<open>
  One Tier 2 job at a time: at every moment of every call the number of jobs submitted
  is the number of results delivered, or one more; it is one more now exactly when
  \<open>_tier2_kind\<close> is set.
\<close>

theorem one_tier2_job_at_a_time:
  assumes "session_run env is (new_AgentSession cid sett cf g conf leg, w) = Some (s, w')"
    and "trace s = xs @ ys"
  shows "delivered xs \<le> submitted xs \<and> submitted xs \<le> delivered xs + 1
    \<and> submitted (trace s) = delivered (trace s) + (if tier2_kind s = None then 0 else 1)"
proof -
  note run = session_accepted [OF assms(1)]
  obtain m0 where "monitored cid xs = Some m0"
    using monitored_prefix [OF run [unfolded assms(2)]] .
  from monitored_jobs [OF this] monitored_jobs [OF run] show ?thesis by simp
qed

theorem one_tier2_job_at_a_time_witness:
  "\<exists>s::AgentSession. trace s = handoff_trace \<and> submitted (take 6 (trace s)) = 1 \<and> delivered (trace s) = 1
     \<and> tier2_kind s = None"
proof -
  obtain s where s: "session_run (scripted_env hold_then_speech) [chunk8]
      (demo_session, [Some (Inr (ProbeOutcome True [] True))]) = Some (s, [])" "trace s = handoff_trace"
    using demo_handoff by blast
  have "submitted (take 6 handoff_trace) = 1" "delivered handoff_trace = 1" "submitted handoff_trace = 1"
    by (simp_all add: handoff_trace_def submitted_def delivered_def)
  with one_tier2_job_at_a_time [OF s(1), of "take 6 (trace s)" "drop 6 (trace s)"] s(2)
  show ?thesis by (intro exI [of _ s]) (simp split: if_splits)
qed

text \<open>
  [C16] Keys are pressed only on Tier 2's word: each \<open>dtmf_sender(d)\<close> directly follows the
  delivery of a menu decision with exactly those digits, and the digits are not empty.
\<close>

theorem keypress_needs_menu_decision:
  assumes "session_run env is (new_AgentSession cid sett cf g conf leg, w) = Some (s, w')"
    and "trace s = xs @ SendDtmf d # ys"
  shows "d \<noteq> '''' \<and> (\<exists>zs why. xs = zs @ [PollResult (Inr (MenuDecision (Some d) why))])"
proof -
  obtain m0 where m0: "monitored cid xs = Some m0" "allowed cid m0 (SendDtmf d)"
    using monitored_at [OF session_accepted [OF assms(1), unfolded assms(2)]] .
  from senddtmf_entry [OF m0(2)] obtain why where
    "d \<noteq> ''''" "prev m0 = Some (PollResult (Inr (MenuDecision (Some d) why)))" by blast
  then show ?thesis using monitored_prev [OF m0(1)] by metis
qed

theorem keypress_needs_menu_decision_witness:
  "\<exists>zs why. take 7 keypress_trace = zs @ [PollResult (Inr (MenuDecision (Some ''2'') why))]"
proof -
  obtain s where s: "session_run (scripted_env menu_then_hold) [chunk8]
      (demo_session, [None, Some (Inr (MenuDecision (Some ''2'') ''''))]) = Some (s, [])"
      "trace s = keypress_trace"
    using demo_keypress by blast
  have "keypress_trace = take 7 keypress_trace @ SendDtmf ''2'' # drop 8 keypress_trace"
    by (simp add: keypress_trace_def)
  with keypress_needs_menu_decision [OF s(1), of "take 7 keypress_trace" "''2''" "drop 8 keypress_trace"] s(2)
  show ?thesis by simp
qed

text \<open>
  [C17] How a Tier 2 error is routed, for every kind of job and every exception: the slot is
  freed, and the call is failed (with the reason of \<open>fatal_reason\<close>) or left exactly as it
  was. An unreadable menu is survivable unless Tier 2 is not there at all (not implemented,
  circuit open); a probe that cannot run always ends the call.
\<close>

theorem tier2_error_routing:
  assumes "exec_poll env w = (Inr (Some (Inl e)), w1)" "tier2_kind s = Some k"
  shows "after (poll_tier2 env now) (s, w) =
      (case fatal_reason k e of None \<Rightarrow> got (Inl e) s | Some r \<Rightarrow> failed_at now r (got (Inl e) s))
    \<and> (fatal_reason k e = None \<longleftrightarrow> k = Menu \<and> e \<noteq> NotImplementedError \<and> e \<noteq> CircuitOpenError)"
proof -
  have "after (poll_tier2 env now) (s, w) = after (tier2_error env k e now) (got (Inl e) s, w1)"
    by (simp add: poll_tier2_def run_simps poll_def assms got_def logs_def log_call_def)
  moreover have "fatal_reason k e = None \<longleftrightarrow> k = Menu \<and> e \<noteq> NotImplementedError \<and> e \<noteq> CircuitOpenError"
    by (cases k; cases e) simp_all
  ultimately show ?thesis by (simp add: tier2_error_run)
qed

theorem tier2_error_routing_witness:
  "trace (after (poll_tier2 (scripted_env hold_then_speech) 5)
     (demo_session\<lparr>tier2_kind := Some Probe\<rparr>, [Some (Inl (RuntimeError ''x''))])) =
   [PollResult (Inl (RuntimeError ''x'')), Emit (CallFailed ''c1'' 5 ''tier2_error''), OnFail ''tier2_error'']"
  using tier2_error_routing [of "scripted_env hold_then_speech" "[Some (Inl (RuntimeError ''x''))]"
      "RuntimeError ''x''" "[]" "demo_session\<lparr>tier2_kind := Some Probe\<rparr>" Probe 5]
  by (simp add: scripted_env_def failed_at_def logs_def got_def new_AgentSession_def)

lemma audio_at_start: "audio_seconds (new_AgentSession cid sett cf g conf leg) = 0"
  by (simp add: audio_seconds_def new_AgentSession_def)

lemma finished_session_run:
  "finished s \<Longrightarrow> \<exists>w'. session_run env is (s, w) = Some (s, w')"
proof (induction "is" arbitrary: w)
  case (Cons i "is")
  have "\<exists>r w1. session_call env i (s, w) = Some (r, (s, w1))"
    using Cons.prems by (cases i) (auto simp: feed_audio_def abort_def close_def self_def ret_def modify_def)
  with Cons.IH [OF Cons.prems] show ?case by fastforce
qed simp

text \<open>
  [C24] The kill switch. Aborting a live session emits one \<open>CallFailed\<close> with the given reason at
  the audio clock and calls \<open>on_fail\<close> once; the machine's phase is left as it was, not FAILED.
  After that, as after any end of a call, nothing reaches the collaborators any more: further
  audio and aborts leave the session as it is.
\<close>

theorem abort_ends_the_call_once:
  assumes "\<not> finished s"
  shows "\<exists>w1. abort env r (s, w) = (fst (abort env r (s, w)), (failed_at (audio_seconds s) r s, w1))
    \<and> state (fsm (failed_at (audio_seconds s) r s)) = state (fsm s)
    \<and> (\<forall>is. \<exists>w'. session_run env is (failed_at (audio_seconds s) r s, w1)
              = Some (failed_at (audio_seconds s) r s, w'))"
proof -
  obtain x s1 w1 where run: "abort env r (s, w) = (x, (s1, w1))" by (metis prod.exhaust)
  moreover have "s1 = failed_at (audio_seconds s) r s"
    using assms run fail_run [of env "audio_seconds s" r s w] by (simp add: abort_def self_def)
  moreover have "\<forall>is. \<exists>w'. session_run env is (failed_at (audio_seconds s) r s, w1)
      = Some (failed_at (audio_seconds s) r s, w')"
    by (intro allI finished_session_run) simp
  ultimately show ?thesis by simp
qed

theorem abort_ends_the_call_once_witness:
  "\<exists>w1. snd (abort (scripted_env hold_then_speech) ''user_left'' (demo_session, [])) =
     (failed_at 0 ''user_left'' demo_session, w1)"
  using abort_ends_the_call_once [of demo_session "scripted_env hold_then_speech" "''user_left''" "[]"]
  by (metis new_session_fields(4) audio_at_start snd_conv)

end
