(* ===== verification/App_Props.thy ===== *)
theory App_Props
  imports App_Demo Session_Props
begin

text \<open>
  The properties of the process: what holds in every state it can reach, what its operations
  do, and what runs of it show.
\<close>

section \<open>Lemmas\<close>

lemma born_conforms:
  assumes "born s"
  obtains cid where "monitored cid (trace s) = Some (seen s)" "conforms s"
  using assms session_steps_conform by (fastforce simp: born_def conforms_def)

lemma notices_none: "(\<forall>x. OnFail x \<notin> set tr) \<Longrightarrow> notices tr = []"
proof -
  have "notices tr \<noteq> [] \<Longrightarrow> \<exists>x. OnFail x \<in> set tr"
    by (induction tr) (auto simp: notices_def split: outcall.splits)
  then show "(\<forall>x. OnFail x \<notin> set tr) \<Longrightarrow> ?thesis" by blast
qed

lemma unfailed_outcome:
  assumes "born s" "\<forall>x. OnFail x \<notin> set (trace s)" "finished s"
  shows "completions (trace s) = [''human_bridged''] \<and> state (fsm s) = DONE"
proof -
  obtain cid where "monitored cid (trace s) = Some (seen s)" "conforms s"
    using born_conforms [OF assms(1)] .
  from session_outcome [OF this] notices_none [OF assms(2)] assms(3) show ?thesis by auto
qed

lemma demo_state:
  obtains a where "app_reachable demo_deps app_settings0 a"
    "wire a = [(1, UserLeg, 0, frame ''MZuser'' one_ms)]" "bridges a = [(''g'', 0)]"
    "texts ''g'' (twilio_log a) = [ConnectedText]" "finished (session (heap a 0))"
  using demo_to_handoff app_run_reachable [OF app_reachable.created] by blast

section \<open>What holds in every reachable state\<close>

text \<open>
  [C4] No call is left on a dead line: in every state the process can reach, a bridge in the
  registry is the open bridge of its group, and if its session is over then the call was
  handed to the user. A call that failed in any way is not in the registry.
\<close>

theorem registered_call_is_live:
  assumes "app_reachable dp sett a" "map_of (bridges a) g = Some r"
  shows "group_id (heap a r) = g \<and> \<not> bridge_closed (heap a r)
    \<and> (finished (session (heap a r)) \<longrightarrow>
         completions (trace (session (heap a r))) = [''human_bridged'']
         \<and> state (fsm (session (heap a r))) = DONE)"
proof -
  have entry: "r < next_ref a \<and> group_id (heap a r) = g \<and> \<not> bridge_closed (heap a r)"
    by (rule registry_entry [OF core_registry [OF reachable_core [OF assms(1)]] assms(2)])
  then have "born (session (heap a r))" "fair a r (trace (session (heap a r)))"
    using reachable_alive [OF assms(1)] by (auto simp: alive_def)
  with unfailed_outcome entry assms(2) show ?thesis by (auto simp: fair_def)
qed

theorem registered_call_is_live_witness:
  "\<exists>a. app_reachable demo_deps app_settings0 a \<and> map_of (bridges a) ''g'' = Some 0
     \<and> \<not> bridge_closed (heap a 0) \<and> completions (trace (session (heap a 0))) = [''human_bridged'']"
proof -
  obtain a where a: "app_reachable demo_deps app_settings0 a" "bridges a = [(''g'', 0)]"
    "finished (session (heap a 0))"
    using demo_state .
  with registered_call_is_live [OF a(1), of "''g''" 0] show ?thesis by auto
qed

text \<open>
  [C3] The user hears nobody but a verified human: whenever a message has been sent to a
  user's leg, the relay of its bridge is open, and the bridge's session asked for the handoff
  right after a Tier 2 probe outcome with \<open>is_human\<close> true.
\<close>

theorem user_hears_only_a_verified_human:
  assumes "app_reachable dp sett a" "(k, UserLeg, r, msg) \<in> set (wire a)"
  shows "relay_open (heap a r) \<and> (\<exists>cid xs ys t1 t2 t3 why v.
    trace (session (heap a r)) = xs @
      [PollResult (Inr (ProbeOutcome True why v)), Emit (ProbeResult cid t1 True),
       Emit (StateChanged cid t2 (state_value EVALUATING_SPEECH) (state_value HUMAN_DETECTED)),
       Emit (HumanDetected cid t3), OnBridge] @ ys)"
proof -
  have open_relay: "r < next_ref a" "relay_open (heap a r)"
    using reachable_gated [OF assms(1)] assms(2) by (auto simp: gated_def sent_gated_def)
  then have "born (session (heap a r))" "OnBridge \<in> set (trace (session (heap a r)))"
    using reachable_alive [OF assms(1)] by (auto simp: alive_def fair_def)
  then obtain cid xs ys where run: "monitored cid (trace (session (heap a r))) = Some (seen (session (heap a r)))"
    and tr: "trace (session (heap a r)) = xs @ OnBridge # ys"
    using born_conforms by (metis split_list)
  from handoff_chain [of cid xs ys] run tr obtain zs t1 t2 t3 why v where
    "xs = zs @ [PollResult (Inr (ProbeOutcome True why v)), Emit (ProbeResult cid t1 True),
       Emit (StateChanged cid t2 (state_value EVALUATING_SPEECH) (state_value HUMAN_DETECTED)),
       Emit (HumanDetected cid t3)]" by metis
  with tr open_relay(2) show ?thesis by fastforce
qed

theorem user_hears_only_a_verified_human_witness:
  "\<exists>a::App. wire a = [(1, UserLeg, 0, frame ''MZuser'' one_ms)] \<and> relay_open (heap a 0)
     \<and> OnBridge \<in> set (trace (session (heap a 0)))"
proof -
  obtain a where a: "app_reachable demo_deps app_settings0 a"
    "wire a = [(1, UserLeg, 0, frame ''MZuser'' one_ms)]"
    using demo_state .
  have "relay_open (heap a 0) \<and> OnBridge \<in> set (trace (session (heap a 0)))"
    using user_hears_only_a_verified_human [OF a(1), of 1 0 "frame ''MZuser'' one_ms"] a(2) by auto
  with a(2) show ?thesis by blast
qed

text \<open>
  [C10] At most one apology: of the texts sent to a call's user, a fallback text is the last,
  and every one before it is the "you are connected" text.
\<close>

theorem fallback_is_the_last_text:
  assumes "app_reachable dp sett a" "texts g (twilio_log a) = xs @ FallbackSms t # ys"
  shows "ys = [] \<and> set xs \<subseteq> {ConnectedText}"
proof -
  have "told (texts g (twilio_log a)) (user_numbers a g)"
    using reachable_phone [OF assms(1)] by (simp add: phone_def)
  then have told: "set (butlast (xs @ FallbackSms t # ys)) \<subseteq> {ConnectedText}"
    by (simp only: told_def assms(2))
  then have "ys = []" by (cases ys rule: rev_cases) (auto simp: butlast_append)
  with told show ?thesis by (simp add: butlast_append)
qed

theorem fallback_is_the_last_text_witness:
  "\<exists>a. app_reachable demo_deps app_settings0 a \<and> texts ''g'' (twilio_log a) = [FallbackSms UserHungUp]"
proof -
  obtain a where run: "app_run demo_deps user_hung_up (create_app app_settings0) = Some a"
    and t: "texts ''g'' (twilio_log a) = [FallbackSms UserHungUp]"
    using demo_user_hung_up by blast
  have r: "app_reachable demo_deps app_settings0 a"
    by (rule app_run_reachable [OF app_reachable.created run])
  from fallback_is_the_last_text [OF r, of "''g''" "[]" UserHungUp "[]"] t r show ?thesis by auto
qed

text \<open>
  [C11] The business is dialled at most three times for one call: once by \<open>create_call\<close>, and
  again for at most \<open>_MAX_REDIALS\<close> drops.
\<close>

theorem business_dialled_at_most_three_times:
  assumes "app_reachable dp sett a"
  shows "dials g (twilio_log a) \<le> 1 + MAX_REDIALS
    \<and> (\<forall>m. call_meta a g = Some m \<longrightarrow> dials g (twilio_log a) \<le> 1 + redials m \<and> redials m \<le> MAX_REDIALS)"
  using reachable_phone [OF assms] by (auto simp: phone_def dialled_def split: option.splits)

theorem business_dialled_at_most_three_times_witness:
  "\<exists>a. app_reachable demo_deps app_settings0 a \<and> dials ''g'' (twilio_log a) = 2 \<and> dials ''g'' (twilio_log a) \<le> 3"
proof -
  obtain a where run: "app_run demo_deps dropped_and_redialled (create_app app_settings0) = Some a"
    and n: "dials ''g'' (twilio_log a) = 2"
    using demo_redial by blast
  have r: "app_reachable demo_deps app_settings0 a"
    by (rule app_run_reachable [OF app_reachable.created run])
  from business_dialled_at_most_three_times [OF r, of "''g''"] n r show ?thesis
    by (intro exI [of _ a]) (simp add: MAX_REDIALS_def)
qed

section \<open>What the operations do\<close>

lemma clear_context_twice [simp]: "clear_context g (clear_context g a) = clear_context g a"
  by (simp add: clear_context_def)



text \<open>
  Teardown is idempotent: a group torn down is in no registry, and tearing it down again,
  for whatever reason, changes nothing and asks nothing of Twilio.
\<close>

theorem teardown_is_idempotent:
  "teardown_group dp g reason' hang' (teardown_group dp g reason hang a) = teardown_group dp g reason hang a
   \<and> map_of (bridges (teardown_group dp g reason hang a)) g = None
   \<and> user_numbers (teardown_group dp g reason hang a) g = None
   \<and> call_meta (teardown_group dp g reason hang a) g = None"
proof -
  have "teardown_group dp g reason' hang' (teardown_group dp g reason hang a)
      = clear_context g (teardown_group dp g reason hang a)"
    by (simp add: teardown_group_def [where a = "teardown_group dp g reason hang a"])
  moreover have "clear_context g (teardown_group dp g reason hang a) = teardown_group dp g reason hang a"
    by (simp add: teardown_eq)
  ultimately show ?thesis by simp
qed

lemma stale_close [simp]: "stale now (close_bridge b) = stale now b"
  by (simp add: stale_def split: option.split)

lemma reap_over_spec:
  assumes "distinct (map fst xs)" "\<forall>(g, r) \<in> set xs. map_of (bridges a) g = Some r"
    "distinct (map fst (bridges a))"
  shows "fst (reap_over dp now xs a) = length (filter (\<lambda>(g, r). stale now (heap a r)) xs)
    \<and> bridges (snd (reap_over dp now xs a))
      = filter (\<lambda>(g, r). \<not> (stale now (heap a r) \<and> (g, r) \<in> set xs)) (bridges a)"
  using assms
proof (induction xs arbitrary: a)
  case (Cons x xs)
  obtain g r where x: "x = (g, r)" by fastforce
  show ?case
  proof (cases "stale now (heap a r)")
    case False
    with Cons show ?thesis
      by (auto simp: x intro!: filter_cong)
  next
    case True
    define b where "b = teardown_group dp g (Some ''dropped'') True a"
    have g: "map_of (bridges a) g = Some r" using Cons.prems(2) by (simp add: x)
    have b: "bridges b = AList.delete g (bridges a)" "stale now (heap b y) = stale now (heap a y)" for y
      by (simp_all add: b_def g)
    have "\<forall>(g', r') \<in> set xs. map_of (bridges b) g' = Some r'"
      using Cons.prems by (force simp: x b)
    from Cons.IH [OF _ this] Cons.prems(1,3) have IH:
      "fst (reap_over dp now xs b) = length (filter (\<lambda>(g, r). stale now (heap a r)) xs)"
      "bridges (snd (reap_over dp now xs b))
        = filter (\<lambda>(g, r). \<not> (stale now (heap a r) \<and> (g, r) \<in> set xs)) (AList.delete g (bridges a))"
      by (simp_all add: b)
    have one: "y = r" if "(g, y) \<in> set (bridges a)" for y
      using map_of_is_SomeI [OF Cons.prems(3) that] g by simp
    have "filter (\<lambda>(g, r). \<not> (stale now (heap a r) \<and> (g, r) \<in> set xs)) (AList.delete g (bridges a))
      = filter (\<lambda>(g, r). \<not> (stale now (heap a r) \<and> (g, r) \<in> set (x # xs))) (bridges a)"
      using True one by (auto simp: AList.delete_eq x intro!: filter_cong)
    with True IH show ?thesis
      by (cases "reap_over dp now xs b") (simp add: x b_def [symmetric])
  qed
qed simp



text \<open>
  [C18] The handoff does not wait for ever: once its task exists, 251 turns of it (the line is
  spoken, then 250 looks at the queue) open the relay, whether or not the queue drained.
\<close>

lemma handoff_turns:
  assumes "handoff_tasks a r = Some (Waiting n)"
  shows "\<exists>a'. app_run dp (replicate (n + 1) (HandoffTurn r)) a = Some a' \<and> relay_open (heap a' r)"
  using assms
proof (induction n arbitrary: a)
  case 0
  then show ?case
    by (simp add: app_step_def handoff_turn_eq Let_def sms_eq split: option.split)
next
  case (Suc n)
  let ?a = "handoff_turn dp r (Suc n) a"
  have step: "app_step dp a (HandoffTurn r) = Some ?a" using Suc.prems by (simp add: app_step_def)
  have opened: "\<exists>a'. app_run dp (replicate k (HandoffTurn r)) b = Some a' \<and> relay_open (heap a' r)"
    if "handoff_tasks b r = None" "relay_open (heap b r)" for b k
    using that by (induction k) (simp_all add: app_step_def)
  show ?case
  proof (cases "outbound_agent (heap a r) = []")
    case True
    then have "handoff_tasks ?a r = None" "relay_open (heap ?a r)"
      by (simp_all add: handoff_turn_eq Let_def sms_eq split: option.split)
    from opened [OF this, of "n + 1"] step show ?thesis by simp
  next
    case False
    then have "handoff_tasks ?a r = Some (Waiting n)" by (simp add: handoff_turn_eq)
    from Suc.IH [OF this] step show ?thesis by simp
  qed
qed



text \<open>
  The relay carries the call: with the relay open and the user's leg bound, the frames of
  the business call are queued for the user in order, and their payloads decode to exactly
  those bytes; before the relay is open none is queued, in either direction.
\<close>

theorem relay_carries_frames:
  assumes "relay_open b" "user_stream_sid b = Some sid"
  shows "\<exists>msgs. outbound_user (fold relay_to_user fs b) = outbound_user b @ msgs
    \<and> map (b64decode \<circ> payload_b64) msgs = map Some fs \<and> (\<forall>m. m \<in> set msgs \<longrightarrow> streamSid m = sid)
    \<and> (\<not> relay_open c \<longrightarrow> fold relay_to_user fs c = c \<and> fold on_user_audio fs c = c)"
proof -
  have "fold relay_to_user fs b = b\<lparr>outbound_user := outbound_user b @ map (frame sid) fs\<rparr>"
    using assms by (induction fs arbitrary: b) (simp_all add: relay_to_user_def)
  moreover have "fold relay_to_user fs c = c \<and> fold on_user_audio fs c = c" if "\<not> relay_open c"
    using that by (induction fs) (simp_all add: relay_to_user_def on_user_audio_def split: option.split)
  ultimately show ?thesis
    by (intro exI [of _ "map (frame sid) fs"]) (auto simp: frame_def)
qed

theorem relay_carries_frames_witness:
  "\<exists>msgs. outbound_user (fold relay_to_user [[1], [2]] ((demo_bridge demo_session)\<lparr>relay_open := True\<rparr>)) = msgs
     \<and> map (b64decode \<circ> payload_b64) msgs = [Some [1], Some [2]]"
proof -
  let ?b = "(demo_bridge demo_session)\<lparr>relay_open := True\<rparr>"
  have "relay_open ?b" "user_stream_sid ?b = Some ''MZuser''" "outbound_user ?b = []"
    by (simp_all add: demo_bridge_def wire_bridge_hooks_def bind_user_def bind_agent_def new_CallBridge_def)
  with relay_carries_frames [of ?b "''MZuser''" "[[1], [2]]" ?b] show ?thesis by auto
qed

text \<open>
  Playing audio into the call: the queued messages are addressed to the agent's stream,
  each carries at most one 20 ms frame of 160 bytes, and their payloads, decoded and joined,
  are the mu-law encoding of the samples.
\<close>

theorem played_audio_is_framed:
  assumes "agent_stream_sid b = Some sid"
  shows "\<exists>msgs. outbound_agent (play_to_agent order samples b) = outbound_agent b @ msgs
    \<and> concat (map (the \<circ> b64decode \<circ> payload_b64) msgs) = pcm16_to_ulaw order samples
    \<and> (\<forall>m. m \<in> set msgs \<longrightarrow> streamSid m = sid \<and> length (the (b64decode (payload_b64 m))) \<le> 160)"
proof -
  let ?fs = "slices FRAME (pcm16_to_ulaw order samples)"
  have "map (the \<circ> b64decode \<circ> payload_b64) (map (frame sid) fs) = fs" for fs
    by (induction fs) (simp_all add: frame_def)
  then have "concat (map (the \<circ> b64decode \<circ> payload_b64) (map (frame sid) ?fs)) = pcm16_to_ulaw order samples"
    by (simp only: concat_slices FRAME_def zero_less_numeral)
  moreover have "outbound_agent (play_to_agent order samples b) = outbound_agent b @ map (frame sid) ?fs"
    using assms by (simp add: play_to_agent_def)
  moreover have "streamSid m = sid \<and> length (the (b64decode (payload_b64 m))) \<le> 160"
    if "m \<in> set (map (frame sid) ?fs)" for m
    using that slices_size by (auto simp: frame_def FRAME_def)
  ultimately show ?thesis by blast
qed

theorem played_audio_is_framed_witness:
  "\<exists>msgs. outbound_agent (play_to_agent table_order [0, 1000] (demo_bridge demo_session)) = msgs
     \<and> concat (map (the \<circ> b64decode \<circ> payload_b64) msgs) = pcm16_to_ulaw table_order [0, 1000]"
proof -
  have "agent_stream_sid (demo_bridge demo_session) = Some ''MZCAx''" "outbound_agent (demo_bridge demo_session) = []"
    by (simp_all add: demo_bridge_def wire_bridge_hooks_def bind_user_def bind_agent_def new_CallBridge_def)
  with played_audio_is_framed [of "demo_bridge demo_session" "''MZCAx''" table_order "[0, 1000]"] show ?thesis
    by auto
qed

text \<open>
  [C26] Placing a call: a request that is invalid, or comes before Twilio is configured, changes
  nothing; when the dial raises, nothing is registered for the group; otherwise the goal and
  the number to redial are registered, and the user's leg and number exactly if their phone
  could be rung.
\<close>

theorem create_call_outcomes:
  "case create_call dp req g a of
     (Invalid, a') \<Rightarrow> a' = a \<and> \<not> valid_request req
   | (NotConfigured, a') \<Rightarrow> a' = a \<and> \<not> (has_twilio a \<and> public_base_url (app_settings a) \<noteq> '''')
   | (TwilioRaised, a') \<Rightarrow> a' = a\<lparr>twilio_log := twilio_log a @ [PlaceCall (business req) (voice_url a g) g]\<rparr>
   | (CallAccepted cid st, a') \<Rightarrow>
       twilio_reply dp (twilio_log a) (PlaceCall (business req) (voice_url a g) g) = Some cid
       \<and> pending_goals a' g = Some (call_goal req)
       \<and> call_meta a' g = Some \<lparr>business_number = business req, redials = 0\<rparr>
       \<and> (let rung = twilio_reply dp (twilio_log a @ [PlaceCall (business req) (voice_url a g) g])
                        (RingUser (user req) (join_url a g) g)
           in user_legs a' g = (if rung = None then user_legs a g else rung)
              \<and> user_numbers a' g = (if rung = None then user_numbers a g else Some (user req)))
       \<and> bridges a' = bridges a \<and> heap a' = heap a"
  by (simp add: create_call_def twilio_def ring_user_leg_def voice_url_def join_url_def Let_def split: option.split)

section \<open>What runs of it show\<close>


text \<open>
  A late close kills a reconnected call: when the stream has reconnected on a new socket
  before the old socket's end is processed, that end counts as a drop; the business is dialled
  again while it is on the line, and the bridge the new socket serves is closed and gone from
  the registry.
\<close>

theorem late_close_kills_the_reconnected_leg:
  "\<exists>a h. app_reachable demo_deps app_settings0 a \<and> bridges a = []
     \<and> sockets a 2 = Reading h \<and> h_bridge h = Some 0 \<and> bridge_closed (heap a 0)
     \<and> \<not> finished (session (heap a 0)) \<and> dials ''g'' (twilio_log a) = 2"
proof -
  obtain a h where run: "app_run demo_deps late_close (create_app app_settings0) = Some a"
    and a: "bridges a = []" "sockets a 2 = Reading h" "h_bridge h = Some 0" "bridge_closed (heap a 0)"
      "\<not> finished (session (heap a 0))" "dials ''g'' (twilio_log a) = 2"
    using demo_late_close by blast
  with app_run_reachable [OF app_reachable.created run] show ?thesis by blast
qed

text \<open>
  The relay may open to nobody: if the user hangs up while the holding line is spoken,
  the session is already over, so nothing is aborted; the handoff task then opens the relay
  with no user stream and texts the user that they are connected.
\<close>

theorem relay_may_open_to_nobody:
  assumes "handoff_tasks a r = Some (Waiting n)" "finished (session (heap a r))"
    "notify_user (heap a r) = Some g" "user_numbers a g = Some number" "number \<noteq> ''''" "has_twilio a"
    "n = 0 \<or> outbound_agent (heap a r) = []"
  shows "let a' = handoff_turn dp r n (user_unbound dp r a)
    in relay_open (heap a' r) \<and> user_stream_sid (heap a' r) = None
       \<and> texts g (twilio_log a') = texts g (twilio_log a) @ [ConnectedText]"
proof -
  have "user_unbound dp r a = at_bridge r (\<lambda>b. b\<lparr>user_stream_sid := None\<rparr>) a"
    using assms(2) by (simp add: user_unbound_def Let_def)
  with assms(3-7) show ?thesis
    by (auto simp: Let_def handoff_turn_eq sms_eq)
qed

theorem relay_may_open_to_nobody_witness:
  "\<exists>a::App. user_stream_sid (heap a 0) = Some ''MZuser''
    \<and> (let a' = handoff_turn demo_deps 0 0 (user_unbound demo_deps 0 a)
       in relay_open (heap a' 0) \<and> user_stream_sid (heap a' 0) = None
          \<and> texts ''g'' (twilio_log a') = [ConnectedText])"
proof -
  define a where "a = (create_app app_settings0)\<lparr>
    heap := (\<lambda>_. demo_bridge (demo_session\<lparr>finished := True\<rparr>)),
    handoff_tasks := [0 \<mapsto> Waiting 0], user_numbers := [''g'' \<mapsto> ''5551'']\<rparr>"
  have "handoff_tasks a 0 = Some (Waiting 0)" "finished (session (heap a 0))"
    "notify_user (heap a 0) = Some ''g''" "user_numbers a ''g'' = Some ''5551''" "has_twilio a"
    "user_stream_sid (heap a 0) = Some ''MZuser''" "texts ''g'' (twilio_log a) = []"
    by (simp_all add: a_def demo_bridge_def wire_bridge_hooks_def bind_user_def bind_agent_def
        new_CallBridge_def create_app_def build_twilio_client_def app_settings0_def default_Settings_def)
  with relay_may_open_to_nobody [of a 0 0 "''g''" "''5551''" demo_deps] show ?thesis
    by (intro exI [of _ a]) simp
qed

end
