(* ===== verification/Session_Limits.thy ===== *)
theory Session_Limits
  imports Session_Props
begin

text \<open>
  Bounds and limits of \<open>agent/session.py\<close>: how many windows one audio chunk can cost, that
  \<open>feed_audio\<close> returns, how often a call can fail, and two situations the state machine and
  the session handle differently than the design says (a probe wake that is lost for good, a
  menu decision that arrives after the menu).
\<close>

section \<open>What a tick leaves alone\<close>

definition windows :: "outcall list \<Rightarrow> nat" where
  "windows tr = length (filter (\<lambda>c. case c of Emit (FrameClassified _ _ _ _ _) \<Rightarrow> True | _ \<Rightarrow> False) tr)"

lemma windows_append [simp]: "windows (xs @ ys) = windows xs + windows ys"
  by (simp add: windows_def)

definition clock_frame :: "AgentSession \<Rightarrow> AgentSession \<Rightarrow> bool" where
  "clock_frame s s' \<longleftrightarrow> settings s' = settings s \<and> samples_seen s' = samples_seen s
     \<and> next_classify_at s' = next_classify_at s"

lemma clock_frame_trans: "clock_frame s s' \<Longrightarrow> clock_frame s' s'' \<Longrightarrow> clock_frame s s''"
  by (simp add: clock_frame_def)

lemma acts_frame: "acts now a s s' \<Longrightarrow> clock_frame s s' \<and> windows (trace s') = windows (trace s)"
  by (induction rule: acts.induct) (simp_all add: clock_frame_def effect_defs Let_def windows_def)

lemma windowed_frame:
  assumes "windowed now s s'" shows "clock_frame s s' \<and> windows (trace s') = windows (trace s) + 1"
  using assms
proof cases
  case (window l c c' fs)
  from acts_frame [OF this] show ?thesis
    by (simp add: clock_frame_def moved_def logs_def state_change_def window_event_def windows_def)
qed

lemma fired_frame: "fired now s s' \<Longrightarrow> clock_frame s s' \<and> windows (trace s') = windows (trace s)"
  by (induction rule: fired.induct) (simp_all add: clock_frame_def woken_def logs_def windows_def)

lemma answered_frame:
  assumes "answered now s s'" shows "clock_frame s s' \<and> windows (trace s') = windows (trace s)"
  using assms
proof cases
  case (verdict h why v)
  from acts_frame [OF verdict(2)] show ?thesis
    by (simp add: clock_frame_def moved_def logs_def state_change_def got_def windows_def)
qed (simp_all add: clock_frame_def logs_def got_def failed_at_def windows_def)

lemma tick_frame:
  assumes "tick now s s'" shows "clock_frame s s' \<and> windows (trace s') = windows (trace s) + 1"
  using assms
proof cases
  case (1 s1 s2)
  with windowed_frame [OF 1(1)] fired_frame [OF 1(2)] answered_frame [OF 1(3)] show ?thesis
    by (simp add: clock_frame_def)
qed

lemma interval_frame: "settings s' = settings s \<Longrightarrow> interval s' = interval s"
  by (simp add: interval_def)

lemma audio_frame: "settings s' = settings s \<Longrightarrow> samples_seen s' = samples_seen s \<Longrightarrow>
    audio_seconds s' = audio_seconds s"
  by (simp add: audio_seconds_def)

lemma tick_loop_returns:
  assumes "0 < interval s" "audio_seconds s - next_classify_at s < of_nat n * interval s"
  shows "\<exists>r s' w'. tick_loop env (s, w) = Some (r, (s', w')) \<and> windows (trace s') \<le> windows (trace s) + n"
  using assms
proof (induction n arbitrary: s w)
  case 0
  then show ?case by (simp add: tick_loop_stop)
next
  case (Suc n)
  show ?case
  proof (cases "next_classify_at s \<le> audio_seconds s")
    case False
    then show ?thesis by (simp add: tick_loop_stop)
  next
    case True
    obtain r s1 w1 where run: "run_tick env (next_classify_at s) (s, w) = (r, (s1, w1))"
      by (metis prod.exhaust)
    let ?s2 = "s1\<lparr>next_classify_at := next_classify_at s1 + interval s1\<rparr>"
    have f: "clock_frame s s1" "windows (trace s1) = windows (trace s) + 1"
      using tick_frame [OF run_tick_run [of "next_classify_at s" s env w]] run by simp_all
    show ?thesis
    proof (cases r)
      case (Inl e)
      with True run f show ?thesis by (simp add: tick_loop_go)
    next
      case (Inr u)
      have i: "interval s1 = interval s" "interval ?s2 = interval s"
        using f(1) by (simp_all add: clock_frame_def interval_def)
      have "audio_seconds ?s2 - next_classify_at ?s2 < of_nat n * interval ?s2"
        using Suc.prems(2) f(1) i by (simp add: clock_frame_def audio_seconds_def algebra_simps)
      then obtain r' s' w' where "tick_loop env (?s2, w1) = Some (r', (s', w'))"
          "windows (trace s') \<le> windows (trace ?s2) + n"
        using Suc.IH [of ?s2 w1] Suc.prems(1) i by auto
      with True run f Inr show ?thesis
        by (cases "finished s1") (simp_all add: tick_loop_go Let_def)
    qed
  qed
qed

lemma feed_audio_returns:
  assumes "0 < classifier_interval_ms (settings s)"
  shows "\<exists>r s' w'. feed_audio env chunk (s, w) = Some (r, (s', w'))
    \<and> windows (trace s') \<le> windows (trace s) + 4"
proof -
  let ?s = "skip_ahead (ingest chunk s)"
  have pos: "0 < interval (ingest chunk s)" "interval ?s = interval (ingest chunk s)"
    using assms by (simp_all add: interval_def ingest_def skip_ahead_def)
  have au: "audio_seconds ?s = audio_seconds (ingest chunk s)"
    by (simp add: skip_ahead_def audio_seconds_def)
  have "audio_seconds ?s - next_classify_at ?s < of_nat 4 * interval ?s"
    using pos au by (cases "3 * interval (ingest chunk s) < audio_seconds (ingest chunk s)
        - next_classify_at (ingest chunk s)") (simp_all add: skip_ahead_def)
  moreover have "trace ?s = trace s" by (simp add: skip_ahead_def ingest_def)
  ultimately show ?thesis
    using tick_loop_returns [of ?s 4 env w] pos by (simp add: feed_audio_def)
qed

text \<open>
  [C23] \<open>feed_audio\<close> returns, whatever the collaborators do, and one chunk, however long, costs
  at most four classifications: the skip-ahead bounds the backlog to three intervals, so a
  freeze cannot turn into a burst of ticks on the same audio. (The settings must give a
  positive cadence: with \<open>classifier_interval_ms = 0\<close> the clock would not advance.)
\<close>

theorem feed_audio_costs_four_ticks:
  assumes "0 < classifier_interval_ms (settings s)"
  shows "\<exists>r s' w'. feed_audio env chunk (s, w) = Some (r, (s', w'))
    \<and> windows (trace s') \<le> windows (trace s) + 4"
  by (rule feed_audio_returns [OF assms])

theorem feed_audio_costs_four_ticks_witness:
  "\<exists>r s' w'. feed_audio (scripted_env hold_then_speech) (Int16 (replicate 80000 0)) (demo_session, []) =
     Some (r, (s', w')) \<and> windows (trace s') \<le> 4"
  using feed_audio_costs_four_ticks [of demo_session "scripted_env hold_then_speech"
      "Int16 (replicate 80000 0)" "[]"]
  by (simp add: new_AgentSession_def demo_settings_def windows_def)

text \<open>
  A call fails at most twice, and twice it can: when the label stream ends the call
  while a probe is in flight, the same tick still polls the probe, and an error there fails
  the finished call again, with a second \<open>CallFailed\<close> and a second \<open>on_fail\<close> for another
  reason.
\<close>

theorem call_fails_at_most_twice:
  assumes "session_run env is (new_AgentSession cid sett cf g conf leg, w) = Some (s, w')"
  shows "length (failures (trace s)) \<le> 2 \<and> length (notices (trace s)) \<le> 2"
proof -
  note run = session_accepted [OF assms]
  have "length (failures (trace s)) \<le> 2"
    using monitored_failures [OF run] by (simp add: failure_inv_def)
  with monitored_notices [OF run] show ?thesis by simp
qed

theorem call_fails_at_most_twice_witness:
  "\<exists>s::AgentSession. trace s = double_failure_trace
     \<and> notices (trace s) = [''non_connect'', ''tier2_unavailable''] \<and> length (notices (trace s)) \<le> 2"
proof -
  obtain s where s: "session_run (scripted_env hold_speech_voicemail) [chunk8, chunk8]
      (demo_session, [None, Some (Inl (Tier2Unavailable ''''))]) = Some (s, [])"
      "trace s = double_failure_trace"
    using demo_double_failure by blast
  have "notices double_failure_trace = [''non_connect'', ''tier2_unavailable'']"
    by (simp add: notices_def double_failure_trace_def)
  with s call_fails_at_most_twice [OF s(1)] show ?thesis by (intro exI [of _ s]) simp
qed

section \<open>A probe wake lost for good\<close>

text \<open>
  The machine waits for a verdict, and no probe is on its way: the wake came while a menu
  decision was still in flight.
\<close>

definition unattended :: "AgentSession \<Rightarrow> bool" where
  "unattended s \<longleftrightarrow> state (fsm s) = EVALUATING_SPEECH \<and> tier2_kind s \<noteq> Some Probe"

definition still_unattended :: "AgentSession \<Rightarrow> AgentSession \<Rightarrow> bool" where
  "still_unattended s0 s \<longleftrightarrow> unattended s \<and> submitted (trace s) = submitted (trace s0)
     \<and> handoffs (trace s) = handoffs (trace s0)"

lemma observe_speech_in_eval:
  assumes "state m = EVALUATING_SPEECH"
  shows "fst (observe LIVE_SPEECH_CANDIDATE c now m) = NONE"
    "state (snd (observe LIVE_SPEECH_CANDIDATE c now m)) = EVALUATING_SPEECH"
  using assms by (simp_all add: observe_unfold Let_def on_evaluating_speech_def label_sets)

lemma windowed_unattended:
  assumes "label (classify env (frame_at now s)) = LIVE_SPEECH_CANDIDATE" "still_unattended s0 s"
  shows "still_unattended s0 (after (classify_and_observe env now) (s, w))"
proof -
  let ?c = "classify env (frame_at now s)"
  obtain c' fs w' where "after (classify_and_observe env now) (s, w) =
      after (dispatch env (fst (observe (label ?c) (confidence ?c) now (fsm s))) now)
        (moved now (snd (observe (label ?c) (confidence ?c) now (fsm s)))
           (logs [window_event s now (label ?c) c' fs] s), w')"
    using classify_exact [OF refl] .
  then show ?thesis
    using assms observe_speech_in_eval [of "fsm s" "confidence ?c" now]
    by (simp add: still_unattended_def unattended_def dispatch_def ret_def moved_def state_change_def
        logs_def submitted_def handoffs_def window_event_def)
qed

lemma fired_unattended: "fired now s s' \<Longrightarrow> still_unattended s0 s \<Longrightarrow> still_unattended s0 s'"
  by (induction rule: fired.induct) (simp_all add: still_unattended_def unattended_def)

lemma answered_unattended:
  assumes "answered now s s'" "still_unattended s0 s" shows "still_unattended s0 s'"
  using assms
  by cases (simp_all add: still_unattended_def unattended_def submitted_def handoffs_def failed_at_def
      logs_def got_def)

lemma run_tick_unattended:
  assumes "\<And>f. label (classify env f) = LIVE_SPEECH_CANDIDATE" "still_unattended s0 s"
  shows "still_unattended s0 (after (run_tick env now) (s, w))"
proof -
  obtain r1 s1 w1 where 1: "classify_and_observe env now (s, w) = (r1, (s1, w1))" by (metis prod.exhaust)
  obtain r2 s2 w2 where 2: "fire_menu_wake env now (s1, w1) = (r2, (s2, w2))" by (metis prod.exhaust)
  obtain r3 s3 w3 where 3: "poll_tier2 env now (s2, w2) = (r3, (s3, w3))" by (metis prod.exhaust)
  have "still_unattended s0 s1" using windowed_unattended [OF assms, of now w] 1 by simp
  moreover from this have "still_unattended s0 s2"
    using fired_unattended fire_run [of now s1 env w1] 2 by simp
  moreover from this have "still_unattended s0 s3"
    using answered_unattended poll_run [of now s2 env w2] 3 by simp
  ultimately show ?thesis
    by (cases r1; cases r2) (simp_all add: run_tick_def run_simps 1 2 3)
qed

lemma feed_audio_unattended:
  assumes "\<And>f. label (classify env f) = LIVE_SPEECH_CANDIDATE" "still_unattended s0 s"
    and "feed_audio env chunk (s, w) = Some (r, (s', w'))"
  shows "still_unattended s0 s'"
proof (cases "finished s")
  case True
  with assms(2,3) show ?thesis by (simp add: feed_audio_def)
next
  case False
  have "still_unattended s0 (skip_ahead (ingest chunk s))"
    using assms(2) by (simp add: still_unattended_def unattended_def skip_ahead_def ingest_def)
  moreover have "tick_loop env (skip_ahead (ingest chunk s), w) = Some (r, (s', w'))"
    using assms(3) False by (simp add: feed_audio_def)
  ultimately show ?thesis
    using tick_loop_invariant [of env _ r "(s', w')" "still_unattended s0"] False
      run_tick_unattended [OF assms(1)]
    by (fastforce simp: still_unattended_def unattended_def)
qed

text \<open>The situation arises: menu, hold music, then speech, with the menu decision outstanding.\<close>

definition menu_hold_speech :: "py_float \<Rightarrow> Label" where
  "menu_hold_speech t =
     (if t \<le> 0 then MENU_SPEAKING else if t \<le> 1 / 1000 then HOLD_MUSIC else LIVE_SPEECH_CANDIDATE)"

lemma demo_lost_probe:
  "\<exists>s. session_run (scripted_env menu_hold_speech) [chunk8, chunk8] (demo_session, []) = Some (s, [])
     \<and> state (fsm s) = EVALUATING_SPEECH \<and> tier2_kind s = Some Menu \<and> \<not> finished s
     \<and> submitted (trace s) = 1 \<and> handoffs (trace s) = 0 \<and> settings s = demo_settings"
  by (simp add: run_session_defs run_fsm_defs demo_defs menu_hold_speech_def submitted_def handoffs_def
      cong: eval_congs let_weak_cong)

text \<open>
  [C38] A probe wake that comes while a menu decision is in flight is dropped and never
  renewed: once the machine evaluates speech with no probe submitted, a human may talk on
  (every window a live-speech candidate) for as long as they like, and no job is submitted,
  nobody is connected, and the machine does not leave EVALUATING_SPEECH.
\<close>

theorem lost_probe_wake_is_never_renewed:
  assumes "\<And>f. label (classify env f) = LIVE_SPEECH_CANDIDATE"
    and "state (fsm s) = EVALUATING_SPEECH" "tier2_kind s = Some Menu"
    and "session_run env (map FeedAudio chunks) (s, w) = Some (s', w')"
  shows "state (fsm s') = EVALUATING_SPEECH \<and> submitted (trace s') = submitted (trace s)
    \<and> handoffs (trace s') = handoffs (trace s)"
proof -
  have keep: "still_unattended s s'" if "still_unattended s s1"
      "session_run env (map FeedAudio cs) (s1, w1) = Some (s', w')" for cs s1 w1
    using that
  proof (induction cs arbitrary: s1 w1)
    case (Cons c cs)
    then obtain r s2 w2 where "feed_audio env c (s1, w1) = Some (r, (s2, w2))"
        "session_run env (map FeedAudio cs) (s2, w2) = Some (s', w')"
      by (auto split: option.splits)
    with Cons feed_audio_unattended [OF assms(1)] show ?case by blast
  qed simp
  moreover have "still_unattended s s"
    using assms(2,3) by (simp add: still_unattended_def unattended_def)
  ultimately have "still_unattended s s'" using keep assms(4) by blast
  then show ?thesis by (simp add: still_unattended_def unattended_def)
qed

theorem lost_probe_wake_is_never_renewed_witness:
  "\<exists>s s' w'. session_run (scripted_env menu_hold_speech) [chunk8, chunk8] (demo_session, []) = Some (s, [])
     \<and> session_run (scripted_env (\<lambda>_. LIVE_SPEECH_CANDIDATE)) [chunk8] (s, []) = Some (s', w')
     \<and> state (fsm s') = EVALUATING_SPEECH \<and> handoffs (trace s') = 0"
proof -
  let ?env = "scripted_env (\<lambda>_. LIVE_SPEECH_CANDIDATE)"
  obtain s where s: "session_run (scripted_env menu_hold_speech) [chunk8, chunk8] (demo_session, []) = Some (s, [])"
      "state (fsm s) = EVALUATING_SPEECH" "tier2_kind s = Some Menu" "handoffs (trace s) = 0"
      "settings s = demo_settings"
    using demo_lost_probe by blast
  have "0 < classifier_interval_ms (settings s)" by (simp add: s(5) demo_settings_def)
  from feed_audio_returns [OF this, of ?env "Int16 [0, 0, 0, 0, 0, 0, 0, 0]" "[]"]
  obtain s' w' where run: "session_run ?env (map FeedAudio [Int16 [0, 0, 0, 0, 0, 0, 0, 0]]) (s, []) = Some (s', w')"
    by auto
  have "\<And>f. label (classify ?env f) = LIVE_SPEECH_CANDIDATE" by (simp add: scripted_env_def)
  from lost_probe_wake_is_never_renewed [OF this s(2,3) run] s run show ?thesis by auto
qed

section \<open>A decision for a menu that is gone\<close>

text \<open>
  A menu decision is carried out in whatever phase it arrives: if the call has left
  the menu meanwhile (say, for the hold queue), the key is pressed all the same, and since
  \<open>note_menu_action\<close> ignores it there, the press is not counted against the cap and starts
  no refractory window.
\<close>

theorem late_menu_decision_is_pressed_uncounted:
  assumes "tier2_kind s = Some Menu" "state (fsm s) \<noteq> IVR_MENU" "d \<noteq> ''''"
    and "exec_poll env w = (Inr (Some (Inr (MenuDecision (Some d) why))), w1)"
    and "fst (dtmf_sender env d w1) = Inr ()"
  shows "trace (after (poll_tier2 env now) (s, w)) = trace s @
      [PollResult (Inr (MenuDecision (Some d) why)), SendDtmf d, Emit (DtmfSent (session_call_id s) now d)]
    \<and> fsm (after (poll_tier2 env now) (s, w)) = fsm s"
proof -
  obtain w2 where "dtmf_sender env d w1 = (Inr (), w2)" using assms(5) by (metis prod.collapse)
  then show ?thesis
    using assms(1-4)
    by (simp add: poll_tier2_def apply_menu_def run_simps poll_def logs_def log_call_def note_menu_action_def)
qed

theorem late_menu_decision_is_pressed_uncounted_witness:
  "menu_presses (fsm (after (poll_tier2 (scripted_env menu_then_hold) 3)
     (demo_session\<lparr>tier2_kind := Some Menu, fsm := enter ON_HOLD (fsm demo_session)\<rparr>,
      [Some (Inr (MenuDecision (Some ''1'') ''''))]))) = 0"
  using late_menu_decision_is_pressed_uncounted
    [of "demo_session\<lparr>tier2_kind := Some Menu, fsm := enter ON_HOLD (fsm demo_session)\<rparr>" "''1''"
        "scripted_env menu_then_hold" "[Some (Inr (MenuDecision (Some ''1'') ''''))]" "''''" "[]" 3]
  by (simp add: scripted_env_def new_AgentSession_def new_CallStateMachine_def)

end
