(* ===== verification/Fsm_Runs.thy ===== *)
theory Fsm_Runs
  imports Fsm
begin

text \<open>
  Runs of the call-phase state machine (\<open>agent/state.py\<close>): the streak counter against the
  frame history, the machine under any sequence of its public methods (\<open>fsm_input\<close>), and
  the properties of such runs.
\<close>

section \<open>The streak counter against the frame history\<close>

type_synonym frame_label = "Label \<times> py_float \<times> py_float"  \<comment> \<open>label, confidence, time\<close>

primrec observe_all ::
  "frame_label list \<Rightarrow> CallStateMachine \<Rightarrow> Action list \<times> CallStateMachine" where
  "observe_all [] m = ([], m)"
| "observe_all (f # fs) m =
     (let (a, m1) = observe (fst f) (fst (snd f)) (snd (snd f)) m;
          (as, m2) = observe_all fs m1
      in (a # as, m2))"

lemma observe_all_Cons:
  "observe_all ((l, c, t) # fs) m =
     (fst (observe l c t m) # fst (observe_all fs (snd (observe l c t m))),
      snd (observe_all fs (snd (observe l c t m))))"
  by (simp add: case_prod_beta)

lemma observe_all_append:
  "observe_all (fs @ gs) m =
     (fst (observe_all fs m) @ fst (observe_all gs (snd (observe_all fs m))),
      snd (observe_all gs (snd (observe_all fs m))))"
  by (induction fs arbitrary: m) (simp_all add: case_prod_beta)

lemma cfg_observe_all [simp]: "cfg (snd (observe_all fs m)) = cfg m"
  by (induction fs arbitrary: m) (simp_all add: case_prod_beta)

text \<open>The labels that count, and the length of the run of equal labels a history ends in.\<close>

definition confident_labels :: "py_float \<Rightarrow> frame_label list \<Rightarrow> Label list" where
  "confident_labels minc fs = map fst (filter (\<lambda>f. minc \<le> fst (snd f)) fs)"

definition trailing_run :: "'a list \<Rightarrow> nat" where
  "trailing_run xs = length (takeWhile (\<lambda>x. x = last xs) (rev xs))"

lemma trailing_run_snoc:
  "trailing_run (xs @ [x]) = (if xs \<noteq> [] \<and> last xs = x then Suc (trailing_run xs) else 1)"
proof (cases xs rule: rev_cases)
  case (snoc ys y)
  then show ?thesis by (auto simp: trailing_run_def)
qed (simp add: trailing_run_def)

lemma trailing_run_Nil [simp]: "trailing_run [] = 0"
  by (simp add: trailing_run_def)

lemma trailing_run_suffix:
  "\<exists>ys. xs = ys @ replicate (trailing_run xs) (last xs)"
proof -
  have "rev xs = takeWhile (\<lambda>x. x = last xs) (rev xs) @ dropWhile (\<lambda>x. x = last xs) (rev xs)"
    by simp
  moreover have "takeWhile (\<lambda>x. x = last xs) (rev xs) = replicate (trailing_run xs) (last xs)"
    unfolding trailing_run_def
    by (rule replicate_length_same [symmetric]) (auto dest: set_takeWhileD)
  ultimately have "rev xs = replicate (trailing_run xs) (last xs) @ dropWhile (\<lambda>x. x = last xs) (rev xs)"
    by simp
  then have "xs = rev (replicate (trailing_run xs) (last xs) @ dropWhile (\<lambda>x. x = last xs) (rev xs))"
    by (metis rev_rev_ident)
  then show ?thesis by auto
qed

text \<open>The streak the history calls for on its last frame: 0 when that frame does not count.\<close>

definition evidence :: "py_float \<Rightarrow> frame_label list \<Rightarrow> nat" where
  "evidence minc fs =
     (if fs \<noteq> [] \<and> minc \<le> fst (snd (last fs)) then trailing_run (confident_labels minc fs) else 0)"

definition tracks :: "frame_label list \<Rightarrow> CallStateMachine \<Rightarrow> bool" where
  "tracks fs m \<longleftrightarrow>
     (let ls = confident_labels (min_confidence (cfg m)) fs
      in streak m = trailing_run ls \<and> streak_label m = (if ls = [] then None else Some (last ls)))"

lemma confident_labels_snoc:
  "confident_labels minc (fs @ [(l, c, t)]) =
     confident_labels minc fs @ (if minc \<le> c then [l] else [])"
  by (simp add: confident_labels_def)

lemma streak_for_tracks:
  assumes "tracks fs m"
  shows "fst (streak_for l c m) = evidence (min_confidence (cfg m)) (fs @ [(l, c, t)])"
    and "tracks (fs @ [(l, c, t)]) (snd (streak_for l c m))"
proof -
  let ?ls = "confident_labels (min_confidence (cfg m)) fs"
  have sl: "streak m = trailing_run ?ls" "streak_label m = (if ?ls = [] then None else Some (last ?ls))"
    using assms by (simp_all add: tracks_def Let_def)
  have eq: "(Some l = streak_label m) = (?ls \<noteq> [] \<and> last ?ls = l)"
    by (auto simp: sl)
  show "fst (streak_for l c m) = evidence (min_confidence (cfg m)) (fs @ [(l, c, t)])"
    by (simp add: streak_for_def evidence_def Let_def confident_labels_snoc trailing_run_snoc eq sl(1))
  show "tracks (fs @ [(l, c, t)]) (snd (streak_for l c m))"
  proof (cases "min_confidence (cfg m) \<le> c")
    case True
    then show ?thesis
      using sl(1) eq
      by (auto simp: tracks_def streak_for_def Let_def confident_labels_snoc trailing_run_snoc)
  next
    case False
    with sl show ?thesis
      by (simp add: tracks_def streak_for_def Let_def confident_labels_snoc)
  qed
qed

text \<open>\<open>dwells p fs m\<close>: the machine is in phase \<open>p\<close> before, between and after the frames.\<close>

primrec dwells :: "CallState \<Rightarrow> frame_label list \<Rightarrow> CallStateMachine \<Rightarrow> bool" where
  "dwells p [] m \<longleftrightarrow> state m = p"
| "dwells p (f # fs) m \<longleftrightarrow>
     state m = p \<and> dwells p fs (snd (observe (fst f) (fst (snd f)) (snd (snd f)) m))"

lemma dwells_start: "dwells p fs m \<Longrightarrow> state m = p"
  by (cases fs) auto

lemma dwells_tracks:
  "dwells p fs m \<Longrightarrow> tracks gs m \<Longrightarrow>
     tracks (gs @ fs) (snd (observe_all fs m)) \<and> state (snd (observe_all fs m)) = p"
proof (induction fs arbitrary: gs m)
  case (Cons f fs)
  obtain l c t where f: "f = (l, c, t)" by (cases f) auto
  let ?m1 = "snd (observe l c t m)"
  from Cons.prems f have dw: "dwells p fs ?m1" and st: "state ?m1 = state m"
    by (auto dest: dwells_start)
  have "tracks (gs @ [f]) ?m1"
    using streak_for_tracks(2) [OF Cons.prems(2), of l c t] st f
    by (simp add: tracks_def observe_streak)
  from Cons.IH [OF dw this] f show ?case
    by (simp add: case_prod_beta)
qed simp

text \<open>A phase change finds a fresh streak, and so does a new machine.\<close>

definition fresh :: "CallStateMachine \<Rightarrow> bool" where
  "fresh m \<longleftrightarrow> streak m = 0 \<and> streak_label m = None"

lemma fresh_tracks [simp]: "tracks [] m \<longleftrightarrow> fresh m"
  by (simp add: tracks_def fresh_def confident_labels_def)

lemma fresh_new [simp]: "fresh (new_CallStateMachine c)"
  by (simp add: fresh_def new_CallStateMachine_def)

lemma fresh_after_change:
  "state (snd (observe l c t m)) \<noteq> state m \<Longrightarrow> fresh (snd (observe l c t m))"
  by (simp add: fresh_def observe_streak)

lemma fresh_enter [simp]: "fresh (enter st m)" "fresh (fall_back_to_hold now m)"
  by (simp_all add: fresh_def)

text \<open>
  [C8] Debouncing, against the whole history of a phase: when the machine has dwelt in a
  phase since its streak was fresh, what the next frame makes it do is what the evidence
  table allows for the number of counting frames in a row that carried that very label
  (0 when the frame itself is below the confidence floor). In particular the phase changes
  only on a sustained label, never on one that flickered.
\<close>

theorem observe_refines_evidence_table:
  assumes "fresh m" "dwells p fs m"
  shows "phase_rule (snd (observe_all fs m)) t l
           (evidence (min_confidence (cfg m)) (fs @ [(l, c, t)]))
           (fst (observe l c t (snd (observe_all fs m))))
           (state (snd (observe l c t (snd (observe_all fs m)))))"
proof -
  let ?m = "snd (observe_all fs m)"
  from assms have "tracks fs ?m" using dwells_tracks [of p fs m "[]"] by simp
  then have "fst (streak_for l c ?m) = evidence (min_confidence (cfg m)) (fs @ [(l, c, t)])"
    using streak_for_tracks(1) [of fs ?m l c t] by simp
  with observe_phase_rule [of ?m t l c] show ?thesis by simp
qed

theorem observe_refines_evidence_table_witness:
  "phase_rule
     (snd (observe_all [(SILENCE, 0.9, 0), (MENU_SPEAKING, 0.9, 1), (MENU_SPEAKING, 0.9, 2),
        (UNKNOWN, 0.4, 3), (MENU_SPEAKING, 0.9, 4), (MENU_SPEAKING, 0.9, 5)]
        (new_CallStateMachine default_FsmConfig)))
     6 MENU_SPEAKING 5 WAKE_TIER2_MENU IVR_MENU"
proof -
  let ?m = "new_CallStateMachine default_FsmConfig"
  let ?fs = "[(SILENCE, 0.9, 0), (MENU_SPEAKING, 0.9, 1), (MENU_SPEAKING, 0.9, 2),
    (UNKNOWN, 0.4, 3), (MENU_SPEAKING, 0.9, 4), (MENU_SPEAKING, 0.9, 5)] :: frame_label list"
  note run_defs = new_CallStateMachine_def default_FsmConfig_def observe_def streak_for_def
    on_dialing_def label_sets
  have "dwells DIALING ?fs ?m"
    by (simp add: run_defs)
  from observe_refines_evidence_table [OF fresh_new this, of 6 MENU_SPEAKING "0.9"]
  show ?thesis
    by (simp add: run_defs evidence_def confident_labels_def trailing_run_def numeral_eq_Suc)
qed

section \<open>Any sequence of calls\<close>

text \<open>The public methods as inputs; \<open>fsm_step\<close> is the method call.\<close>

datatype fsm_input =
    Observe Label py_float py_float
  | ProbeVerdict bool py_float
  | MenuPressed py_float
  | MenuAbstained
  | Bridged
  | Completed
  | Failed

fun fsm_step :: "fsm_input \<Rightarrow> CallStateMachine \<Rightarrow> Action \<times> CallStateMachine" where
  "fsm_step (Observe l c t) m = observe l c t m"
| "fsm_step (ProbeVerdict h t) m = probe_result h t m"
| "fsm_step (MenuPressed t) m = (NONE, note_menu_action t m)"
| "fsm_step MenuAbstained m = (NONE, note_menu_abstained m)"
| "fsm_step Bridged m = (NONE, bridged m)"
| "fsm_step Completed m = (NONE, completed m)"
| "fsm_step Failed m = (NONE, failed m)"

primrec fsm_run :: "fsm_input list \<Rightarrow> CallStateMachine \<Rightarrow> Action list \<times> CallStateMachine" where
  "fsm_run [] m = ([], m)"
| "fsm_run (i # is) m =
     (let (a, m1) = fsm_step i m; (as, m2) = fsm_run is m1 in (a # as, m2))"

lemma fsm_run_Cons:
  "fsm_run (i # is) m =
     (fst (fsm_step i m) # fst (fsm_run is (snd (fsm_step i m))),
      snd (fsm_run is (snd (fsm_step i m))))"
  by (simp add: case_prod_beta)

declare fsm_run.simps(2) [simp del]

lemma fsm_run_append:
  "fsm_run (is @ js) m =
     (fst (fsm_run is m) @ fst (fsm_run js (snd (fsm_run is m))),
      snd (fsm_run js (snd (fsm_run is m))))"
  by (induction "is" arbitrary: m) (simp_all add: fsm_run_Cons)

lemma fsm_run_observe_all:
  "fsm_run (map (\<lambda>(l, c, t). Observe l c t) fs) m = observe_all fs m"
  by (induction fs arbitrary: m) (auto simp: fsm_run_Cons case_prod_beta)

text \<open>An invariant every step keeps holds after every run.\<close>

lemma fsm_run_invariant:
  assumes "\<And>i m. i \<in> set is \<Longrightarrow> I m \<Longrightarrow> I (snd (fsm_step i m))" and "I m"
  shows "I (snd (fsm_run is m))"
  using assms by (induction "is" arbitrary: m) (simp_all add: fsm_run_Cons)

lemma fsm_run_actions:
  assumes "\<And>i m. i \<in> set is \<Longrightarrow> I m \<Longrightarrow> I (snd (fsm_step i m)) \<and> P (fst (fsm_step i m))" and "I m"
  shows "\<forall>a \<in> set (fst (fsm_run is m)). P a"
  using assms
proof (induction "is" arbitrary: m)
  case (Cons i "is")
  have "I (snd (fsm_step i m)) \<and> P (fst (fsm_step i m))"
    using Cons.prems by simp
  moreover have "\<forall>a \<in> set (fst (fsm_run is (snd (fsm_step i m)))). P a"
    by (rule Cons.IH) (use Cons.prems calculation in simp_all)
  ultimately show ?case by (simp add: fsm_run_Cons)
qed simp

lemma cfg_fsm_step [simp]: "cfg (snd (fsm_step i m)) = cfg m"
  by (cases i) simp_all

lemma cfg_fsm_run [simp]: "cfg (snd (fsm_run is m)) = cfg m"
  by (rule fsm_run_invariant [where I = "\<lambda>x. cfg x = cfg m"]) simp_all

subsection \<open>The phase graph\<close>

lemma fsm_step_edge:
  "state (snd (fsm_step i m)) = state m \<or> phase_edge (state m) (state (snd (fsm_step i m)))
   \<or> (i = Completed \<and> state (snd (fsm_step i m)) = DONE)
   \<or> (i = Failed \<and> state (snd (fsm_step i m)) = FAILED)"
  using phase_rule_edge [OF observe_phase_rule]
  by (cases i) (auto simp: state_bridged state_probe_result intro: phase_edge.intros)

text \<open>
  [C6] Whatever methods are called in whatever order, each call leaves the phase alone or
  moves it along an edge of the documented phase graph; the two unconditional overrides
  \<open>completed\<close> and \<open>failed\<close> are the only other moves, to DONE and to FAILED.
\<close>

theorem every_call_follows_phase_graph:
  "let p = state (snd (fsm_run is (new_CallStateMachine c)));
       q = state (snd (fsm_run (is @ [i]) (new_CallStateMachine c)))
   in q = p \<or> phase_edge p q \<or> (i = Completed \<and> q = DONE) \<or> (i = Failed \<and> q = FAILED)"
  using fsm_step_edge [of i "snd (fsm_run is (new_CallStateMachine c))"]
  by (simp add: Let_def fsm_run_append fsm_run_Cons)

subsection \<open>Bridging needs a probe and a human verdict\<close>

lemma fsm_step_bridge:
  "fst (fsm_step i m) = BRIDGE \<longleftrightarrow>
     state m = EVALUATING_SPEECH \<and> (\<exists>t. i = ProbeVerdict True t)"
  by (cases i) (auto simp: observe_action_range action_probe_result)

lemma fsm_step_enters_eval:
  assumes "state (snd (fsm_step i m)) = EVALUATING_SPEECH" "state m \<noteq> EVALUATING_SPEECH"
  shows "fst (fsm_step i m) = WAKE_TIER2_PROBE"
  using assms observe_enters_eval
  by (cases i) (auto simp: state_bridged state_probe_result split: if_splits)

lemma in_eval_was_woken:
  "state m \<noteq> EVALUATING_SPEECH \<Longrightarrow> state (snd (fsm_run is m)) = EVALUATING_SPEECH \<Longrightarrow>
     WAKE_TIER2_PROBE \<in> set (fst (fsm_run is m))"
proof (induction "is" rule: rev_induct)
  case (snoc i "is")
  let ?m = "snd (fsm_run is m)"
  show ?case
  proof (cases "state ?m = EVALUATING_SPEECH")
    case True
    with snoc show ?thesis by (simp add: fsm_run_append)
  next
    case False
    with snoc.prems fsm_step_enters_eval [of i ?m] show ?thesis
      by (simp add: fsm_run_append fsm_run_Cons)
  qed
qed simp

lemma in_eval_was_woken_new:
  "state (snd (fsm_run is (new_CallStateMachine c))) = EVALUATING_SPEECH \<Longrightarrow>
     WAKE_TIER2_PROBE \<in> set (fst (fsm_run is (new_CallStateMachine c)))"
  by (rule in_eval_was_woken) (simp_all add: new_CallStateMachine_def)

text \<open>
  The machine asks for the handoff only on a human verdict: if a call answers BRIDGE
  it is \<open>probe_result(True)\<close>, and the probe had been asked for earlier in the run.
\<close>

theorem bridge_only_on_human_verdict:
  assumes "fst (fsm_step i (snd (fsm_run is (new_CallStateMachine c)))) = BRIDGE"
  shows "(\<exists>t. i = ProbeVerdict True t)
         \<and> WAKE_TIER2_PROBE \<in> set (fst (fsm_run is (new_CallStateMachine c)))"
  using assms by (auto simp: fsm_step_bridge intro: in_eval_was_woken_new)

theorem bridge_only_on_human_verdict_witness:
  "(\<exists>t. ProbeVerdict True 20 = ProbeVerdict True t)
   \<and> WAKE_TIER2_PROBE \<in> set (fst (fsm_run
        (map (\<lambda>t. Observe HOLD_MUSIC 0.9 t) [0, 1, 2, 3, 4, 5]
         @ map (\<lambda>t. Observe LIVE_SPEECH_CANDIDATE 0.9 t) [12, 13])
        (new_CallStateMachine default_FsmConfig)))"
  by (rule bridge_only_on_human_verdict)
    (simp add: fsm_run_Cons new_CallStateMachine_def default_FsmConfig_def observe_def
      streak_for_def handler_defs label_sets LIVE_STATES_def probe_result_def Let_def)

lemma past_eval_closed:
  assumes "state m \<in> {HUMAN_DETECTED, BRIDGING, DONE, FAILED}"
  shows "state (snd (fsm_step i m)) \<in> {HUMAN_DETECTED, BRIDGING, DONE, FAILED}"
    and "fst (fsm_step i m) = NONE"
  using assms by (cases i; auto simp: observe_past_live LIVE_STATES_def probe_result_def
      state_bridged)+

lemma past_eval_silent:
  assumes "state m \<in> {HUMAN_DETECTED, BRIDGING, DONE, FAILED}"
  shows "fst (fsm_run is m) = replicate (length is) NONE"
    "state (snd (fsm_run is m)) \<in> {HUMAN_DETECTED, BRIDGING, DONE, FAILED}"
proof -
  have "fst (fsm_run is m) = replicate (length is) NONE
        \<and> state (snd (fsm_run is m)) \<in> {HUMAN_DETECTED, BRIDGING, DONE, FAILED}"
    using assms
  proof (induction "is" arbitrary: m)
    case (Cons i "is")
    from Cons.IH [OF past_eval_closed(1) [OF Cons.prems, of i]] past_eval_closed(2) [OF Cons.prems, of i]
    show ?case by (simp add: fsm_run_Cons)
  qed simp
  then show "fst (fsm_run is m) = replicate (length is) NONE"
    "state (snd (fsm_run is m)) \<in> {HUMAN_DETECTED, BRIDGING, DONE, FAILED}" by simp_all
qed

text \<open>Once a human is detected, or the machine is DONE or FAILED, it asks for nothing more.\<close>

lemma bridge_step_state: "fst (fsm_step i m) = BRIDGE \<Longrightarrow> state (snd (fsm_step i m)) = HUMAN_DETECTED"
  by (auto simp: fsm_step_bridge state_probe_result)

lemma fail_step_state: "fst (fsm_step i m) = FAIL \<Longrightarrow> state (snd (fsm_step i m)) = FAILED"
  by (cases i) (auto simp: observe_fail_state action_probe_result split: if_splits)

text \<open>
  The outcome is decided once: along any run at most one call answers BRIDGE or FAIL,
  and every call after it answers NONE.
\<close>

theorem outcome_decided_once:
  assumes "fst (fsm_run (is @ i # js) m) = as" "as ! length is \<in> {BRIDGE, FAIL}"
  shows "\<forall>k > length is. k < length as \<longrightarrow> as ! k = NONE"
proof -
  let ?m = "snd (fsm_run is m)"
  have len: "length (fst (fsm_run xs x)) = length xs" for xs x
    by (induction xs arbitrary: x) (simp_all add: fsm_run_Cons)
  have as: "as = fst (fsm_run is m) @ fst (fsm_step i ?m) # fst (fsm_run js (snd (fsm_step i ?m)))"
    using assms(1) by (simp add: fsm_run_append fsm_run_Cons)
  then have "fst (fsm_step i ?m) \<in> {BRIDGE, FAIL}"
    using assms(2) by (simp add: len nth_append)
  then have "state (snd (fsm_step i ?m)) \<in> {HUMAN_DETECTED, BRIDGING, DONE, FAILED}"
    using bridge_step_state [of i ?m] fail_step_state [of i ?m] by auto
  from past_eval_silent(1) [OF this, of js] as show ?thesis
    by (auto simp: len nth_append nth_Cons split: nat.split)
qed

theorem outcome_decided_once_witness:
  "[NONE, FAIL, NONE, NONE] ! 2 = NONE \<and> [NONE, FAIL, NONE, NONE] ! 3 = NONE"
proof -
  have "\<forall>k > length [Observe VOICEMAIL 0.9 0].
     k < length [NONE, FAIL, NONE, NONE] \<longrightarrow> [NONE, FAIL, NONE, NONE] ! k = NONE"
    by (rule outcome_decided_once [where m = "new_CallStateMachine default_FsmConfig"
          and i = "Observe VOICEMAIL 0.9 1"
          and js = "[Observe LIVE_SPEECH_CANDIDATE 0.9 2, ProbeVerdict True 3]"])
      (simp_all add: fsm_run_Cons new_CallStateMachine_def default_FsmConfig_def observe_def
        streak_for_def handler_defs label_sets LIVE_STATES_def probe_result_def Let_def enter_def)
  from this [THEN spec, of 2] this [THEN spec, of 3] show ?thesis
    by simp
qed

subsection \<open>The refractory window\<close>

fun input_time :: "fsm_input \<Rightarrow> py_float option" where
  "input_time (Observe _ _ t) = Some t"
| "input_time (ProbeVerdict _ t) = Some t"
| "input_time (MenuPressed t) = Some t"
| "input_time _ = None"

definition stamped_in :: "py_float \<Rightarrow> py_float \<Rightarrow> fsm_input \<Rightarrow> bool" where
  "stamped_in t0 t1 i \<longleftrightarrow> (case input_time i of None \<Rightarrow> True | Some t \<Rightarrow> t0 \<le> t \<and> t < t1)"

lemma refractory_step:
  assumes "stamped_in t0 (t0 + refractory_s (cfg m)) i" "t0 + refractory_s (cfg m) \<le> refractory_until m"
  shows "t0 + refractory_s (cfg m) \<le> refractory_until (snd (fsm_step i m))"
    and "fst (fsm_step i m) \<noteq> WAKE_TIER2_PROBE"
proof -
  show "t0 + refractory_s (cfg m) \<le> refractory_until (snd (fsm_step i m))"
    using assms
    by (cases i) (auto simp: stamped_in_def observe_refractory probe_result_def)
  show "fst (fsm_step i m) \<noteq> WAKE_TIER2_PROBE"
  proof
    assume wake: "fst (fsm_step i m) = WAKE_TIER2_PROBE"
    then obtain l c t where "i = Observe l c t"
      by (cases i) (auto simp: action_probe_result split: if_splits)
    with wake assms observe_probe_state(4) [of l c t m] show False
      by (auto simp: stamped_in_def)
  qed
qed

text \<open>
  The refractory window: after a probe that found no human (or a candidate that
  reverted to hold) at time \<open>t0\<close>, no sequence of calls stamped before
  \<open>t0 + refractory_s\<close> wakes another probe, whatever labels the line shows.
\<close>

theorem refractory_blocks_probe:
  assumes "m = fall_back_to_hold t0 m0" "\<forall>i \<in> set is. stamped_in t0 (t0 + refractory_s (cfg m0)) i"
  shows "WAKE_TIER2_PROBE \<notin> set (fst (fsm_run is m))"
proof -
  let ?I = "\<lambda>x :: CallStateMachine. cfg x = cfg m0 \<and> t0 + refractory_s (cfg m0) \<le> refractory_until x"
  have "\<forall>a \<in> set (fst (fsm_run is m)). a \<noteq> WAKE_TIER2_PROBE"
  proof (rule fsm_run_actions [where I = ?I])
    fix i and x :: CallStateMachine assume i: "i \<in> set is" and x: "?I x"
    with assms(2) have "stamped_in t0 (t0 + refractory_s (cfg x)) i" by simp
    from refractory_step [OF this] x
    show "?I (snd (fsm_step i x)) \<and> fst (fsm_step i x) \<noteq> WAKE_TIER2_PROBE" by simp
  qed (simp add: assms(1))
  then show ?thesis by blast
qed

definition on_hold_at_20 :: CallStateMachine where
  "on_hold_at_20 = fall_back_to_hold 20
     ((new_CallStateMachine default_FsmConfig)\<lparr>state := EVALUATING_SPEECH\<rparr>)"

theorem refractory_blocks_probe_witness:
  "WAKE_TIER2_PROBE \<notin> set (fst (fsm_run
      [Observe LIVE_SPEECH_CANDIDATE 0.9 20.5, Observe LIVE_SPEECH_CANDIDATE 0.9 21,
       Observe LIVE_SPEECH_CANDIDATE 0.9 27.5] on_hold_at_20))"
  by (rule refractory_blocks_probe [OF on_hold_at_20_def])
    (simp add: stamped_in_def new_CallStateMachine_def default_FsmConfig_def)

subsection \<open>Sustained evidence is acted on\<close>

lemma on_hold_speech_step:
  assumes "state m = ON_HOLD" "min_confidence (cfg m) \<le> c" "refractory_until m \<le> t"
    and "m1 = snd (streak_for LIVE_SPEECH_CANDIDATE c m)"
  shows "observe LIVE_SPEECH_CANDIDATE c t m =
    (if enter_eval_frames (cfg m) \<le> streak m1 then (WAKE_TIER2_PROBE, enter EVALUATING_SPEECH m1)
     else (NONE, m1))"
  using assms
  by (simp add: observe_unfold on_on_hold_def label_sets Let_def streak_for_def)

lemma sustained_speech_on_hold:
  assumes "state m = ON_HOLD" "0 < n" "streak m + n = enter_eval_frames (cfg m)"
    and "streak m = 0 \<or> streak_label m = Some LIVE_SPEECH_CANDIDATE" "length fs = n"
    and "\<forall>(l, c, t) \<in> set fs. l = LIVE_SPEECH_CANDIDATE \<and> min_confidence (cfg m) \<le> c
           \<and> refractory_until m \<le> t"
  shows "fst (observe_all fs m) = replicate (n - 1) NONE @ [WAKE_TIER2_PROBE]
         \<and> state (snd (observe_all fs m)) = EVALUATING_SPEECH"
  using assms
proof (induction fs arbitrary: m n)
  case (Cons f fs)
  obtain l c t where f: "f = (l, c, t)" by (cases f) auto
  let ?m1 = "snd (streak_for LIVE_SPEECH_CANDIDATE c m)"
  have l: "l = LIVE_SPEECH_CANDIDATE" and c: "min_confidence (cfg m) \<le> c"
    and t: "refractory_until m \<le> t" using Cons.prems(6) f by auto
  have m1: "streak ?m1 = Suc (streak m)" "streak_label ?m1 = Some LIVE_SPEECH_CANDIDATE"
    using Cons.prems(4) c by (auto simp: streak_for_def Let_def)
  note step = on_hold_speech_step [OF Cons.prems(1) c t refl]
  show ?case
  proof (cases "n = 1")
    case True
    with Cons.prems m1 step show ?thesis by (simp add: f l observe_all_Cons del: observe_all.simps(2))
  next
    case False
    with Cons.prems m1 have "\<not> enter_eval_frames (cfg m) \<le> streak ?m1" by simp
    with step have obs: "observe LIVE_SPEECH_CANDIDATE c t m = (NONE, ?m1)" by simp
    have "fst (observe_all fs ?m1) = replicate (n - 1 - 1) NONE @ [WAKE_TIER2_PROBE]
          \<and> state (snd (observe_all fs ?m1)) = EVALUATING_SPEECH"
      by (rule Cons.IH) (use Cons.prems False m1 in auto)
    with obs False Cons.prems(2) show ?thesis
      by (cases n) (auto simp: f l observe_all_Cons Cons_replicate_eq gr0_conv_Suc
          simp del: observe_all.simps(2))
  qed
qed simp

text \<open>
  [C35] A person who starts talking on hold is noticed, and no later than promised: once the
  refractory window is over, \<open>enter_eval_frames\<close> counting speech frames in a row (starting
  from a fresh streak) wake the probe exactly at the last of them.
\<close>

theorem speech_on_hold_wakes_probe:
  assumes "state m = ON_HOLD" "fresh m" "0 < enter_eval_frames (cfg m)"
    and "length fs = enter_eval_frames (cfg m)"
    and "\<forall>(l, c, t) \<in> set fs. l = LIVE_SPEECH_CANDIDATE \<and> min_confidence (cfg m) \<le> c
           \<and> refractory_until m \<le> t"
  shows "fst (observe_all fs m) = replicate (enter_eval_frames (cfg m) - 1) NONE @ [WAKE_TIER2_PROBE]
         \<and> state (snd (observe_all fs m)) = EVALUATING_SPEECH"
  by (rule sustained_speech_on_hold) (use assms in \<open>auto simp: fresh_def\<close>)

theorem speech_on_hold_wakes_probe_witness:
  "fst (observe_all [(LIVE_SPEECH_CANDIDATE, 0.6, 28), (LIVE_SPEECH_CANDIDATE, 0.6, 28.5)] on_hold_at_20)
     = [NONE, WAKE_TIER2_PROBE]"
  using speech_on_hold_wakes_probe [of on_hold_at_20
      "[(LIVE_SPEECH_CANDIDATE, 0.6, 28), (LIVE_SPEECH_CANDIDATE, 0.6, 28.5)]"]
  by (simp add: on_hold_at_20_def new_CallStateMachine_def default_FsmConfig_def)

subsection \<open>The debounce is per label\<close>

lemma streak_at_most_one:
  assumes "streak m \<le> 1" "streak_label m \<noteq> Some l"
  shows "fst (streak_for l c m) \<le> 1" "streak (snd (streak_for l c m)) \<le> 1"
    "streak_label (snd (streak_for l c m)) \<in> {streak_label m, Some l}"
  using assms by (auto simp: streak_for_def Let_def)

lemma eval_kept_by_short_streak:
  assumes "state m = EVALUATING_SPEECH" "l \<in> HOLD_LABELS" "fst (streak_for l c m) < leave_eval_frames (cfg m)"
  shows "observe l c t m = (NONE, snd (streak_for l c m))"
  using assms by (auto simp: observe_unfold on_evaluating_speech_def Let_def label_sets)

text \<open>
  A line that has gone back to hold, but whose frames keep changing between hold-like
  labels (music, silence, interjection), never takes the machine out of
  EVALUATING_SPEECH, however long that lasts: the streak counts one label, not the set.
\<close>

theorem changing_hold_labels_never_leave_eval:
  assumes "state m = EVALUATING_SPEECH" "fresh m" "2 \<le> leave_eval_frames (cfg m)"
    and "\<forall>f \<in> set fs. fst f \<in> HOLD_LABELS \<and> min_confidence (cfg m) \<le> fst (snd f)"
    and "successively (\<noteq>) (map fst fs)"
  shows "state (snd (observe_all fs m)) = EVALUATING_SPEECH
         \<and> fst (observe_all fs m) = replicate (length fs) NONE"
proof -
  have "state (snd (observe_all fs x)) = EVALUATING_SPEECH
        \<and> fst (observe_all fs x) = replicate (length fs) NONE"
    if "state x = EVALUATING_SPEECH" "streak x \<le> 1" "cfg x = cfg m"
      "fs \<noteq> [] \<longrightarrow> streak_label x \<noteq> Some (fst (hd fs))"
      "\<forall>f \<in> set fs. fst f \<in> HOLD_LABELS \<and> min_confidence (cfg m) \<le> fst (snd f)"
      "successively (\<noteq>) (map fst fs)" for x fs
    using that
  proof (induction fs arbitrary: x)
    case (Cons f fs)
    obtain l c t where f: "f = (l, c, t)" by (cases f) auto
    let ?x1 = "snd (streak_for l c x)"
    have lab: "streak_label x \<noteq> Some l" and c: "min_confidence (cfg x) \<le> c" and l: "l \<in> HOLD_LABELS"
      using Cons.prems f by auto
    note short = streak_at_most_one [OF Cons.prems(2) lab, of c]
    have "streak_label ?x1 = Some l" using c by (simp add: streak_for_def Let_def)
    moreover have "fs \<noteq> [] \<longrightarrow> l \<noteq> fst (hd fs)"
      using Cons.prems(6) f by (cases fs) auto
    ultimately have "state (snd (observe_all fs ?x1)) = EVALUATING_SPEECH
        \<and> fst (observe_all fs ?x1) = replicate (length fs) NONE"
      using Cons.prems f short(2) by (intro Cons.IH) (auto simp: successively_Cons)
    moreover have "observe l c t x = (NONE, ?x1)"
      by (rule eval_kept_by_short_streak) (use Cons.prems l short(1) assms(3) in auto)
    ultimately show ?case by (simp add: f observe_all_Cons del: observe_all.simps(2))
  qed simp
  from this [of m fs] assms show ?thesis by (auto simp: fresh_def)
qed

definition evaluating_at_20 :: CallStateMachine where
  "evaluating_at_20 = enter EVALUATING_SPEECH (new_CallStateMachine default_FsmConfig)"

theorem changing_hold_labels_never_leave_eval_witness:
  "state (snd (observe_all
      (concat (replicate 10 [(HOLD_MUSIC, 0.65, 21), (SILENCE, 0.9, 22)])) evaluating_at_20))
   = EVALUATING_SPEECH"
  using changing_hold_labels_never_leave_eval [of evaluating_at_20
      "concat (replicate 10 [(HOLD_MUSIC, 0.65, 21), (SILENCE, 0.9, 22)])"]
  by (simp add: evaluating_at_20_def new_CallStateMachine_def default_FsmConfig_def label_sets
      numeral_eq_Suc)

subsection \<open>The press cap\<close>

text \<open>
  The press cap inside a menu: a machine that has used up \<open>max_menu_presses\<close> and stays in
  IVR_MENU asks for no further menu read, whatever the line does and however often the
  caller reports presses or abstentions.
\<close>

theorem press_cap_stops_rewake:
  assumes "state m = IVR_MENU" "max_menu_presses (cfg m) \<le> menu_presses m"
    and "\<forall>k \<le> length is. state (snd (fsm_run (take k is) m)) = IVR_MENU"
  shows "WAKE_TIER2_MENU \<notin> set (fst (fsm_run is m))"
  using assms
proof (induction "is" arbitrary: m)
  case (Cons i "is")
  let ?m1 = "snd (fsm_step i m)"
  have stays: "state (snd (fsm_run (take k is) ?m1)) = IVR_MENU" if "k \<le> length is" for k
    using Cons.prems(3) [rule_format, of "Suc k"] that by (simp add: fsm_run_Cons)
  then have st1: "state ?m1 = IVR_MENU" using stays [of 0] by simp
  have presses: "menu_presses m \<le> menu_presses ?m1"
    by (cases i) (auto simp: note_menu_action_def note_menu_abstained_def bridged_def completed_def
        failed_def)
  have "fst (fsm_step i m) \<noteq> WAKE_TIER2_MENU"
  proof (cases i)
    case (Observe l c t)
    with Cons.prems(1,2) observe_phase_rule [of m t l c] show ?thesis
      by (auto elim: phase_rule.cases)
  qed (simp_all add: action_probe_result)
  moreover have "WAKE_TIER2_MENU \<notin> set (fst (fsm_run is ?m1))"
    using Cons.prems(2) presses stays st1 by (intro Cons.IH) (auto intro: order_trans)
  ultimately show ?case by (auto simp: fsm_run_Cons)
qed simp

definition spent_menu :: CallStateMachine where
  "spent_menu = (enter IVR_MENU (new_CallStateMachine default_FsmConfig))
     \<lparr>menu_presses := 6, menu_gap_seen := True\<rparr>"

theorem press_cap_stops_rewake_witness:
  "WAKE_TIER2_MENU \<notin> set (fst (fsm_run
     [Observe LIVE_SPEECH_CANDIDATE 0.6 30, Observe LIVE_SPEECH_CANDIDATE 0.6 31] spent_menu))"
  by (rule press_cap_stops_rewake)
    (auto simp: spent_menu_def enter_def new_CallStateMachine_def default_FsmConfig_def le_Suc_eq
      numeral_eq_Suc fsm_run_Cons observe_def streak_for_def handler_defs label_sets)

text \<open>One round through hold and back: music, a new menu, its press.\<close>

definition menu_round :: "fsm_input list" where
  "menu_round = replicate 3 (Observe HOLD_MUSIC 0.9 0) @ replicate 3 (Observe MENU_SPEAKING 0.9 0)
     @ [MenuPressed 0]"

definition first_menu :: "fsm_input list" where
  "first_menu = replicate 5 (Observe MENU_SPEAKING 0.9 0)"

lemma menu_round_presses:
  assumes "state m = IVR_MENU" "fresh m" "cfg m = default_FsmConfig"
  shows "state (snd (fsm_run menu_round m)) = IVR_MENU" "fresh (snd (fsm_run menu_round m))"
    "menu_presses (snd (fsm_run menu_round m)) = Suc (menu_presses m)"
    "WAKE_TIER2_MENU \<in> set (fst (fsm_run menu_round m))"
  using assms
  by (simp_all add: menu_round_def numeral_eq_Suc fsm_run_Cons default_FsmConfig_def observe_def
      streak_for_def handler_defs label_sets fresh_def note_menu_action_def Let_def)

lemma menu_rounds:
  assumes "state m = IVR_MENU" "fresh m" "cfg m = default_FsmConfig"
  shows "state (snd (fsm_run (concat (replicate k menu_round)) m)) = IVR_MENU
         \<and> menu_presses (snd (fsm_run (concat (replicate k menu_round)) m)) = menu_presses m + k
         \<and> k \<le> count_list (fst (fsm_run (concat (replicate k menu_round)) m)) WAKE_TIER2_MENU"
  using assms
proof (induction k arbitrary: m)
  case (Suc k)
  let ?m1 = "snd (fsm_run menu_round m)"
  note first = menu_round_presses [OF Suc.prems]
  have "count_list (fst (fsm_run menu_round m)) WAKE_TIER2_MENU \<noteq> 0"
    using first(4) by (simp add: count_list_0_iff)
  moreover note Suc.IH [OF first(1,2)] Suc.prems(3) first(3)
  ultimately show ?case by (simp add: fsm_run_append)
qed simp

text \<open>
  The cap does not bound a call: on a line that alternates between hold music and a
  menu, the ON_HOLD handler wakes Tier 2 without looking at the press count, so for every
  \<open>k\<close> there is a run with the default configuration in which \<open>k\<close> digits are pressed, each
  after a menu wake of its own.
\<close>

theorem press_cap_does_not_bound_a_call:
  "\<exists>is. menu_presses (snd (fsm_run is (new_CallStateMachine default_FsmConfig))) = k
        \<and> k \<le> count_list (fst (fsm_run is (new_CallStateMachine default_FsmConfig))) WAKE_TIER2_MENU"
proof -
  let ?m0 = "new_CallStateMachine default_FsmConfig"
  let ?m = "snd (fsm_run first_menu ?m0)"
  have "state ?m = IVR_MENU" "fresh ?m" "menu_presses ?m = 0" "cfg ?m = default_FsmConfig"
    by (simp_all add: first_menu_def numeral_eq_Suc fsm_run_Cons new_CallStateMachine_def
        default_FsmConfig_def observe_def streak_for_def handler_defs label_sets fresh_def)
  with menu_rounds [of ?m k] show ?thesis
    by (intro exI [of _ "first_menu @ concat (replicate k menu_round)"]) (simp add: fsm_run_append)
qed

end
