(* ===== verification/Strings.thy ===== *)
theory Strings
  imports Prelude
begin

text \<open>
  Python's string methods the sources call, on character lists, and the XML escaping of
  \<open>xml.sax.saxutils\<close>. White space is the ASCII white space of \<open>str.isspace\<close> and \<open>\<backslash>s\<close>.
\<close>

section \<open>Searching and replacing\<close>

fun starts_with :: "string \<Rightarrow> string \<Rightarrow> bool" where
  "starts_with [] s = True"
| "starts_with (p # ps) [] = False"
| "starts_with (p # ps) (c # cs) = (p = c \<and> starts_with ps cs)"

lemma starts_with_append: "starts_with p s \<longleftrightarrow> (\<exists>t. s = p @ t)"
  by (induction p s rule: starts_with.induct) auto

text \<open>\<open>s.replace(old, new)\<close> for a nonempty \<open>old\<close>: leftmost, not overlapping.\<close>

function str_replace :: "string \<Rightarrow> string \<Rightarrow> string \<Rightarrow> string" where
  "str_replace old new s =
     (case s of
        [] \<Rightarrow> []
      | c # cs \<Rightarrow>
          if old \<noteq> [] \<and> starts_with old s then new @ str_replace old new (drop (length old) s)
          else c # str_replace old new cs)"
  by auto
termination by (relation "measure (\<lambda>(old, new, s). length s)") auto

declare str_replace.simps [simp del]

lemma str_replace_Nil [simp]: "str_replace old new [] = []"
  by (simp add: str_replace.simps)

lemma str_replace_Cons: "str_replace old new (c # cs) =
    (if old \<noteq> [] \<and> starts_with old (c # cs) then new @ str_replace old new (drop (length old) (c # cs))
     else c # str_replace old new cs)"
  by (subst str_replace.simps) simp

text \<open>Replacing a single character is a substitution.\<close>

lemma str_replace_char: "str_replace [x] new s = concat (map (\<lambda>c. if c = x then new else [c]) s)"
  by (induction s) (auto simp: str_replace_Cons)

definition is_space :: "char \<Rightarrow> bool" where
  "is_space c \<longleftrightarrow> of_char c \<in> {9, 10, 11, 12, 13, 28, 29, 30, 31, 32 :: nat}"

definition str_strip :: "string \<Rightarrow> string" where
  "str_strip s = rev (dropWhile is_space (rev (dropWhile is_space s)))"

definition lower :: "char \<Rightarrow> char" where
  "lower c = (let n = of_char c :: nat in if 65 \<le> n \<and> n \<le> 90 then char_of (n + 32) else c)"

definition is_digit :: "char \<Rightarrow> bool" where
  "is_digit c \<longleftrightarrow> c \<in> set ''0123456789''"

text \<open>\<open>\<backslash>w\<close> on ASCII.\<close>

definition is_word :: "char \<Rightarrow> bool" where
  "is_word c = (let n = of_char (lower c) :: nat in 97 \<le> n \<and> n \<le> 122 \<or> is_digit c \<or> c = CHR ''_'')"

text \<open>A literal in a pattern compiled with \<open>re.IGNORECASE\<close>: \<open>p\<close> is in lower case.\<close>

definition starts_ci :: "string \<Rightarrow> string \<Rightarrow> bool" where
  "starts_ci p s = starts_with p (map lower s)"

text \<open>\<open>s.find(c)\<close> and \<open>s.rfind(c)\<close>, \<open>None\<close> for \<open>-1\<close>.\<close>

fun str_find :: "char \<Rightarrow> string \<Rightarrow> nat option" where
  "str_find c [] = None"
| "str_find c (x # xs) = (if x = c then Some 0 else map_option Suc (str_find c xs))"

definition str_rfind :: "char \<Rightarrow> string \<Rightarrow> nat option" where
  "str_rfind c s = map_option (\<lambda>k. length s - 1 - k) (str_find c (rev s))"

section \<open>XML\<close>

definition xml_escape :: "string \<Rightarrow> string" where
  "xml_escape s = str_replace ''<'' ''&lt;'' (str_replace ''>'' ''&gt;'' (str_replace ''&'' ''&amp;'' s))"

definition quote_mark :: char where
  "quote_mark = CHR 0x22"

definition apostrophe :: char where
  "apostrophe = CHR 0x27"

definition quoted :: "string \<Rightarrow> string" where
  "quoted s = [quote_mark] @ s @ [quote_mark]"

text \<open>An em dash in UTF-8.\<close>

definition em_dash :: string where
  "em_dash = [CHR 0xE2, CHR 0x80, CHR 0x94]"

definition xml_quoteattr :: "string \<Rightarrow> string" where
  "xml_quoteattr s =
     (let t = str_replace [CHR 0x09] ''&#9;'' (str_replace [CHR 0x0D] ''&#13;''
                (str_replace [CHR 0x0A] ''&#10;'' (xml_escape s)))
      in if quote_mark \<in> set t
         then (if apostrophe \<in> set t
               then [quote_mark] @ str_replace [quote_mark] ''&quot;'' t @ [quote_mark]
               else [apostrophe] @ t @ [apostrophe])
         else [quote_mark] @ t @ [quote_mark])"

text \<open>No escaped text has a tag's brackets; no quoted attribute ends early.\<close>

lemma set_replace_char:
  "set (str_replace [x] new s) = (set s - {x}) \<union> (if x \<in> set s then set new else {})"
  by (induction s) (auto simp: str_replace_char)

lemma escape_brackets: "CHR ''<'' \<notin> set (xml_escape s)" "CHR ''>'' \<notin> set (xml_escape s)"
  by (auto simp: xml_escape_def set_replace_char)

lemma quoteattr_shape:
  "\<exists>q body. xml_quoteattr s = [q] @ body @ [q] \<and> q \<in> {quote_mark, apostrophe} \<and> q \<notin> set body
     \<and> CHR ''<'' \<notin> set body \<and> CHR ''>'' \<notin> set body"
proof -
  define t where "t = str_replace [CHR 0x09] ''&#9;'' (str_replace [CHR 0x0D] ''&#13;''
                (str_replace [CHR 0x0A] ''&#10;'' (xml_escape s)))"
  have t: "CHR ''<'' \<notin> set t" "CHR ''>'' \<notin> set t"
    using escape_brackets [of s] by (simp_all add: t_def set_replace_char)
  have q: "xml_quoteattr s = (if quote_mark \<in> set t
         then (if apostrophe \<in> set t
               then [quote_mark] @ str_replace [quote_mark] ''&quot;'' t @ [quote_mark]
               else [apostrophe] @ t @ [apostrophe])
         else [quote_mark] @ t @ [quote_mark])"
    by (simp add: xml_quoteattr_def t_def [symmetric])
  consider "quote_mark \<notin> set t" | "quote_mark \<in> set t" "apostrophe \<notin> set t"
    | "quote_mark \<in> set t" "apostrophe \<in> set t" by blast
  then show ?thesis
  proof cases
    case 1
    with q t show ?thesis by (intro exI [of _ quote_mark] exI [of _ t]) simp
  next
    case 2
    with q t show ?thesis by (intro exI [of _ apostrophe] exI [of _ t]) simp
  next
    case 3
    with q t show ?thesis
      by (intro exI [of _ quote_mark] exI [of _ "str_replace [quote_mark] ''&quot;'' t"])
        (simp add: set_replace_char quote_mark_def)
  qed
qed

end
