(* ===== verification/Breaker.thy ===== *)
theory Breaker
  imports Prelude
begin

text \<open>
  \<open>resilience/circuit_breaker.py\<close>. The breaker's state is a record; the injected clock is an
  explicit argument, one reading per place the code reads it. \<open>call\<close> runs the wrapped
  function, a \<open>proc\<close> on the rest of the world, between the admission test and the recording of its
  outcome. Each of these critical sections runs under the lock; since the lock is not held
  while the function runs, \<open>breaker_step\<close> interleaves the sections of any number of threads.
\<close>

section \<open>The breaker\<close>

datatype BreakerState = CLOSED | OPEN | HALF_OPEN

record CircuitBreaker =
  threshold :: nat
  reset_timeout :: py_float
  breaker_state :: BreakerState
  failures :: nat
  opened_at :: py_float

definition new_CircuitBreaker :: "nat \<Rightarrow> py_float \<Rightarrow> CircuitBreaker" where
  "new_CircuitBreaker failure_threshold timeout = \<lparr>
     threshold = failure_threshold,
     reset_timeout = timeout,
     breaker_state = CLOSED,
     failures = 0,
     opened_at = 0\<rparr>"

text \<open>The \<open>state\<close> property; \<open>t\<close> is the clock's reading.\<close>

definition current_state :: "py_float \<Rightarrow> CircuitBreaker \<Rightarrow> BreakerState \<times> CircuitBreaker" where
  "current_state t b =
     (let b' = (if breaker_state b = OPEN \<and> reset_timeout b \<le> t - opened_at b
                then b\<lparr>breaker_state := HALF_OPEN\<rparr> else b)
      in (breaker_state b', b'))"

definition on_success :: "CircuitBreaker \<Rightarrow> CircuitBreaker" where
  "on_success b = b\<lparr>failures := 0, breaker_state := CLOSED\<rparr>"

definition on_failure :: "py_float \<Rightarrow> CircuitBreaker \<Rightarrow> CircuitBreaker" where
  "on_failure t b =
     (let b' = b\<lparr>failures := failures b + 1\<rparr>
      in if breaker_state b' = HALF_OPEN \<or> threshold b' \<le> failures b'
         then b'\<lparr>breaker_state := OPEN, opened_at := t\<rparr> else b')"

text \<open>The first critical section of \<open>call\<close>: reject while open.\<close>

definition admit :: "py_float \<Rightarrow> (CircuitBreaker, unit) proc" where
  "admit t b = (let (st, b') = current_state t b
                in if st = OPEN then (Inl CircuitOpenError, b') else (Inr (), b'))"

text \<open>The recording of the outcome: an \<open>Exception\<close> counts, anything worse passes by.\<close>

definition record_outcome :: "py_float \<Rightarrow> exn + 'a \<Rightarrow> CircuitBreaker \<Rightarrow> CircuitBreaker" where
  "record_outcome t r b = (case r of
       Inl e \<Rightarrow> if is_Exception e then on_failure t b else b
     | Inr _ \<Rightarrow> on_success b)"

text \<open>
  \<open>call(fn)\<close> with no other thread in between: the clock reads \<open>t0\<close> at admission and \<open>t1\<close>
  if the failure is recorded; \<open>fn\<close> acts on the rest of the world \<open>w\<close>.
\<close>

definition breaker_call ::
  "py_float \<Rightarrow> py_float \<Rightarrow> ('w, 'a) proc \<Rightarrow> (CircuitBreaker \<times> 'w, 'a) proc" where
  "breaker_call t0 t1 fn = (\<lambda>(b, w).
     case admit t0 b of
       (Inl e, b') \<Rightarrow> (Inl e, (b', w))
     | (Inr _, b') \<Rightarrow> (let (r, w') = fn w in (r, (record_outcome t1 r b', w'))))"

lemmas breaker_defs =
  current_state_def on_success_def on_failure_def admit_def record_outcome_def

lemma breaker_params [simp]:
  "threshold (snd (current_state t b)) = threshold b"
  "threshold (on_success b) = threshold b"
  "threshold (on_failure t b) = threshold b"
  "threshold (snd (admit t b)) = threshold b"
  "threshold (record_outcome t r b) = threshold b"
  "reset_timeout (on_success b) = reset_timeout b"
  "reset_timeout (on_failure t b) = reset_timeout b"
  "reset_timeout (snd (admit t b)) = reset_timeout b"
  "reset_timeout (record_outcome t r b) = reset_timeout b"
  by (simp_all add: breaker_defs Let_def case_prod_beta split: sum.split)

section \<open>Closed exactly while the failure count is below the threshold\<close>

definition breaker_ok :: "CircuitBreaker \<Rightarrow> bool" where
  "breaker_ok b \<longleftrightarrow> (breaker_state b = CLOSED \<longleftrightarrow> failures b < threshold b)"

lemma breaker_ok_new: "0 < n \<Longrightarrow> breaker_ok (new_CircuitBreaker n r)"
  by (simp add: breaker_ok_def new_CircuitBreaker_def)

lemma breaker_ok_steps:
  assumes "breaker_ok b" "0 < threshold b"
  shows "breaker_ok (snd (admit t b))" "breaker_ok (on_success b)" "breaker_ok (on_failure t b)"
    "breaker_ok (record_outcome t r b)"
  using assms
  by (auto simp: breaker_ok_def breaker_defs Let_def split: sum.split)

section \<open>Threads\<close>

text \<open>
  The breaker shared by the Tier 2 threads of every call, with the set of threads that are
  past admission and still inside the wrapped function.
\<close>

record breaker_sys =
  brk :: CircuitBreaker
  in_flight :: "nat set"

inductive breaker_step :: "breaker_sys \<Rightarrow> breaker_sys \<Rightarrow> bool" where
  admitted:
    "i \<notin> in_flight s \<Longrightarrow> admit t (brk s) = (Inr (), b') \<Longrightarrow>
     breaker_step s (s\<lparr>brk := b', in_flight := insert i (in_flight s)\<rparr>)"
| rejected:
    "i \<notin> in_flight s \<Longrightarrow> admit t (brk s) = (Inl e, b') \<Longrightarrow> breaker_step s (s\<lparr>brk := b'\<rparr>)"
| finished:
    "i \<in> in_flight s \<Longrightarrow>
     breaker_step s (s\<lparr>brk := record_outcome t (r :: exn + unit) (brk s),
                       in_flight := in_flight s - {i}\<rparr>)"

inductive breaker_reach :: "nat \<Rightarrow> py_float \<Rightarrow> breaker_sys \<Rightarrow> bool" for n r where
  start: "breaker_reach n r \<lparr>brk = new_CircuitBreaker n r, in_flight = {}\<rparr>"
| step: "breaker_reach n r s \<Longrightarrow> breaker_step s s' \<Longrightarrow> breaker_reach n r s'"

lemma breaker_step_ok:
  assumes "breaker_step s s'" "breaker_ok (brk s)" "0 < threshold (brk s)"
  shows "breaker_ok (brk s') \<and> threshold (brk s') = threshold (brk s)"
  using assms
proof cases
  case (admitted i t b')
  with assms breaker_ok_steps(1) [of "brk s" t] breaker_params(4) [of t "brk s"] show ?thesis by simp
next
  case (rejected i t e b')
  with assms breaker_ok_steps(1) [of "brk s" t] breaker_params(4) [of t "brk s"] show ?thesis by simp
next
  case (finished i t r)
  with assms breaker_ok_steps(4) [of "brk s" t r] show ?thesis by simp
qed

lemma breaker_reach_ok:
  assumes "breaker_reach n r s" "0 < n"
  shows "breaker_ok (brk s) \<and> threshold (brk s) = n"
  using assms
proof (induction rule: breaker_reach.induct)
  case start
  then show ?case using breaker_ok_new [of n r] by (simp add: new_CircuitBreaker_def)
next
  case (step s s')
  with breaker_step_ok [of s s'] show ?case by simp
qed

text \<open>
  [C22] Under any interleaving of any number of threads the breaker is closed exactly
  while its count of failures since the last success is below the threshold; so it has
  always tripped by the time the threshold is reached, and never earlier.
\<close>

theorem closed_iff_below_threshold:
  assumes "breaker_reach n r s" "0 < n"
  shows "breaker_state (brk s) = CLOSED \<longleftrightarrow> failures (brk s) < n"
  using breaker_reach_ok [OF assms] by (simp add: breaker_ok_def)

lemma reach_admit:
  assumes "breaker_reach n r \<lparr>brk = b, in_flight = F\<rparr>" "i \<notin> F" "admit t b = (Inr (), b')"
  shows "breaker_reach n r \<lparr>brk = b', in_flight = insert i F\<rparr>"
  using breaker_reach.step [OF assms(1) breaker_step.admitted [of i _ t b']] assms(2,3) by simp

lemma reach_finish:
  assumes "breaker_reach n r \<lparr>brk = b, in_flight = F\<rparr>" "i \<in> F"
  shows "breaker_reach n r \<lparr>brk = record_outcome t (x :: exn + unit) b, in_flight = F - {i}\<rparr>"
  using breaker_reach.step [OF assms(1) breaker_step.finished [of i _ t x]] assms(2) by simp

text \<open>With a threshold of one: one failing call trips the breaker.\<close>

definition tripped_at :: "py_float \<Rightarrow> py_float \<Rightarrow> CircuitBreaker" where
  "tripped_at r t = \<lparr>threshold = 1, reset_timeout = r, breaker_state = OPEN, failures = 1, opened_at = t\<rparr>"

lemma admit_new: "0 < n \<Longrightarrow> admit t (new_CircuitBreaker n r) = (Inr (), new_CircuitBreaker n r)"
  by (simp add: breaker_defs new_CircuitBreaker_def)

lemma reach_in_flight:
  assumes "0 < n" "finite F"
  shows "breaker_reach n r \<lparr>brk = new_CircuitBreaker n r, in_flight = F\<rparr>"
  using assms(2)
proof (induction F)
  case (insert i F)
  then show ?case using assms(1) by (auto intro: reach_admit admit_new)
qed (rule breaker_reach.start)

lemma reach_tripped: "finite F \<Longrightarrow> i \<notin> F \<Longrightarrow> breaker_reach 1 r \<lparr>brk = tripped_at r t, in_flight = F\<rparr>"
  using reach_finish [OF reach_in_flight [of 1 "insert i F" r], of i t "Inl CancelledError"]
  by (simp add: tripped_at_def breaker_defs new_CircuitBreaker_def)

theorem closed_iff_below_threshold_witness:
  "(breaker_state (tripped_at 30 7) = CLOSED) = (failures (tripped_at 30 7) < 1)"
  using closed_iff_below_threshold [OF reach_tripped [of "{}" 0 30 7]] by simp

section \<open>Failing fast\<close>

text \<open>
  Fail fast: while the breaker is open and its reset timeout has not elapsed, a call is
  rejected with \<open>CircuitOpenError\<close>, the wrapped function is not run (the world is as
  before) and the breaker is unchanged. Once the timeout has elapsed the function is run,
  and its outcome decides: an exception reopens the breaker at that moment, a result
  closes it with the count back at zero.
\<close>

theorem open_breaker_behaviour:
  assumes "breaker_state b = OPEN"
  shows "breaker_call t0 t1 fn (b, w) =
     (if t0 - opened_at b < reset_timeout b then (Inl CircuitOpenError, (b, w))
      else (case fn w of
         (Inl e, w') \<Rightarrow>
            (Inl e, (if is_Exception e
                     then b\<lparr>breaker_state := OPEN, failures := failures b + 1, opened_at := t1\<rparr>
                     else b\<lparr>breaker_state := HALF_OPEN\<rparr>, w'))
       | (Inr x, w') \<Rightarrow> (Inr x, (b\<lparr>breaker_state := CLOSED, failures := 0\<rparr>, w'))))"
  using assms by (simp add: breaker_call_def breaker_defs Let_def split: prod.split sum.split)

theorem open_breaker_behaviour_witness:
  "breaker_call 20 21 (\<lambda>n. (Inr ''ok'', Suc n)) (tripped_at 30 7, 5) = (Inl CircuitOpenError, (tripped_at 30 7, 5))
   \<and> breaker_call 40 41 (\<lambda>n. (Inr ''ok'', Suc n)) (tripped_at 30 7, 5)
     = (Inr ''ok'', ((tripped_at 30 7)\<lparr>breaker_state := CLOSED, failures := 0\<rparr>, 6))"
proof -
  have op: "breaker_state (tripped_at 30 7) = OPEN" by (simp add: tripped_at_def)
  note open_breaker_behaviour [OF op, of 20 21 "\<lambda>n. (Inr ''ok'', Suc n)" 5]
    open_breaker_behaviour [OF op, of 40 41 "\<lambda>n. (Inr ''ok'', Suc n)" 5]
  then show ?thesis by (simp add: tripped_at_def)
qed

text \<open>Calls one after the other, each with its clock readings.\<close>

primrec breaker_calls ::
  "(py_float \<times> py_float) list \<Rightarrow> ('w, 'a) proc \<Rightarrow> CircuitBreaker \<times> 'w
     \<Rightarrow> (exn + 'a) list \<times> CircuitBreaker \<times> 'w" where
  "breaker_calls [] fn bw = ([], bw)"
| "breaker_calls (t # ts) fn bw =
     (let (r, bw1) = breaker_call (fst t) (snd t) fn bw; (rs, bw2) = breaker_calls ts fn bw1
      in (r # rs, bw2))"

lemma closed_call_failure:
  assumes "breaker_state b = CLOSED" "fn w = (Inl e, w')" "is_Exception e"
  shows "breaker_call t0 t1 fn (b, w) = (Inl e, (on_failure t1 b, w'))"
  using assms by (simp add: breaker_call_def admit_def current_state_def record_outcome_def)

lemma failing_calls:
  assumes "\<And>w. fn w = (Inl e, g w)" "is_Exception e"
    and "breaker_state b = CLOSED" "failures b + length ts = threshold b" "ts \<noteq> []"
  shows "breaker_calls ts fn (b, w) =
     (replicate (length ts) (Inl e),
      b\<lparr>breaker_state := OPEN, failures := threshold b, opened_at := snd (last ts)\<rparr>,
      (g ^^ length ts) w)"
  using assms(3-)
proof (induction ts arbitrary: b w)
  case (Cons t ts)
  note call = closed_call_failure [of b fn w e "g w" "fst t" "snd t", OF Cons.prems(1) assms(1,2)]
  show ?case
  proof (cases "ts = []")
    case True
    with Cons.prems call show ?thesis by (simp add: on_failure_def)
  next
    case False
    then have "failures b + 1 < threshold b" using Cons.prems by (cases ts) auto
    then have "on_failure (snd t) b = b\<lparr>failures := failures b + 1\<rparr>"
      using Cons.prems by (simp add: on_failure_def)
    with call Cons.IH [of "b\<lparr>failures := failures b + 1\<rparr>" "g w"] Cons.prems False
    show ?thesis by (simp add: funpow_swap1)
  qed
qed simp

text \<open>
  Tripping: a closed breaker with no failures on record lets exactly
  \<open>failure_threshold\<close> failing calls through, each of which runs the wrapped function and
  gets its exception; then it is open, opened at the moment the last failure was
  recorded, and every further call inside the reset timeout is rejected without
  touching the world.
\<close>

theorem trips_exactly_at_threshold:
  assumes "\<And>w. fn w = (Inl e, g w)" "is_Exception e" "length ts = n" "0 < n"
    and "\<forall>t \<in> set us. fst t - snd (last ts) < timeout"
  shows "fst (breaker_calls (ts @ us) fn (new_CircuitBreaker n timeout, w)) =
           replicate n (Inl e) @ replicate (length us) (Inl CircuitOpenError)
         \<and> snd (snd (breaker_calls (ts @ us) fn (new_CircuitBreaker n timeout, w))) = (g ^^ n) w"
proof -
  let ?b = "(new_CircuitBreaker n timeout)
     \<lparr>breaker_state := OPEN, failures := n, opened_at := snd (last ts)\<rparr>"
  have app: "breaker_calls (xs @ ys) fn bw =
      (fst (breaker_calls xs fn bw) @ fst (breaker_calls ys fn (snd (breaker_calls xs fn bw))),
       snd (breaker_calls ys fn (snd (breaker_calls xs fn bw))))" for xs ys bw
    by (induction xs arbitrary: bw) (simp_all add: case_prod_beta)
  have rejected: "\<forall>t \<in> set us. fst t - snd (last ts) < timeout \<Longrightarrow>
      breaker_calls us fn (?b, v) = (replicate (length us) (Inl CircuitOpenError), (?b, v))" for us v
    by (induction us) (simp_all add: open_breaker_behaviour new_CircuitBreaker_def)
  from failing_calls [of fn e g "new_CircuitBreaker n timeout" ts w] assms
  have "breaker_calls ts fn (new_CircuitBreaker n timeout, w) = (replicate n (Inl e), (?b, (g ^^ n) w))"
    by (auto simp: new_CircuitBreaker_def)
  with rejected [OF assms(5)] show ?thesis by (simp add: app)
qed

theorem trips_exactly_at_threshold_witness:
  "fst (breaker_calls ([(0, 1), (2, 3)] @ [(4, 5), (10, 11)])
     (\<lambda>k. (Inl (Tier2Unavailable ''down'') :: exn + string, Suc k)) (new_CircuitBreaker 2 30, 0))
   = [Inl (Tier2Unavailable ''down''), Inl (Tier2Unavailable ''down''),
      Inl CircuitOpenError, Inl CircuitOpenError]"
  using trips_exactly_at_threshold [of "\<lambda>k. (Inl (Tier2Unavailable ''down'') :: exn + string, Suc k)"
      "Tier2Unavailable ''down''" Suc "[(0, 1), (2, 3)]" 2 "[(4, 5), (10, 11)]" 30 0]
  by (simp add: numeral_eq_Suc)

section \<open>What the lock does not order\<close>

text \<open>
  HALF_OPEN does not limit the trial to one call: \<open>call\<close> rejects only in OPEN, so for
  every number \<open>k\<close> there is a reachable system whose breaker is half open with \<open>k\<close>
  threads inside the wrapped function, all of them admitted after the breaker tripped.
\<close>

theorem half_open_admits_any_number:
  "\<exists>s. breaker_reach 1 r s \<and> breaker_state (brk s) = HALF_OPEN \<and> card (in_flight s) = Suc k"
proof -
  let ?h = "(tripped_at r 0)\<lparr>breaker_state := HALF_OPEN\<rparr>"
  have trip: "breaker_reach 1 r \<lparr>brk = tripped_at r 0, in_flight = {}\<rparr>"
    by (rule reach_tripped [of "{}" 0]) simp_all
  have first: "admit r (tripped_at r 0) = (Inr (), ?h)"
    by (simp add: breaker_defs tripped_at_def)
  have more: "admit r ?h = (Inr (), ?h)"
    by (simp add: breaker_defs tripped_at_def)
  have "breaker_reach 1 r \<lparr>brk = ?h, in_flight = {..k}\<rparr>"
  proof (induction k)
    case 0
    from reach_admit [OF trip _ first, of 0] show ?case by simp
  next
    case (Suc k)
    from reach_admit [OF Suc _ more, of "Suc k"] show ?case by (simp add: atMost_Suc)
  qed
  then show ?thesis by (intro exI [of _ "\<lparr>brk = ?h, in_flight = {..k}\<rparr>"]) (simp add: tripped_at_def)
qed

text \<open>
  A success recorded late overrides the trip: a thread admitted before the breaker
  opened that returns normally afterwards closes it at once, although its reset timeout
  has not elapsed and no trial call was made.
\<close>

theorem late_success_closes_open_breaker:
  "\<exists>s s'. breaker_reach 1 30 s \<and> breaker_state (brk s) = OPEN
          \<and> fst (current_state 1 (brk s)) = OPEN
          \<and> breaker_step s s' \<and> breaker_state (brk s') = CLOSED"
proof -
  let ?s = "\<lparr>brk = tripped_at 30 0, in_flight = {1}\<rparr>"
  have "breaker_reach 1 30 ?s" by (rule reach_tripped [of "{1}" 0]) simp_all
  moreover have "breaker_state (brk ?s) = OPEN" "fst (current_state 1 (brk ?s)) = OPEN"
    by (simp_all add: tripped_at_def current_state_def)
  moreover have "breaker_step ?s (?s\<lparr>brk := record_outcome 1 (Inr () :: exn + unit) (brk ?s),
      in_flight := in_flight ?s - {1}\<rparr>)"
    by (rule breaker_step.finished) simp
  moreover have "breaker_state (record_outcome 1 (Inr () :: exn + unit) (tripped_at 30 0)) = CLOSED"
    by (simp add: record_outcome_def on_success_def)
  ultimately show ?thesis by (intro exI conjI) (assumption | simp)+
qed

end
