(* ===== verification/Tier2.thy ===== *)
theory Tier2
  imports Strings Bridge Breaker
begin

text \<open>
  Tier 2, \<open>realtime/client.py\<close>, \<open>realtime/stream.py\<close> and \<open>realtime/fake.py\<close>: what is sent to
  the realtime model, what is made of its events, and the three implementations of the
  \<open>Tier2\<close> protocol, whose contract is the locale \<open>tier2_contract\<close>.

  A conversation over a socket is the events received and how it ended. Event JSON is taken as
  parsed; the wording of the prompts and the JSON are in
  \<open>Realtime_Wire\<close>. Text is ASCII.
\<close>

section \<open>The realtime protocol\<close>

text \<open>The prompts, by the functions and constants of the sources that hold their wording.\<close>

datatype Prompt =
    MenuInstructions "string option"
  | ProbeSystem
  | Greeting
  | Judge
  | SpeakSystem
  | SayExactly string

text \<open>
  \<open>session.update\<close>: the format of the input audio, if any (turn detection is always off), and the
  format and voice of the output.
\<close>

record SessionConfig =
  instructions :: Prompt
  output_modalities :: "string list"
  input_format :: "string option"
  output_voice :: "(string \<times> string) option"

text \<open>\<open>response.create\<close> carries optional modalities and instructions.\<close>

datatype rt_request =
    SessionUpdate SessionConfig
  | AppendAudio string
  | CommitAudio
  | CreateResponse "string list option" "Prompt option"

datatype rt_event =
    AudioDelta "string option"
  | TranscriptDelta string
  | OutputTextDelta string
  | TextDelta string
  | OutputAudioDone
  | ResponseDone "(string \<times> string option) list list"
  | ErrorEvent
  | OtherEvent

text \<open>
  The peer closes the socket; a \<open>TimeoutError\<close>, \<open>OSError\<close> or \<open>ConnectionError\<close>; any other
  exception.
\<close>

datatype ws_end = Closes | NetworkError | Raises exn

section \<open>Menu decisions\<close>

definition menu_requests :: "nat list \<Rightarrow> sample list \<Rightarrow> nat \<Rightarrow> string option \<Rightarrow> rt_request list" where
  "menu_requests order audio sr goal_text =
     [SessionUpdate \<lparr>instructions = MenuInstructions goal_text, output_modalities = [''text''],
        input_format = Some ''audio/pcmu'', output_voice = None\<rparr>]
     @ map (\<lambda>chunk. AppendAudio (b64encode chunk)) (slices (max 1 (sr div 5)) (pcm16_to_ulaw order audio))
     @ [CommitAudio, CreateResponse None None]"

fun text_from_parts :: "(string \<times> string option) list \<Rightarrow> string option option" where
  "text_from_parts [] = None"
| "text_from_parts ((ty, txt) # ps) =
     (if ty = ''output_text'' \<or> ty = ''text'' then Some txt else text_from_parts ps)"

fun text_from_done :: "(string \<times> string option) list list \<Rightarrow> string option" where
  "text_from_done [] = None"
| "text_from_done (item # items) = (case text_from_parts item of
       Some txt \<Rightarrow> txt
     | None \<Rightarrow> text_from_done items)"

text \<open>The loop of \<open>_menu_turn\<close> inside \<open>_run\<close>: an exception of any kind gives \<open>None\<close>.\<close>

fun menu_turn :: "string \<Rightarrow> rt_event list \<Rightarrow> ws_end \<Rightarrow> string option" where
  "menu_turn parts [] fin = (if fin = Closes \<and> parts \<noteq> [] then Some parts else None)"
| "menu_turn parts (e # es) fin = (case e of
       ErrorEvent \<Rightarrow> None
     | OutputTextDelta d \<Rightarrow> menu_turn (parts @ d) es fin
     | ResponseDone items \<Rightarrow> if parts \<noteq> [] then Some parts else text_from_done items
     | _ \<Rightarrow> menu_turn parts es fin)"

section \<open>Reading the verdict on a menu\<close>

text \<open>\<open>_PRESS_DIGIT\<close>: at most twelve characters that are no digit before the key, as few as possible.\<close>

definition VALID_DIGITS :: string where
  "VALID_DIGITS = ''0123456789*#''"

fun first_key :: "nat \<Rightarrow> string \<Rightarrow> char option" where
  "first_key n [] = None"
| "first_key n (c # cs) = (if c \<in> set VALID_DIGITS then Some c
     else case n of 0 \<Rightarrow> None | Suc k \<Rightarrow> first_key k cs)"

definition PRESS_WORDS :: "string list" where
  "PRESS_WORDS = [''press'', ''dial'', ''key'', ''option'', ''choose'', ''select'']"

fun press_digit :: "string \<Rightarrow> char option" where
  "press_digit [] = None"
| "press_digit (c # cs) = (case find (\<lambda>w. starts_ci w (c # cs)) PRESS_WORDS of
       None \<Rightarrow> press_digit cs
     | Some w \<Rightarrow> (case first_key 12 (drop (length w) (c # cs)) of
           None \<Rightarrow> press_digit cs
         | Some d \<Rightarrow> Some d))"

definition OPERATOR_WORDS :: "string list" where
  "OPERATOR_WORDS = [''operator'', ''representative'', ''agent'', ''customer service'', ''human'']"

definition at_word_end :: "string \<Rightarrow> bool" where
  "at_word_end s = (case s of [] \<Rightarrow> True | c # _ \<Rightarrow> \<not> is_word c)"

text \<open>\<open>_KEYWORD_TO_OPERATOR\<close>; \<open>inside\<close> tells whether the character before is a word character.\<close>

fun names_operator :: "bool \<Rightarrow> string \<Rightarrow> bool" where
  "names_operator inside [] = False"
| "names_operator inside (c # cs) =
     ((\<not> inside \<and> list_ex (\<lambda>w. starts_ci w (c # cs) \<and> at_word_end (drop (length w) (c # cs))) OPERATOR_WORDS)
      \<or> names_operator (is_word c) cs)"

text \<open>\<open>json.loads\<close> of a string and \<open>str\<close> of a JSON value are the standard library's.\<close>

record 'w Net =
  json_text :: "string \<Rightarrow> Json option"
  py_str :: "Json \<Rightarrow> string"
  menu_exchange :: "rt_request list \<Rightarrow> 'w \<Rightarrow> (rt_event list \<times> ws_end) \<times> 'w"
  ulaw_order :: "nat list"

definition field_text :: "'w Net \<Rightarrow> (string \<times> Json) list \<Rightarrow> string \<Rightarrow> string" where
  "field_text net kvs k = (case map_of kvs k of None \<Rightarrow> [] | Some v \<Rightarrow> str_strip (py_str net v))"

definition json_verdict :: "'w Net \<Rightarrow> string \<Rightarrow> (string \<times> string) option" where
  "json_verdict net blob = (case (str_find CHR ''{'' blob, str_rfind CHR ''}'' blob) of
       (Some i, Some j) \<Rightarrow>
         if i < j then (case json_text net (take (j + 1 - i) (drop i blob)) of
             Some (JObj kvs) \<Rightarrow>
               let digit = field_text net kvs ''digit''; why = field_text net kvs ''rationale''
               in if digit \<noteq> [] \<or> why \<noteq> [] then Some (digit, if why = [] then take 200 blob else why)
                  else None
           | _ \<Rightarrow> None)
         else None
     | _ \<Rightarrow> None)"

definition parse_verdict :: "'w Net \<Rightarrow> string \<Rightarrow> string \<times> string" where
  "parse_verdict net reply =
     (let blob = str_strip reply in case json_verdict net blob of
        Some v \<Rightarrow> v
      | None \<Rightarrow> (case press_digit blob of
            Some d \<Rightarrow> ([d], take 200 blob)
          | None \<Rightarrow> if names_operator False blob then (''0'', take 200 blob) else ([], take 200 blob)))"

text \<open>The digits a rejected decision quotes in its rationale are left out of it.\<close>

definition menu_decision :: "'w Net \<Rightarrow> string \<Rightarrow> Tier2Value" where
  "menu_decision net reply =
     (let (digits, why) = parse_verdict net reply
      in if digits \<noteq> [] \<and> \<not> set digits \<subseteq> set VALID_DIGITS
         then MenuDecision None ''model returned non-DTMF keys''
         else if 20 < length digits then MenuDecision None ''model returned too many keys''
         else MenuDecision (if digits = [] then None else Some digits) why)"

definition realtime_choose :: "'w Net \<Rightarrow> sample list \<Rightarrow> nat \<Rightarrow> string option \<Rightarrow> ('w, Tier2Value) proc" where
  "realtime_choose net audio sr goal_text w =
     (let ((es, fin), w') = menu_exchange net (menu_requests (ulaw_order net) audio sr goal_text) w
      in case menu_turn [] es fin of
           None \<Rightarrow> (Inl (Tier2Unavailable ''menu exchange failed (timeout or error)''), w')
         | Some reply \<Rightarrow> (Inr (menu_decision net reply), w'))"

definition realtime_probe :: "sample list \<Rightarrow> nat \<Rightarrow> ('w, Tier2Value) proc" where
  "realtime_probe audio sr w = (Inl NotImplementedError, w)"

section \<open>The probe's verdict\<close>

definition verdict_sep :: "char \<Rightarrow> bool" where
  "verdict_sep c \<longleftrightarrow> c = CHR '':'' \<or> is_space c"

definition not_sep :: "char \<Rightarrow> bool" where
  "not_sep c \<longleftrightarrow> c = CHR ''-'' \<or> is_space c"

text \<open>The rest after one or more separators.\<close>

definition skip_seps :: "(char \<Rightarrow> bool) \<Rightarrow> string \<Rightarrow> string option" where
  "skip_seps sep s = (if s \<noteq> [] \<and> sep (hd s) then Some (dropWhile sep s) else None)"

text \<open>\<open>_VERDICT\<close> at the start of a text: whether the group reads HUMAN.\<close>

definition human_at :: "string \<Rightarrow> bool option" where
  "human_at s = (if starts_ci ''human'' s then Some True
     else if starts_ci ''not'' s then (case skip_seps not_sep (drop 3 s) of
         Some r \<Rightarrow> if starts_ci ''human'' r then Some False else None
       | None \<Rightarrow> None)
     else None)"

definition verdict_at :: "string \<Rightarrow> bool option" where
  "verdict_at s = (if starts_ci ''verdict'' s
     then Option.bind (skip_seps verdict_sep (drop 7 s)) human_at else None)"

fun verdict_search :: "string \<Rightarrow> bool option" where
  "verdict_search [] = None"
| "verdict_search (c # cs) = (case verdict_at (c # cs) of Some v \<Rightarrow> Some v | None \<Rightarrow> verdict_search cs)"

definition verdict_from_text :: "string \<Rightarrow> Tier2Value" where
  "verdict_from_text said =
     ProbeOutcome (verdict_search said = Some True) (take 200 (str_strip said)) True"

section \<open>The probe's exchange\<close>

text \<open>
  The feeder: frames of the call until \<open>listen\<close> seconds are sent, then the question. It is
  cancelled with the exchange, at any point of this list.
\<close>

fun feed :: "py_float \<Rightarrow> py_float \<Rightarrow> byte list list \<Rightarrow> rt_request list" where
  "feed listen drained [] =
     (if drained < listen then [] else [CommitAudio, CreateResponse (Some [''text'']) (Some Judge)])"
| "feed listen drained (f # fs) =
     (if drained < listen
      then AppendAudio (b64encode f) # feed listen (drained + of_nat (length f) / 8000) fs
      else [CommitAudio, CreateResponse (Some [''text'']) (Some Judge)])"

definition probe_opening :: "rt_request list" where
  "probe_opening =
     [SessionUpdate \<lparr>instructions = ProbeSystem, output_modalities = [''audio''],
        input_format = Some ''audio/pcmu'', output_voice = Some (''audio/pcmu'', ''alloy'')\<rparr>,
      CreateResponse None (Some Greeting)]"

text \<open>The audio of a delta; \<open>None\<close> is a \<open>KeyError\<close> or \<open>binascii.Error\<close>.\<close>

definition delta_audio :: "string option \<Rightarrow> sample list option" where
  "delta_audio d = map_option ulaw_to_pcm16 (Option.bind d b64decode)"

text \<open>
  The read loop of \<open>probe_exchange\<close>: the text so far, whether the model has begun to judge, and
  the audio played into the call (in order), which is what the loop returns besides the outcome.
\<close>

fun probe_loop ::
  "string \<Rightarrow> bool \<Rightarrow> rt_event list \<Rightarrow> ws_end \<Rightarrow> (exn + Tier2Value) \<times> sample list list" where
  "probe_loop said judging [] fin = (case fin of
       Closes \<Rightarrow> (Inr (verdict_from_text said), [])
     | NetworkError \<Rightarrow> (Inr (ProbeOutcome False ''probe unavailable'' False), [])
     | Raises x \<Rightarrow> (Inl x, []))"
| "probe_loop said judging (e # es) fin =
     (let go = (\<lambda>said' judging' played.
            if verdict_search said' \<noteq> None then (Inr (verdict_from_text said'), played)
            else let (out, more) = probe_loop said' judging' es fin in (out, played @ more))
      in case e of
        AudioDelta d \<Rightarrow>
          if judging then go said judging []
          else (case delta_audio d of
              None \<Rightarrow> (Inl (OtherException ''bad audio delta''), [])
            | Some samples \<Rightarrow> go said judging [samples])
      | TranscriptDelta t \<Rightarrow> go (said @ t) judging []
      | OutputTextDelta t \<Rightarrow> go (said @ t) True []
      | TextDelta t \<Rightarrow> go (said @ t) True []
      | ErrorEvent \<Rightarrow>
          if verdict_search said = None then (Inr (ProbeOutcome False ''probe error'' False), [])
          else (Inr (verdict_from_text said), [])
      | _ \<Rightarrow> go said judging [])"

section \<open>Speaking\<close>

definition speak_requests :: "string \<Rightarrow> rt_request list" where
  "speak_requests line =
     [SessionUpdate \<lparr>instructions = SpeakSystem, output_modalities = [''audio''],
        input_format = None, output_voice = Some (''audio/pcmu'', ''alloy'')\<rparr>,
      CreateResponse None (Some (SayExactly line))]"

fun speak_loop :: "rt_event list \<Rightarrow> ws_end \<Rightarrow> (exn + unit) \<times> sample list list" where
  "speak_loop [] fin = (case fin of Raises x \<Rightarrow> (Inl x, []) | _ \<Rightarrow> (Inr (), []))"
| "speak_loop (e # es) fin = (case e of
       AudioDelta d \<Rightarrow> (case delta_audio d of
           None \<Rightarrow> (Inl (OtherException ''bad audio delta''), [])
         | Some samples \<Rightarrow> let (res, more) = speak_loop es fin in (res, samples # more))
     | ResponseDone _ \<Rightarrow> (Inr (), [])
     | OutputAudioDone \<Rightarrow> (Inr (), [])
     | ErrorEvent \<Rightarrow> (Inr (), [])
     | _ \<Rightarrow> speak_loop es fin)"

section \<open>The other implementations\<close>

text \<open>
  \<open>StreamingProbe.probe\<close> over the future \<open>run\<close> of the exchange; the texts of the exceptions are
  left out. Menu decisions go to the wrapped client.
\<close>

definition streaming_probe :: "('w, Tier2Value) proc \<Rightarrow> sample list \<Rightarrow> nat \<Rightarrow> ('w, Tier2Value) proc" where
  "streaming_probe run audio sr w = (case run w of
       (Inl x, w') \<Rightarrow> (Inl (if is_Exception x then Tier2Unavailable ''probe exchange raised'' else x), w')
     | (Inr (ProbeOutcome h t ok), w') \<Rightarrow>
         if ok then (Inr (ProbeOutcome h t ok), w')
         else (Inl (Tier2Unavailable (if t = [] then ''probe exchange failed'' else t)), w')
     | (Inr (MenuDecision _ _), w') \<Rightarrow> (Inl AttributeError, w'))"

record FakeTier2 =
  menu_digits :: "string option"
  probe_is_human :: bool
  calls :: "string list"

definition new_FakeTier2 :: FakeTier2 where
  "new_FakeTier2 = \<lparr>menu_digits = Some ''2'', probe_is_human = True, calls = []\<rparr>"

definition fake_choose :: "sample list \<Rightarrow> nat \<Rightarrow> string option \<Rightarrow> (FakeTier2, Tier2Value) proc" where
  "fake_choose audio sr goal_text t =
     (Inr (MenuDecision (menu_digits t) ''fake: fixed digit''), t\<lparr>calls := calls t @ [''choose_menu_digit'']\<rparr>)"

definition fake_probe :: "sample list \<Rightarrow> nat \<Rightarrow> (FakeTier2, Tier2Value) proc" where
  "fake_probe audio sr t =
     (Inr (ProbeOutcome (probe_is_human t) ''fake'' True), t\<lparr>calls := calls t @ [''probe'']\<rparr>)"

definition fake_say :: "string \<Rightarrow> FakeTier2 \<Rightarrow> FakeTier2" where
  "fake_say line t = t\<lparr>calls := calls t @ [''say:'' @ line]\<rparr>"

definition fake_close :: "FakeTier2 \<Rightarrow> FakeTier2" where
  "fake_close t = t\<lparr>calls := calls t @ [''close'']\<rparr>"

section \<open>The contract\<close>

definition pressable :: "string \<Rightarrow> bool" where
  "pressable ds \<longleftrightarrow> ds \<noteq> [] \<and> set ds \<subseteq> set VALID_DIGITS \<and> length ds \<le> 20"

text \<open>The answers that fit a job: a decision whose keys can be pressed, a probe that was read.\<close>

fun fits :: "Tier2Job \<Rightarrow> Tier2Value \<Rightarrow> bool" where
  "fits (ChooseMenuDigit _ _ _) (MenuDecision d _) \<longleftrightarrow> (\<forall>ds\<in>set_option d. pressable ds)"
| "fits (RunProbe _ _) (ProbeOutcome _ _ ok) \<longleftrightarrow> ok"
| "fits _ _ \<longleftrightarrow> False"

text \<open>What the worker thread runs for a job: the closures of \<open>_start_menu\<close> and \<open>_start_probe\<close>.\<close>

definition run_job ::
  "(sample list \<Rightarrow> nat \<Rightarrow> string option \<Rightarrow> ('w, Tier2Value) proc) \<Rightarrow>
   (sample list \<Rightarrow> nat \<Rightarrow> ('w, Tier2Value) proc) \<Rightarrow> Tier2Job \<Rightarrow> ('w, Tier2Value) proc" where
  "run_job ask probe job = (case job of
       ChooseMenuDigit audio sr g \<Rightarrow> ask audio sr g
     | RunProbe audio sr \<Rightarrow> probe audio sr)"

locale tier2_contract =
  fixes ask :: "sample list \<Rightarrow> nat \<Rightarrow> string option \<Rightarrow> ('w, Tier2Value) proc"
    and probe :: "sample list \<Rightarrow> nat \<Rightarrow> ('w, Tier2Value) proc"
    and usable :: "'w \<Rightarrow> bool"
  assumes choose_fits: "usable w \<Longrightarrow> ask audio sr g w = (Inr v, w') \<Longrightarrow> fits (ChooseMenuDigit audio sr g) v"
    and probe_fits: "usable w \<Longrightarrow> probe audio sr w = (Inr v, w') \<Longrightarrow> fits (RunProbe audio sr) v"
begin

lemma job_fits: "usable w \<Longrightarrow> run_job ask probe job w = (Inr v, w') \<Longrightarrow> fits job v"
  by (cases job) (auto simp: run_job_def intro: choose_fits probe_fits)

lemma call_fits:
  assumes "usable w" "breaker_call t0 t1 (run_job ask probe job) (b, w) = (Inr v, bw)"
  shows "fits job v"
  using assms job_fits
  by (auto simp: breaker_call_def split: prod.splits sum.splits)

end

section \<open>The implementations keep the contract\<close>

lemma menu_decision_fits: "fits (ChooseMenuDigit audio sr g) (menu_decision net reply)"
  by (auto simp: menu_decision_def pressable_def Let_def split: prod.split)

interpretation live: tier2_contract "realtime_choose net" "streaming_probe run" "\<lambda>_. True"
  for net :: "'w Net" and run :: "('w, Tier2Value) proc"
proof unfold_locales
  fix audio sr g v and w w' :: 'w
  show "realtime_choose net audio sr g w = (Inr v, w') \<Longrightarrow> fits (ChooseMenuDigit audio sr g) v"
    by (auto simp: realtime_choose_def menu_decision_fits split: prod.splits option.splits)
  show "streaming_probe run audio sr w = (Inr v, w') \<Longrightarrow> fits (RunProbe audio sr) v"
    by (auto simp: streaming_probe_def split: prod.splits sum.splits Tier2Value.splits if_splits)
qed

interpretation turn_based: tier2_contract "realtime_choose net" realtime_probe "\<lambda>_. True"
  for net :: "'w Net"
  by unfold_locales (auto simp: realtime_choose_def realtime_probe_def menu_decision_fits
      split: prod.splits option.splits)

interpretation fake: tier2_contract fake_choose fake_probe "\<lambda>t. \<forall>ds\<in>set_option (menu_digits t). pressable ds"
  by unfold_locales (auto simp: fake_choose_def fake_probe_def)

section \<open>The shipped Tier 2\<close>

text \<open>
  \<open>_build_tier2\<close> and the swap of \<open>media.py\<close>: with an API key the realtime client behind the
  streaming probe, without one the fake. The state has room for either.
\<close>

definition on_fake :: "(FakeTier2, 'a) proc \<Rightarrow> (FakeTier2 \<times> 'w, 'a) proc" where
  "on_fake p tw = (let (r, t') = p (fst tw) in (r, (t', snd tw)))"

definition on_net :: "('w, 'a) proc \<Rightarrow> (FakeTier2 \<times> 'w, 'a) proc" where
  "on_net p tw = (let (r, w') = p (snd tw) in (r, (fst tw, w')))"

definition shipped_choose ::
  "Settings \<Rightarrow> 'w Net \<Rightarrow> sample list \<Rightarrow> nat \<Rightarrow> string option \<Rightarrow> (FakeTier2 \<times> 'w, Tier2Value) proc" where
  "shipped_choose sett net audio sr g =
     (if openai_api_key sett \<noteq> [] then on_net (realtime_choose net audio sr g)
      else on_fake (fake_choose audio sr g))"

definition shipped_probe ::
  "Settings \<Rightarrow> ('w, Tier2Value) proc \<Rightarrow> sample list \<Rightarrow> nat \<Rightarrow> (FakeTier2 \<times> 'w, Tier2Value) proc" where
  "shipped_probe sett run audio sr =
     (if openai_api_key sett \<noteq> [] then on_net (streaming_probe run audio sr)
      else on_fake (fake_probe audio sr))"

interpretation shipped: tier2_contract "shipped_choose sett net" "shipped_probe sett run"
  "\<lambda>tw. \<forall>ds\<in>set_option (menu_digits (fst tw)). pressable ds"
  for sett :: Settings and net :: "'w Net" and run :: "('w, Tier2Value) proc"
proof unfold_locales
  fix audio sr g v and tw tw' :: "FakeTier2 \<times> 'w"
  assume ok: "\<forall>ds\<in>set_option (menu_digits (fst tw)). pressable ds"
  show "shipped_choose sett net audio sr g tw = (Inr v, tw') \<Longrightarrow> fits (ChooseMenuDigit audio sr g) v"
    using fake.choose_fits [OF ok] live.choose_fits
    by (fastforce simp: shipped_choose_def on_fake_def on_net_def split: if_splits prod.splits)
  show "shipped_probe sett run audio sr tw = (Inr v, tw') \<Longrightarrow> fits (RunProbe audio sr) v"
    using fake.probe_fits [OF ok] live.probe_fits
    by (fastforce simp: shipped_probe_def on_fake_def on_net_def split: if_splits prod.splits)
qed

lemma press_pressable:
  assumes "pressable ds" "agent_stream_sid b \<noteq> None"
  shows "press_dtmf ds now b = ([StartDtmfThread ds], b\<lparr>reconnecting := True, reconnect_since := Some now\<rparr>)"
proof -
  have "VALID_DIGITS = dtmf_keys" by (simp only: VALID_DIGITS_def dtmf_keys_def)
  with assms(1) have "filter (\<lambda>c. c \<in> set dtmf_keys) ds = ds" "ds \<noteq> []"
    by (auto simp only: pressable_def filter_id_conv)
  then show ?thesis using assms(2) by (simp add: press_dtmf_def Let_def)
qed

section \<open>The verdict's word\<close>

lemma starts_ci_append:
  "starts_ci p s \<longleftrightarrow> (\<exists>a t. s = a @ t \<and> map lower a = p)"
proof
  assume "starts_ci p s"
  then obtain t where "map lower s = p @ t" by (auto simp: starts_ci_def starts_with_append)
  then show "\<exists>a t. s = a @ t \<and> map lower a = p"
    by (metis append_eq_map_conv)
qed (auto simp: starts_ci_def starts_with_append)

lemma sep_lower: "verdict_sep c \<Longrightarrow> lower c = c" "not_sep c \<Longrightarrow> lower c = c"
  by (auto simp: verdict_sep_def not_sep_def is_space_def lower_def Let_def)

lemma sep_not_letter:
  "verdict_sep c \<Longrightarrow> lower c \<notin> set ''vhn''" "not_sep c \<Longrightarrow> lower c \<notin> set ''vhn''"
  by (auto simp: sep_lower) (auto simp: verdict_sep_def not_sep_def is_space_def)

lemma skip_seps_word:
  assumes "skip_seps sep s = Some r"
  obtains w where "s = w @ r" "w \<noteq> []" "\<forall>c\<in>set w. sep c"
proof
  show "s = takeWhile sep s @ r" "takeWhile sep s \<noteq> []" "\<forall>c\<in>set (takeWhile sep s). sep c"
    using assms by (auto simp: skip_seps_def dest: set_takeWhileD split: if_splits) (cases s; simp)
qed

lemma skip_seps_again:
  "w \<noteq> [] \<Longrightarrow> \<forall>c\<in>set w. sep c \<Longrightarrow> t \<noteq> [] \<Longrightarrow> \<not> sep (hd t) \<Longrightarrow> skip_seps sep (w @ t) = Some t"
  by (cases w; cases t) (auto simp: skip_seps_def dropWhile_append)

lemma starts_ciE:
  assumes "starts_ci p s" obtains a t where "s = a @ t" "map lower a = p"
  using assms unfolding starts_ci_append by blast

text \<open>A literal \<open>p\<close> of the pattern matched as \<open>a\<close>.\<close>

lemma literal_chars:
  assumes "map lower a = p"
  shows "lower ` set a = set p" "length a = length p" "p \<noteq> [] \<Longrightarrow> lower (hd a) = hd p"
    "starts_ci p (a @ u)"
proof -
  show "lower ` set a = set p" "length a = length p" using assms by auto
  show "p \<noteq> [] \<Longrightarrow> lower (hd a) = hd p" using assms by (cases a) auto
  show "starts_ci p (a @ u)" using assms unfolding starts_ci_append by blast
qed

lemma literal_without: "map lower a = p \<Longrightarrow> x \<notin> set p \<Longrightarrow> c \<in> set a \<Longrightarrow> lower c \<noteq> x"
  by auto

lemma starts_ci_hd: "starts_ci (x # p) (c # cs) \<Longrightarrow> lower c = x"
  by (simp add: starts_ci_def)

lemma human_at_word:
  assumes "human_at s = Some v"
  obtains w r where "s = w @ r" "w \<noteq> []" "\<forall>c\<in>set w. lower c \<noteq> CHR ''v''"
    "\<not> verdict_sep (hd w)" "\<And>u. human_at (w @ u) = Some v"
proof (cases "starts_ci ''human'' s")
  case True
  then obtain a t where a: "s = a @ t" "map lower a = ''human''" by (rule starts_ciE)
  note lit = literal_chars [OF a(2)]
  show ?thesis
  proof (rule that [of a t])
    show "human_at (a @ u) = Some v" for u
      using lit(4) assms True by (simp add: human_at_def)
    show "\<forall>c\<in>set a. lower c \<noteq> CHR ''v''" using literal_without [OF a(2)] by simp
    show "\<not> verdict_sep (hd a)" using lit(3) sep_not_letter(1) [of "hd a"] by auto
    show "s = a @ t" by fact
    show "a \<noteq> []" using lit(2) by force
  qed
next
  case False
  with assms obtain r where r: "starts_ci ''not'' s" "skip_seps not_sep (drop 3 s) = Some r"
    "starts_ci ''human'' r" "v = False"
    by (auto simp: human_at_def split: if_splits option.splits)
  obtain a t where a: "s = a @ t" "map lower a = ''not''" using r(1) by (rule starts_ciE)
  note lit = literal_chars [OF a(2)]
  then have t: "drop 3 s = t" using a(1) by simp
  obtain q where q: "t = q @ r" "q \<noteq> []" "\<forall>c\<in>set q. not_sep c"
    using skip_seps_word [of not_sep t r] r(2) t by metis
  obtain h r' where h: "r = h @ r'" "map lower h = ''human''" using r(3) by (rule starts_ciE)
  note lith = literal_chars [OF h(2)]
  obtain c a' where c: "a = c # a'" "lower c = CHR ''n''" using a(2) by (cases a) auto
  show ?thesis
  proof (rule that [of "a @ q @ h" r'])
    show "human_at ((a @ q @ h) @ u) = Some v" for u
    proof -
      have "\<not> starts_ci ''human'' (a @ q @ h @ u)"
        using starts_ci_hd c by force
      moreover have "drop 3 (a @ q @ h @ u) = q @ h @ u" using lit(2) by simp
      moreover have "skip_seps not_sep (q @ h @ u) = Some (h @ u)"
        using q lith(2,3) sep_not_letter(2) [of "hd h"] by (intro skip_seps_again) (auto simp: hd_append)
      ultimately show ?thesis using lit(4) lith(4) r(4) by (simp add: human_at_def)
    qed
    show "\<forall>c\<in>set (a @ q @ h). lower c \<noteq> CHR ''v''"
    proof -
      have "lower c \<noteq> CHR ''v''" if "c \<in> set a \<or> c \<in> set h" for c
        using that literal_without [OF a(2), of "CHR ''v''"] literal_without [OF h(2), of "CHR ''v''"] by auto
      then show ?thesis using q(3) sep_not_letter(2) by fastforce
    qed
    show "\<not> verdict_sep (hd (a @ q @ h))" using c sep_not_letter(1) [of c] by auto
    show "s = (a @ q @ h) @ r'" using a(1) q(1) h(1) by simp
    show "a @ q @ h \<noteq> []" using q(2) by simp
  qed
qed

text \<open>
  A verdict's word has its only \<open>v\<close> in front and is recognised whatever follows it.
\<close>

lemma verdict_at_word:
  assumes "verdict_at s = Some v"
  obtains c w r where "s = c # w @ r" "lower c = CHR ''v''" "\<forall>x\<in>set w. lower x \<noteq> CHR ''v''"
    "\<And>u. verdict_at (c # w @ u) = Some v"
proof -
  obtain k where k: "starts_ci ''verdict'' s" "skip_seps verdict_sep (drop 7 s) = Some k" "human_at k = Some v"
    using assms by (auto simp: verdict_at_def bind_eq_Some_conv split: if_splits)
  obtain a t where a: "s = a @ t" "map lower a = ''verdict''" using k(1) by (rule starts_ciE)
  note lit = literal_chars [OF a(2)]
  then have t: "drop 7 s = t" using a(1) by simp
  obtain q where q: "t = q @ k" "q \<noteq> []" "\<forall>c\<in>set q. verdict_sep c"
    using skip_seps_word [of verdict_sep t k] k(2) t by metis
  obtain h r where h: "k = h @ r" "h \<noteq> []" "\<forall>c\<in>set h. lower c \<noteq> CHR ''v''"
    "\<not> verdict_sep (hd h)" "\<And>u. human_at (h @ u) = Some v"
    using human_at_word [OF k(3)] by metis
  obtain c a' where c: "a = c # a'" "lower c = CHR ''v''" "map lower a' = ''erdict''"
    using a(2) by (cases a) auto
  show ?thesis
  proof (rule that [of c "a' @ q @ h" r])
    show "verdict_at (c # (a' @ q @ h) @ u) = Some v" for u
    proof -
      have "drop 7 (a @ q @ h @ u) = q @ h @ u" using lit(2) by simp
      moreover have "skip_seps verdict_sep (q @ h @ u) = Some (h @ u)"
        using q h(2,4) by (intro skip_seps_again) (auto simp: hd_append)
      ultimately have "verdict_at (a @ q @ h @ u) = Some v" using lit(4) h(5) by (simp add: verdict_at_def)
      then show ?thesis using c(1) by simp
    qed
    show "\<forall>x\<in>set (a' @ q @ h). lower x \<noteq> CHR ''v''"
    proof -
      have "lower x \<noteq> CHR ''v''" if "x \<in> set a'" for x
        using literal_without [OF c(3) _ that, of "CHR ''v''"] by simp
      then show ?thesis using q(3) h(3) sep_not_letter(1) by fastforce
    qed
    show "s = c # (a' @ q @ h) @ r" using a(1) q(1) h(1) c(1) by simp
    show "lower c = CHR ''v''" by fact
  qed
qed

lemma no_v_no_verdict: "\<forall>c\<in>set s. lower c \<noteq> CHR ''v'' \<Longrightarrow> verdict_search s = None"
proof (induction s)
  case (Cons c s)
  then have "verdict_at (c # s) = None"
    by (cases "verdict_at (c # s)") (auto elim: verdict_at_word)
  with Cons show ?case by simp
qed simp

text \<open>The first verdict in a text stays the first whatever is appended.\<close>

lemma verdict_stable: "verdict_search s = Some v \<Longrightarrow> verdict_search (s @ u) = Some v"
proof (induction s)
  case (Cons c s)
  show ?case
  proof (cases "verdict_at (c # s)")
    case (Some v')
    then obtain d w r where w: "c # s = d # w @ r" "\<And>u. verdict_at (d # w @ u) = Some v'"
      using verdict_at_word by metis
    from w(2) [of "r @ u"] w(1) have "verdict_at (c # s @ u) = Some v'" by simp
    with Some Cons.prems show ?thesis by simp
  next
    case None
    with Cons have later: "verdict_search s = Some v" "verdict_search (s @ u) = Some v" by simp_all
    have "verdict_at (c # s @ u) = None"
    proof (rule ccontr)
      assume "verdict_at (c # s @ u) \<noteq> None"
      then obtain v' where "verdict_at (c # s @ u) = Some v'" by blast
      then obtain d w r where w: "c # s @ u = d # w @ r" "\<forall>x\<in>set w. lower x \<noteq> CHR ''v''"
        "\<And>u. verdict_at (d # w @ u) = Some v'"
        using verdict_at_word by metis
      from w(1) have "s @ u = w @ r" by simp
      then consider k where "s = w @ k" | k where "w = s @ k" by (auto simp: append_eq_append_conv2)
      then show False
      proof cases
        case 1
        with w(1) w(3) [of k] None show False by simp
      next
        case 2
        with w(2) no_v_no_verdict [of s] later(1) show False by simp
      qed
    qed
    with later show ?thesis by simp
  qed
qed simp

end
