(* ===== verification/Tier2_Props.thy ===== *)
theory Tier2_Props
  imports Tier2
begin

text \<open>
  The properties of Tier 2: its answers fit the jobs the session submits and its keys reach the
  far end unchanged; the probe's outcome against a specification on the whole conversation;
  what is sent to the model; how a menu reply is read.
\<close>

section \<open>The probe's loop against its specification\<close>

fun said_by :: "rt_event \<Rightarrow> string" where
  "said_by (TranscriptDelta t) = t"
| "said_by (OutputTextDelta t) = t"
| "said_by (TextDelta t) = t"
| "said_by _ = []"

text \<open>All the text of a conversation up to an error event.\<close>

definition text_of :: "rt_event list \<Rightarrow> string" where
  "text_of es = concat (map said_by (takeWhile (\<lambda>e. e \<noteq> ErrorEvent) es))"

lemma text_of_simps [simp]:
  "text_of [] = []"
  "text_of (e # es) = (if e = ErrorEvent then [] else said_by e @ text_of es)"
  by (simp_all add: text_of_def)

definition playable :: "rt_event list \<Rightarrow> bool" where
  "playable es \<longleftrightarrow> (\<forall>d. AudioDelta d \<in> set es \<longrightarrow> delta_audio d \<noteq> None)"

text \<open>The specification: what the exchange gives, from the whole text.\<close>

definition probe_spec :: "string \<Rightarrow> bool \<Rightarrow> ws_end \<Rightarrow> exn + Tier2Value \<Rightarrow> bool" where
  "probe_spec said error_seen fin out = (case verdict_search said of
       Some v \<Rightarrow> (\<exists>t. out = Inr (ProbeOutcome v t True))
     | None \<Rightarrow>
         if error_seen then out = Inr (ProbeOutcome False ''probe error'' False)
         else (case fin of
             Closes \<Rightarrow> out = Inr (ProbeOutcome False (take 200 (str_strip said)) True)
           | NetworkError \<Rightarrow> out = Inr (ProbeOutcome False ''probe unavailable'' False)
           | Raises x \<Rightarrow> out = Inl x))"

lemma spec_decided:
  assumes "verdict_search said \<noteq> None"
  shows "probe_spec (said @ xs) error_seen fin (Inr (verdict_from_text said))"
  using assms verdict_stable [of said _ xs]
  by (auto simp: probe_spec_def verdict_from_text_def)

lemma probe_loop_spec:
  "verdict_search said = None \<Longrightarrow> playable es \<Longrightarrow>
   probe_spec (said @ text_of es) (ErrorEvent \<in> set es) fin (fst (probe_loop said judging es fin))"
proof (induction es arbitrary: said judging)
  case Nil
  then show ?case by (simp add: probe_spec_def verdict_from_text_def split: ws_end.split)
next
  case (Cons e es)
  have rest: "playable es" using Cons.prems(2) by (simp add: playable_def)
  have decided: "verdict_search (said @ t) \<noteq> None \<Longrightarrow>
      probe_spec (said @ t @ text_of es) b fin (Inr (verdict_from_text (said @ t)))" for t b
    using spec_decided [of "said @ t" "text_of es"] by simp
  have goes_on: "verdict_search (said @ t) = None \<Longrightarrow>
      probe_spec (said @ t @ text_of es) (ErrorEvent \<in> set es) fin (fst (probe_loop (said @ t) j es fin))" for t j
    using Cons.IH [of "said @ t" j] rest by simp
  note quiet = Cons.prems(1) goes_on [of "[]", simplified, OF Cons.prems(1)]
  show ?case
  proof (cases e)
    case (AudioDelta d)
    then obtain samples where "delta_audio d = Some samples"
      using Cons.prems(2) by (auto simp: playable_def)
    with AudioDelta quiet show ?thesis by (simp add: Let_def case_prod_beta)
  next
    case ErrorEvent
    with Cons.prems(1) show ?thesis by (simp add: probe_spec_def Let_def)
  qed (use quiet decided goes_on in \<open>simp_all add: Let_def case_prod_beta\<close>)
qed

section \<open>What is sent\<close>

fun appended :: "rt_request list \<Rightarrow> byte list list" where
  "appended [] = []"
| "appended (AppendAudio b # rs) = (case b64decode b of None \<Rightarrow> appended rs | Some x \<Rightarrow> x # appended rs)"
| "appended (_ # rs) = appended rs"

lemma appended_append [simp]: "appended (rs @ qs) = appended rs @ appended qs"
  by (induction rs rule: appended.induct) (auto split: option.split)

lemma appended_chunks [simp]: "appended (map (\<lambda>c. AppendAudio (b64encode c)) cs) = cs"
  by (induction cs) simp_all

text \<open>The feeder on 20 ms frames, \<open>k\<close> of them sent.\<close>

lemma feed_frames:
  assumes "\<forall>f\<in>set fs. length f = 160" "k \<le> 200"
  shows "feed 4 (of_nat k / 50) fs = map (AppendAudio \<circ> b64encode) (take (200 - k) fs)
    @ (if 200 - k \<le> length fs then [CommitAudio, CreateResponse (Some [''text'']) (Some Judge)] else [])"
  using assms
proof (induction fs arbitrary: k)
  case (Cons f fs)
  show ?case
  proof (cases "k = 200")
    case False
    then have "of_nat k / 50 < (4 :: real)" "k < 200" using Cons.prems(2) by simp_all
    moreover have "real k / 50 + real (length f) / 8000 = real (Suc k) / 50"
      using Cons.prems(1) by (simp add: field_simps)
    moreover have "200 - k = Suc (200 - Suc k)" using calculation by simp
    ultimately show ?thesis using Cons.IH [of "Suc k"] Cons.prems(1) by (simp add: add_divide_distrib add.commute)
  qed simp
qed auto

lemma fake_key: "pressable ''2''"
  unfolding pressable_def VALID_DIGITS_def by simp

section \<open>The properties\<close>

text \<open>
  [C12] Tier 2's answer always fits the job and can be acted on: through the breaker and with
  either shipped implementation, a menu job that returns gives a menu decision whose digits, if
  any, are one to twenty keypad keys, which \<open>press_dtmf\<close> sends unchanged as one redirect while the
  agent leg is connected; a probe job that returns gives an outcome that was really read.
\<close>

theorem tier2_answers_fit:
  assumes "breaker_call t0 t1 (run_job (shipped_choose sett net) (shipped_probe sett run) job)
      (b, (new_FakeTier2, w)) = (Inr v, bw)"
  shows "fits job v
    \<and> (\<forall>d why. v = MenuDecision (Some d) why \<longrightarrow> agent_stream_sid br \<noteq> None \<longrightarrow>
         press_dtmf d now br = ([StartDtmfThread d], br\<lparr>reconnecting := True, reconnect_since := Some now\<rparr>))"
proof -
  have "\<forall>ds\<in>set_option (menu_digits (fst (new_FakeTier2, w))). pressable ds"
    using fake_key by (simp add: new_FakeTier2_def)
  then have "fits job v" using assms by (rule shipped.call_fits)
  moreover have "pressable d" if "v = MenuDecision (Some d) why" for d why
    using calculation that by (cases job) simp_all
  ultimately show ?thesis using press_pressable by blast
qed

definition demo_net :: "rt_event list \<Rightarrow> unit Net" where
  "demo_net es = \<lparr>json_text = (\<lambda>_. None), py_str = (\<lambda>_. []),
     menu_exchange = (\<lambda>_ w. ((es, Closes), w)), ulaw_order = []\<rparr>"

lemma demo_reply: "menu_decision (demo_net es) ''Press 2 now'' = MenuDecision (Some ''2'') ''Press 2 now''"
  by code_simp

theorem tier2_answers_fit_witness:
  "\<exists>v bw. breaker_call 0 0 (run_job
        (shipped_choose (default_Settings\<lparr>openai_api_key := ''k''\<rparr>)
           (demo_net [OutputTextDelta ''Press '', OutputTextDelta ''2 now'', ResponseDone []]))
        (shipped_probe (default_Settings\<lparr>openai_api_key := ''k''\<rparr>) (\<lambda>w. (Inl CancelledError, w)))
        (ChooseMenuDigit [] 8000 None)) (new_CircuitBreaker 3 30, (new_FakeTier2, ())) = (Inr v, bw)
     \<and> v = MenuDecision (Some ''2'') ''Press 2 now'' \<and> fits (ChooseMenuDigit [] 8000 None) v"
proof -
  let ?sett = "default_Settings\<lparr>openai_api_key := ''k''\<rparr>"
  let ?net = "demo_net [OutputTextDelta ''Press '', OutputTextDelta ''2 now'', ResponseDone []]"
  let ?run = "\<lambda>w :: unit. (Inl CancelledError, w)"
  obtain bw where run: "breaker_call 0 0 (run_job (shipped_choose ?sett ?net) (shipped_probe ?sett ?run)
      (ChooseMenuDigit [] 8000 None)) (new_CircuitBreaker 3 30, (new_FakeTier2, ()))
      = (Inr (MenuDecision (Some ''2'') ''Press 2 now''), bw)"
    using demo_reply
    by (auto simp: breaker_call_def run_job_def shipped_choose_def on_net_def realtime_choose_def
        demo_net_def admit_def current_state_def new_CircuitBreaker_def)
  with tier2_answers_fit [OF run, of undefined 0] show ?thesis by blast
qed

text \<open>
  [C13] What a probe reports is decided by its whole conversation. Let \<open>said\<close> be all the text the
  model produced up to an error event. When \<open>said\<close> holds a verdict, the outcome is the first one,
  read in order, however the conversation ended and although the loop stopped reading at it;
  without one, a human is never reported: the probe is not human when the peer closed, and counts
  as failed (\<open>Tier2Unavailable\<close>, which the breaker counts) after an error event, a timeout, a
  broken connection or an exception of the exchange.
\<close>

theorem probe_outcome_is_first_verdict:
  assumes "\<forall>d. AudioDelta d \<in> set es \<longrightarrow> delta_audio d \<noteq> None" "\<forall>x. fin = Raises x \<longrightarrow> is_Exception x"
  shows "case verdict_search (text_of es) of
      Some v \<Rightarrow> \<exists>t. fst (streaming_probe (\<lambda>w. (fst (probe_loop [] False es fin), w)) audio sr w)
          = Inr (ProbeOutcome v t True)
    | None \<Rightarrow> if ErrorEvent \<notin> set es \<and> fin = Closes
        then \<exists>t. fst (streaming_probe (\<lambda>w. (fst (probe_loop [] False es fin), w)) audio sr w)
          = Inr (ProbeOutcome False t True)
        else \<exists>m. fst (streaming_probe (\<lambda>w. (fst (probe_loop [] False es fin), w)) audio sr w)
          = Inl (Tier2Unavailable m)"
proof -
  have "playable es" using assms(1) by (simp add: playable_def)
  then have "probe_spec (text_of es) (ErrorEvent \<in> set es) fin (fst (probe_loop [] False es fin))"
    using probe_loop_spec [of "[]" es fin False] by simp
  then show ?thesis
    using assms(2)
    by (auto simp: probe_spec_def streaming_probe_def split: option.splits ws_end.splits if_splits)
qed

theorem probe_outcome_is_first_verdict_witness:
  "(\<exists>t. fst (streaming_probe (\<lambda>w. (fst (probe_loop [] False
        [AudioDelta (Some ''/w==''), TranscriptDelta ''Hi. '', TextDelta ''Verdict: not-'',
         TextDelta ''human'', ErrorEvent] NetworkError), w)) [] 8000 ()) = Inr (ProbeOutcome False t True))
   \<and> (\<exists>m. fst (streaming_probe (\<lambda>w. (fst (probe_loop [] False
        [TranscriptDelta ''Human? ''] NetworkError), w)) [] 8000 ()) = Inl (Tier2Unavailable m))"
proof -
  let ?es = "[AudioDelta (Some ''/w==''), TranscriptDelta ''Hi. '', TextDelta ''Verdict: not-'',
         TextDelta ''human'', ErrorEvent]"
  have "verdict_search (text_of ?es) = Some False"
    by code_simp
  moreover have "delta_audio (Some ''/w=='') \<noteq> None"
    by (simp add: delta_audio_def b64decode_def b64_value_def b64_alphabet_def upt_rec)
  moreover have "verdict_search (text_of [TranscriptDelta ''Human? '']) = None"
    by code_simp
  ultimately show ?thesis
    using probe_outcome_is_first_verdict [of ?es NetworkError "[]" 8000 "()"]
      probe_outcome_is_first_verdict [of "[TranscriptDelta ''Human? '']" NetworkError "[]" 8000 "()"]
    by simp
qed

text \<open>
  [C36] The whole menu clip reaches the model: the chunks appended, decoded and put together, are
  the mu-law bytes of the clip in order, none longer than 200 ms (and none is sent twice or left
  out); they are followed by one commit and one request for an answer.
\<close>

theorem menu_clip_is_sent_whole:
  "concat (appended (menu_requests order audio sr g)) = pcm16_to_ulaw order audio
    \<and> set (appended (menu_requests order audio sr g)) \<subseteq> {c. length c \<le> max 1 (sr div 5)}
    \<and> drop (length (appended (menu_requests order audio sr g)) + 1) (menu_requests order audio sr g)
       = [CommitAudio, CreateResponse None None]"
proof -
  let ?cs = "slices (max 1 (sr div 5)) (pcm16_to_ulaw order audio)"
  have "appended (menu_requests order audio sr g) = ?cs"
    by (simp add: menu_requests_def)
  moreover have "drop (length ?cs + 1) (menu_requests order audio sr g) = [CommitAudio, CreateResponse None None]"
    by (simp add: menu_requests_def)
  moreover have "concat ?cs = pcm16_to_ulaw order audio"
    by (rule concat_slices) simp
  moreover have "set ?cs \<subseteq> {c. length c \<le> max 1 (sr div 5)}"
    using slices_size by fastforce
  ultimately show ?thesis by simp
qed

text \<open>
  The probe listens for four seconds and asks once: of a call's 20 ms frames the feeder sends
  the first 200, each once and in order, and only then commits and asks for the verdict; while
  fewer have come, it has asked nothing.
\<close>

theorem probe_asks_after_200_frames:
  assumes "\<forall>f\<in>set fs. length f = 160"
  shows "feed 4 0 fs = map (AppendAudio \<circ> b64encode) (take 200 fs)
    @ (if 200 \<le> length fs then [CommitAudio, CreateResponse (Some [''text'']) (Some Judge)] else [])"
  using feed_frames [OF assms, of 0] by simp

theorem probe_asks_after_200_frames_witness:
  "CommitAudio \<notin> set (feed 4 0 (replicate 199 (replicate 160 255)))
    \<and> CommitAudio \<in> set (feed 4 0 (replicate 200 (replicate 160 255)))"
proof -
  have fs: "\<forall>f\<in>set (replicate n (replicate 160 255)). length f = 160" for n by simp
  show ?thesis
    using probe_asks_after_200_frames [OF fs [of 199]] probe_asks_after_200_frames [OF fs [of 200]]
    by (simp only: length_replicate) auto
qed

end
