(* ===== verification/Classifier.thy ===== *)
theory Classifier
  imports Fsm_Runs Session
begin

text \<open>
  \<open>agent/classifier.py\<close>: the acoustic features and the hand rules over them
  (\<open>HeuristicClassifier\<close>), and the scripted double. A numpy array of floats is a list of reals;
  \<open>zcr\<close> is \<open>None\<close> where numpy's mean of nothing is NaN (a window of one sample). A sampling rate
  of zero raises (\<open>None\<close>).
\<close>

section \<open>Array operations\<close>

definition np_mean :: "real list \<Rightarrow> real" where
  "np_mean xs = sum_list xs / of_nat (length xs)"

definition np_std :: "real list \<Rightarrow> real" where
  "np_std xs = sqrt (np_mean (map (\<lambda>x. (x - np_mean xs)\<^sup>2) xs))"

definition share :: "('a \<Rightarrow> bool) \<Rightarrow> 'a list \<Rightarrow> real" where
  "share P xs = np_mean (map (\<lambda>x. if P x then 1 else 0) xs)"

text \<open>\<open>np.abs(np.fft.rfft(xs)) ** 2\<close> and \<open>np.fft.rfftfreq(n, d)\<close>.\<close>

definition rfft_power :: "real list \<Rightarrow> real list" where
  "rfft_power xs = map (\<lambda>k. (cmod (\<Sum>j<length xs.
       of_real (xs ! j) * cis (- 2 * pi * of_nat j * of_nat k / of_nat (length xs))))\<^sup>2)
     [0..<length xs div 2 + 1]"

definition rfftfreq :: "nat \<Rightarrow> real \<Rightarrow> real list" where
  "rfftfreq n d = map (\<lambda>k. of_nat k / (of_nat n * d)) [0..<n div 2 + 1]"

definition hanning :: "nat \<Rightarrow> real list" where
  "hanning n = (if n = 1 then [1]
     else map (\<lambda>j. 1 / 2 + 1 / 2 * cos (pi * (1 - of_nat n + 2 * of_nat j) / (of_nat n - 1))) [0..<n])"

text \<open>The energy of the bins whose frequency lies between \<open>lo\<close> and \<open>hi\<close>.\<close>

definition band :: "real \<Rightarrow> real \<Rightarrow> real list \<Rightarrow> real list \<Rightarrow> real" where
  "band lo hi freqs spec = sum_list (map snd (filter (\<lambda>x. lo \<le> fst x \<and> fst x \<le> hi) (zip freqs spec)))"

section \<open>Features\<close>

record Features =
  rms :: real
  zcr :: "real option"
  flatness :: real
  tone_460_ratio :: real
  quiet_frac :: real
  env_cv :: real
  mod_4hz :: real

definition EMPTY_FEATURES :: Features where
  "EMPTY_FEATURES = \<lparr>rms = 0, zcr = Some 0, flatness = 1, tone_460_ratio = 0, quiet_frac = 1,
     env_cv = 0, mod_4hz = 0\<rparr>"

definition normalised :: "sample list \<Rightarrow> real list" where
  "normalised samples = map (\<lambda>s. of_int (sint s) / 32768) samples"

definition zero_crossings :: "real list \<Rightarrow> real option" where
  "zero_crossings x = (if length x = 1 then None
     else Some (share (\<lambda>j. \<bar>sgn (x ! (j + 1)) - sgn (x ! j)\<bar> > 0) [0..<length x - 1]))"

definition spectrum_of :: "real list \<Rightarrow> real list" where
  "spectrum_of x = map (\<lambda>p. max p (1 / 10 ^ 12)) (rfft_power (map2 (*) x (hanning (length x))))"

definition spectral_flatness :: "real list \<Rightarrow> real" where
  "spectral_flatness spec = exp (np_mean (map ln spec)) / np_mean spec"

definition ring_band_ratio :: "nat \<Rightarrow> nat \<Rightarrow> real list \<Rightarrow> real" where
  "ring_band_ratio n sr spec =
     (let total = (if sum_list spec = 0 then 1 else sum_list spec)
      in band 400 520 (rfftfreq n (1 / of_nat sr)) spec / total)"

text \<open>The RMS of each 25 ms of the window.\<close>

definition envelope_hop :: "nat \<Rightarrow> nat" where
  "envelope_hop sr = max 1 (nat (py_int (of_nat sr * (25 / 1000))))"

definition sub_rms :: "nat \<Rightarrow> nat \<Rightarrow> real list \<Rightarrow> real list" where
  "sub_rms hop n_sub x = map (\<lambda>i. sqrt (np_mean (map (\<lambda>v. v\<^sup>2) (take hop (drop (i * hop) x))) + 1 / 10 ^ 12))
     [0..<n_sub]"

definition envelope_features :: "nat \<Rightarrow> real list \<Rightarrow> real \<times> real \<times> real" where
  "envelope_features sr x =
     (let hop = envelope_hop sr; n_sub = length x div hop
      in if 4 \<le> n_sub then
           let sub = sub_rms hop n_sub x;
               peak = foldr max sub 0;
               quiet = (if peak > 1 / 10 ^ 6 then share (\<lambda>s. s < 2 / 10 * peak) sub else 1);
               cv = np_std sub / (np_mean sub + 1 / 10 ^ 9);
               env_spec = rfft_power (map (\<lambda>s. s - np_mean sub) sub);
               env_freqs = rfftfreq n_sub (of_nat hop / of_nat sr)
           in (quiet, cv, band 3 8 env_freqs env_spec / (sum_list env_spec + 1 / 10 ^ 12))
         else (1, 0, 0))"

definition acoustic_features :: "sample list \<Rightarrow> nat \<Rightarrow> Features option" where
  "acoustic_features samples sr =
     (if samples = [] then Some EMPTY_FEATURES
      else if sr = 0 then None
      else
        let x = normalised samples;
            spec = spectrum_of x;
            (quiet, cv, m4) = envelope_features sr x
        in Some \<lparr>rms = sqrt (np_mean (map (\<lambda>v. v\<^sup>2) x)), zcr = zero_crossings x,
                 flatness = spectral_flatness spec,
                 tone_460_ratio = ring_band_ratio (length x) sr spec,
                 quiet_frac = quiet, env_cv = cv, mod_4hz = m4\<rparr>)"

section \<open>The hand rules\<close>

definition SILENCE_RMS :: real where
  "SILENCE_RMS = 1 / 100"

definition musicky :: "Features \<Rightarrow> bool" where
  "musicky f \<longleftrightarrow> mod_4hz f \<ge> 1 / 2 \<and> quiet_frac f < 32 / 100 \<and> env_cv f < 75 / 100"

definition speechy :: "Features \<Rightarrow> bool" where
  "speechy f \<longleftrightarrow> quiet_frac f \<ge> 1 / 4 \<or> env_cv f \<ge> 62 / 100"

definition decide :: "Features \<Rightarrow> Label \<times> real" where
  "decide f =
     (if rms f < SILENCE_RMS then (SILENCE, 9 / 10)
      else if tone_460_ratio f > 6 / 10 \<and> flatness f < 1 / 10 then (RINGBACK, 8 / 10)
      else if musicky f then (HOLD_MUSIC, 65 / 100)
      else if speechy f then (LIVE_SPEECH_CANDIDATE, 6 / 10)
      else if flatness f < 8 / 100 \<and> env_cv f < 6 / 10 \<and> mod_4hz f \<ge> 45 / 100
      then (HOLD_MUSIC, 55 / 100)
      else (UNKNOWN, 4 / 10))"

text \<open>The \<open>features\<close> of a classification, a NaN left out.\<close>

definition feature_list :: "Features \<Rightarrow> (string \<times> py_float) list" where
  "feature_list f = [(''rms'', rms f)] @ (case zcr f of None \<Rightarrow> [] | Some z \<Rightarrow> [(''zcr'', z)])
     @ [(''flatness'', flatness f), (''tone_460_ratio'', tone_460_ratio f),
        (''quiet_frac'', quiet_frac f), (''env_cv'', env_cv f), (''mod_4hz'', mod_4hz f)]"

definition heuristic_classify :: "Frame \<Rightarrow> Classification option" where
  "heuristic_classify fr = map_option
     (\<lambda>f. \<lparr>label = fst (decide f), confidence = snd (decide f), features = feature_list f\<rparr>)
     (acoustic_features (pcm fr) (frame_rate fr))"

section \<open>The scripted double\<close>

record ScheduledLabel =
  scheduled :: Label
  t0 :: py_float
  t1 :: py_float

definition ScriptedClassifier :: "ScheduledLabel list \<Rightarrow> ScheduledLabel list" where
  "ScriptedClassifier schedule = sort_key t0 schedule"

primrec lookup_label :: "py_float \<Rightarrow> ScheduledLabel list \<Rightarrow> Label option" where
  "lookup_label t [] = None"
| "lookup_label t (i # is) = (if t0 i \<le> t \<and> t < t1 i then Some (scheduled i) else lookup_label t is)"

definition scripted_classify :: "ScheduledLabel list \<Rightarrow> py_float \<Rightarrow> Frame \<Rightarrow> Classification" where
  "scripted_classify schedule conf fr = (case lookup_label (t_start fr) schedule of
       Some l \<Rightarrow> \<lparr>label = l, confidence = conf, features = []\<rparr>
     | None \<Rightarrow> \<lparr>label = UNKNOWN, confidence = 3 / 10, features = []\<rparr>)"

section \<open>Means, shares and bands\<close>

lemma np_mean_Nil [simp]: "np_mean [] = 0"
  by (simp add: np_mean_def)

lemma sum_list_between:
  "(\<And>x. x \<in> set xs \<Longrightarrow> a \<le> x) \<Longrightarrow> of_nat (length xs) * a \<le> sum_list (xs :: real list)"
  "(\<And>x. x \<in> set xs \<Longrightarrow> x \<le> b) \<Longrightarrow> sum_list xs \<le> of_nat (length xs) * b"
  by (induction xs) (auto simp: algebra_simps add_mono)

lemma np_mean_ge:
  assumes "xs \<noteq> []" "\<And>x. x \<in> set xs \<Longrightarrow> a \<le> x" shows "a \<le> np_mean xs"
  using sum_list_between(1) [of xs a] assms by (simp add: np_mean_def field_simps)

lemma np_mean_le:
  assumes "xs \<noteq> []" "\<And>x. x \<in> set xs \<Longrightarrow> x \<le> b" shows "np_mean xs \<le> b"
  using sum_list_between(2) [of xs b] assms by (simp add: np_mean_def field_simps)

lemma np_mean_nonneg: "(\<And>x. x \<in> set xs \<Longrightarrow> 0 \<le> x) \<Longrightarrow> 0 \<le> np_mean xs"
  by (cases "xs = []") (simp_all add: np_mean_ge)

lemma share_unit: "0 \<le> share P xs" "share P xs \<le> 1"
proof -
  show "0 \<le> share P xs" unfolding share_def by (rule np_mean_nonneg) auto
  show "share P xs \<le> 1" unfolding share_def by (cases "xs = []") (auto intro!: np_mean_le)
qed

lemma band_bounds:
  assumes "\<And>x. x \<in> set spec \<Longrightarrow> 0 \<le> x"
  shows "0 \<le> band lo hi freqs spec" "band lo hi freqs spec \<le> sum_list spec"
proof -
  show "0 \<le> band lo hi freqs spec"
    unfolding band_def by (rule sum_list_nonneg) (auto dest!: set_zip_rightD intro: assms)
  show "band lo hi freqs spec \<le> sum_list spec"
    using assms
  proof (induction spec arbitrary: freqs)
    case (Cons p spec)
    show ?case
    proof (cases freqs)
      case Nil
      with Cons.prems show ?thesis by (simp add: band_def sum_list_nonneg)
    next
      case (Cons f fs)
      have "0 \<le> p" using Cons.prems by simp
      moreover have "band lo hi fs spec \<le> sum_list spec" using Cons.IH [of fs] Cons.prems by simp
      ultimately show ?thesis using Cons by (simp add: band_def)
    qed
  qed (simp add: band_def)
qed

lemma rfft_power_nonneg: "p \<in> set (rfft_power xs) \<Longrightarrow> 0 \<le> p"
  by (auto simp: rfft_power_def)

lemma sum_list_divide: "(\<Sum>x\<leftarrow>xs. x / c) = sum_list xs / (c :: real)"
  by (induction xs) (simp_all add: add_divide_distrib)

lemma sum_list_const: "(\<Sum>x\<leftarrow>xs. c) = of_nat (length xs) * (c :: real)"
  by (induction xs) (simp_all add: algebra_simps)

text \<open>The geometric mean is at most the arithmetic one.\<close>

lemma flatness_unit:
  assumes "xs \<noteq> []" "\<And>x. x \<in> set xs \<Longrightarrow> 0 < x"
  shows "0 < spectral_flatness xs" "spectral_flatness xs \<le> 1"
proof -
  have "Min (set xs) \<le> np_mean xs" using assms by (intro np_mean_ge) simp_all
  moreover have "0 < Min (set xs)" using assms by simp
  ultimately have m: "0 < np_mean xs" by linarith
  then show "0 < spectral_flatness xs" by (simp add: spectral_flatness_def)
  have "ln x \<le> x / np_mean xs - 1 + ln (np_mean xs)" if "x \<in> set xs" for x
    using ln_le_minus_one [of "x / np_mean xs"] assms(2) [OF that] m by (simp add: ln_div)
  then have "sum_list (map ln xs) \<le> sum_list (map (\<lambda>x. x / np_mean xs - 1 + ln (np_mean xs)) xs)"
    by (rule sum_list_mono)
  also have "\<dots> = sum_list xs / np_mean xs + of_nat (length xs) * (ln (np_mean xs) - 1)"
    by (simp add: sum_list_addf sum_list_subtractf sum_list_const sum_list_divide algebra_simps)
  also have "sum_list xs / np_mean xs = of_nat (length xs)"
    using m by (auto simp: np_mean_def)
  finally have "np_mean (map ln xs) \<le> ln (np_mean xs)"
    using assms(1) by (simp add: np_mean_def field_simps)
  then have "exp (np_mean (map ln xs)) \<le> np_mean xs"
    using m by (metis exp_le_cancel_iff exp_ln)
  with m show "spectral_flatness xs \<le> 1" by (simp add: spectral_flatness_def)
qed

section \<open>The features' ranges\<close>

lemma spectrum_of_pos: "p \<in> set (spectrum_of x) \<Longrightarrow> 0 < p"
  by (auto simp: spectrum_of_def)

lemma spectrum_of_nonempty [simp]: "spectrum_of x \<noteq> []"
  by (simp add: spectrum_of_def rfft_power_def)

lemma ring_band_unit: "0 \<le> ring_band_ratio n sr (spectrum_of x)" "ring_band_ratio n sr (spectrum_of x) \<le> 1"
  using band_bounds [of "spectrum_of x" 400 520 "rfftfreq n (1 / of_nat sr)"] spectrum_of_pos [of _ x]
  by (auto simp: ring_band_ratio_def Let_def less_imp_le divide_le_eq_1 intro!: divide_nonneg_nonneg)

lemma envelope_ranges:
  assumes "envelope_features sr x = (quiet, cv, m4)"
  shows "0 \<le> quiet \<and> quiet \<le> 1 \<and> 0 \<le> cv \<and> 0 \<le> m4 \<and> m4 < 1"
proof (cases "4 \<le> length x div envelope_hop sr")
  case True
  define sub where "sub = sub_rms (envelope_hop sr) (length x div envelope_hop sr) x"
  define es where "es = rfft_power (map (\<lambda>s. s - np_mean sub) sub)"
  define b where "b = band 3 8 (rfftfreq (length x div envelope_hop sr) (of_nat (envelope_hop sr) / of_nat sr)) es"
  have "s \<ge> 0" if "s \<in> set sub" for s
    using that by (auto simp: sub_def sub_rms_def intro!: add_nonneg_nonneg np_mean_nonneg)
  then have "0 \<le> np_mean sub" by (rule np_mean_nonneg)
  moreover have "0 \<le> np_std sub" unfolding np_std_def by (auto intro!: np_mean_nonneg)
  moreover have "0 \<le> b" "b \<le> sum_list es"
    unfolding b_def by (rule band_bounds, simp add: es_def rfft_power_nonneg)+
  ultimately have "0 \<le> np_std sub / (np_mean sub + 1 / 10 ^ 9)"
    "0 \<le> b / (sum_list es + 1 / 10 ^ 12)" "b / (sum_list es + 1 / 10 ^ 12) < 1"
    by (simp_all add: divide_less_eq_1)
  with True assms share_unit show ?thesis
    by (auto simp: envelope_features_def Let_def sub_def [symmetric] es_def [symmetric] b_def [symmetric]
        split: if_splits)
qed (use assms in \<open>simp add: envelope_features_def Let_def\<close>)

lemma sample_unit: "\<bar>real_of_int (sint (s :: sample)) / 32768\<bar> \<le> 1"
proof -
  have "- 32768 \<le> sint s" "sint s \<le> 32768"
    using sint_range_size [of s] by (simp_all add: word_size)
  then have "- 32768 \<le> real_of_int (sint s)" "real_of_int (sint s) \<le> 32768" by linarith+
  then show ?thesis by (simp add: abs_le_iff del: of_int_sint)
qed

lemma rms_between:
  assumes "\<And>s. s \<in> set samples \<Longrightarrow> \<bar>real_of_int (sint s) / 32768\<bar> \<le> b" "0 \<le> b" "samples \<noteq> []"
  shows "sqrt (np_mean (map (\<lambda>v. v\<^sup>2) (normalised samples))) \<le> b"
proof -
  have "v\<^sup>2 \<le> b\<^sup>2" if "v \<in> set (normalised samples)" for v
    using that assms(1,2) by (auto simp: normalised_def simp flip: abs_le_square_iff)
  then have "np_mean (map (\<lambda>v. v\<^sup>2) (normalised samples)) \<le> b\<^sup>2"
    using assms(3) by (intro np_mean_le) (auto simp: normalised_def)
  then have "sqrt (np_mean (map (\<lambda>v. v\<^sup>2) (normalised samples))) \<le> sqrt (b\<^sup>2)"
    by (rule real_sqrt_le_mono)
  with assms(2) show ?thesis by simp
qed

section \<open>The shipped classifier and the state machine\<close>

definition SHIPPED_LABELS :: "Label set" where
  "SHIPPED_LABELS = {SILENCE, RINGBACK, HOLD_MUSIC, LIVE_SPEECH_CANDIDATE, UNKNOWN}"

lemma decide_shipped: "fst (decide f) \<in> SHIPPED_LABELS"
  by (simp add: decide_def SHIPPED_LABELS_def)

fun shipped_input :: "fsm_input \<Rightarrow> bool" where
  "shipped_input (Observe l c t) \<longleftrightarrow> l \<in> SHIPPED_LABELS"
| "shipped_input Failed \<longleftrightarrow> False"
| "shipped_input _ \<longleftrightarrow> True"

lemma shipped_label_sets:
  "l \<in> SHIPPED_LABELS \<Longrightarrow> l \<notin> NON_CONNECT_LABELS" "l \<in> SHIPPED_LABELS \<Longrightarrow> l \<notin> MENU_LABELS"
  by (auto simp: SHIPPED_LABELS_def label_sets)

lemma shipped_step:
  assumes "shipped_input i" "state m \<noteq> FAILED"
  shows "fst (fsm_step i m) \<noteq> FAIL \<and> state (snd (fsm_step i m)) \<noteq> FAILED
    \<and> (state m \<noteq> IVR_MENU \<and> state m \<noteq> DIALING \<longrightarrow>
         state (snd (fsm_step i m)) \<notin> {IVR_MENU, DIALING} \<and> fst (fsm_step i m) \<noteq> WAKE_TIER2_MENU)"
proof (cases i)
  case (Observe l c t)
  have "phase_rule m t l (fst (streak_for l c m)) (fst (observe l c t m)) (state (snd (observe l c t m)))"
    by (rule observe_phase_rule)
  with assms Observe shipped_label_sets [of l] show ?thesis
    by (auto simp: phase_rule.simps)
qed (use assms in \<open>auto simp: probe_result_def note_menu_action_def note_menu_abstained_def
    bridged_def completed_def\<close>)

lemma quiet_window:
  assumes "\<forall>s\<in>set samples. \<bar>sint s\<bar> \<le> 327" "acoustic_features samples sr = Some f"
  shows "rms f < SILENCE_RMS"
proof (cases "samples = []")
  case False
  have "sqrt (np_mean (map (\<lambda>v. v\<^sup>2) (normalised samples))) \<le> 327 / 32768"
  proof (rule rms_between)
    show "\<bar>real_of_int (sint s) / 32768\<bar> \<le> 327 / 32768" if "s \<in> set samples" for s
    proof -
      have "real_of_int \<bar>sint s\<bar> \<le> 327" using assms(1) that by (metis of_int_le_iff of_int_numeral)
      then show ?thesis by (simp add: divide_right_mono del: of_int_sint)
    qed
  qed (simp_all add: False)
  moreover have "rms f = sqrt (np_mean (map (\<lambda>v. v\<^sup>2) (normalised samples)))"
    using assms(2) False by (auto simp: acoustic_features_def Let_def split: if_splits prod.splits)
  ultimately show ?thesis by (simp add: SILENCE_RMS_def)
qed (use assms in \<open>auto simp: acoustic_features_def EMPTY_FEATURES_def SILENCE_RMS_def\<close>)

section \<open>The properties\<close>

text \<open>
  Every acoustic feature keeps to its range, for any window and sampling rate: the RMS, the
  zero-crossing rate, the ring-band share, the quiet share and the syllabic share lie between 0
  and 1, the spectral flatness is above 0 and at most 1 (the geometric mean is at most the
  arithmetic one), and the envelope's variation is not negative. The thresholds of the rules are
  inside these ranges.
\<close>

theorem features_in_range:
  assumes "acoustic_features samples sr = Some f"
  shows "{rms f, tone_460_ratio f, quiet_frac f, mod_4hz f} \<union> set_option (zcr f) \<subseteq> {0..1}
    \<and> 0 \<le> env_cv f \<and> 0 \<le> flatness f \<and> flatness f \<le> 1"
proof (cases "samples = []")
  case False
  define x where "x = normalised samples"
  obtain quiet cv m4 where env: "envelope_features sr x = (quiet, cv, m4)"
    using prod_cases3 by blast
  have f: "f = \<lparr>rms = sqrt (np_mean (map (\<lambda>v. v\<^sup>2) x)), zcr = zero_crossings x,
      flatness = spectral_flatness (spectrum_of x),
      tone_460_ratio = ring_band_ratio (length x) sr (spectrum_of x),
      quiet_frac = quiet, env_cv = cv, mod_4hz = m4\<rparr>"
    using assms False env by (simp add: acoustic_features_def x_def Let_def split: if_splits)
  have "rms f \<le> 1" using rms_between [of samples 1] sample_unit False by (simp add: f x_def)
  moreover have "0 \<le> rms f" by (auto simp: f intro!: np_mean_nonneg)
  moreover have "set_option (zcr f) \<subseteq> {0..1}" using share_unit by (auto simp: f zero_crossings_def)
  moreover have "0 < flatness f" "flatness f \<le> 1"
    using flatness_unit [of "spectrum_of x"] spectrum_of_pos by (simp_all add: f)
  ultimately show ?thesis
    using envelope_ranges [OF env] ring_band_unit [of "length x" sr x] by (simp add: f)
qed (use assms in \<open>auto simp: acoustic_features_def EMPTY_FEATURES_def\<close>)

theorem features_in_range_witness:
  "\<exists>f. acoustic_features [100, 0, 65336] 8000 = Some f \<and> rms f \<le> 1 \<and> flatness f \<le> 1"
proof -
  have "acoustic_features [100, 0, 65336] 8000 \<noteq> None"
    by (simp add: acoustic_features_def Let_def split: prod.split)
  then obtain f where "acoustic_features [100, 0, 65336] 8000 = Some f" by blast
  with features_in_range [OF this] show ?thesis by auto
qed

text \<open>
  A quiet window is silence: when no sample exceeds 327 (one percent of full scale), the
  heuristic classifier answers SILENCE with confidence 0.9 whatever the spectrum looks like.
\<close>

theorem quiet_window_is_silence:
  assumes "\<forall>s\<in>set (pcm fr). \<bar>sint s\<bar> \<le> 327" "heuristic_classify fr = Some c"
  shows "label c = SILENCE \<and> confidence c = 9 / 10"
  using assms quiet_window [of "pcm fr" "frame_rate fr"]
  by (auto simp: heuristic_classify_def decide_def)

theorem quiet_window_is_silence_witness:
  "\<exists>c. heuristic_classify \<lparr>pcm = [3, 327, 0, 65209], frame_rate = 8000, t_start = 1\<rparr> = Some c
    \<and> label c = SILENCE"
proof -
  define fr where "fr = \<lparr>pcm = [3, 327, 0, 65209] :: sample list, frame_rate = 8000, t_start = 1 :: real\<rparr>"
  have "heuristic_classify fr \<noteq> None"
    by (simp add: heuristic_classify_def acoustic_features_def Let_def fr_def split: prod.split)
  then obtain c where c: "heuristic_classify fr = Some c" by blast
  have "\<forall>s\<in>set (pcm fr). \<bar>sint s\<bar> \<le> 327" by (simp add: fr_def)
  from quiet_window_is_silence [OF this c] c show ?thesis unfolding fr_def by blast
qed

text \<open>
  [C33] With the classifier the service ships, a call is never ended as unconnected and a menu is
  never entered twice: the heuristic rules only ever give five labels, and on any sequence of
  calls with such labels (and without the manual override \<open>failed\<close>, which nothing calls) the
  machine answers no FAIL and never enters FAILED; once it has left the menu it never asks for a
  menu decision again. The voicemail and error-tone exits and the way back from hold to the menu
  are code no live call reaches.
\<close>

theorem shipped_classifier_never_fails_a_call:
  assumes "\<forall>i\<in>set (is @ js). shipped_input i"
  shows "(\<forall>fr c now. heuristic_classify fr = Some c
        \<longrightarrow> shipped_input (Observe (label c) (confidence c) now))
    \<and> FAIL \<notin> set (fst (fsm_run is (new_CallStateMachine conf)))
    \<and> state (snd (fsm_run is (new_CallStateMachine conf))) \<noteq> FAILED
    \<and> (state (snd (fsm_run is (new_CallStateMachine conf))) \<notin> {DIALING, IVR_MENU} \<longrightarrow>
      WAKE_TIER2_MENU \<notin> set (fst (fsm_run js (snd (fsm_run is (new_CallStateMachine conf))))))"
proof -
  let ?m = "new_CallStateMachine conf" and ?n = "snd (fsm_run is (new_CallStateMachine conf))"
  have shipped: "\<forall>fr c now. heuristic_classify fr = Some c
      \<longrightarrow> shipped_input (Observe (label c) (confidence c) now)"
    using decide_shipped by (auto simp: heuristic_classify_def)
  have start: "state ?m \<noteq> FAILED" by (simp add: new_CallStateMachine_def)
  have live: "state ?n \<noteq> FAILED"
    by (rule fsm_run_invariant [where I = "\<lambda>m. state m \<noteq> FAILED"])
      (use assms shipped_step start in auto)
  have "\<forall>a\<in>set (fst (fsm_run is ?m)). a \<noteq> FAIL"
    by (rule fsm_run_actions [where I = "\<lambda>m. state m \<noteq> FAILED"])
      (use assms shipped_step start in auto)
  moreover have "\<forall>a\<in>set (fst (fsm_run js ?n)). a \<noteq> WAKE_TIER2_MENU" if "state ?n \<notin> {DIALING, IVR_MENU}"
    by (rule fsm_run_actions [where I = "\<lambda>m. state m \<noteq> FAILED \<and> state m \<notin> {DIALING, IVR_MENU}"])
      (use assms shipped_step live that in auto)
  ultimately show ?thesis using shipped live by blast
qed

theorem shipped_classifier_never_fails_a_call_witness:
  "state (snd (fsm_run (replicate 6 (Observe HOLD_MUSIC 1 0)) (new_CallStateMachine default_FsmConfig)))
      = ON_HOLD
    \<and> WAKE_TIER2_MENU \<notin> set (fst (fsm_run [Observe LIVE_SPEECH_CANDIDATE 1 9, Observe LIVE_SPEECH_CANDIDATE 1 10]
        (snd (fsm_run (replicate 6 (Observe HOLD_MUSIC 1 0)) (new_CallStateMachine default_FsmConfig)))))"
proof -
  have hold: "state (snd (fsm_run (replicate 6 (Observe HOLD_MUSIC 1 0)) (new_CallStateMachine default_FsmConfig)))
      = ON_HOLD"
    by (simp add: numeral_eq_Suc fsm_run_Cons fsm_entry_defs handler_defs new_CallStateMachine_def
        default_FsmConfig_def streak_for_def enter_def label_sets LIVE_STATES_def)
  have "\<forall>i\<in>set (replicate 6 (Observe HOLD_MUSIC 1 0)
      @ [Observe LIVE_SPEECH_CANDIDATE 1 9, Observe LIVE_SPEECH_CANDIDATE 1 10]). shipped_input i"
    by (simp add: SHIPPED_LABELS_def)
  from shipped_classifier_never_fails_a_call [OF this, of default_FsmConfig] hold show ?thesis by simp
qed

end
