(* ===== verification/Testing.thy ===== *)
theory Testing
  imports Classifier
begin

text \<open>
  \<open>testing.py\<close>: the synthetic call of the offline harness, its audio and its label schedule. The
  speech-like waveform, drawn from a random generator, is the parameter \<open>speech\<close> (seconds and
  amplitude); \<open>Speech_Wave\<close> has the code's.
\<close>

definition SAMPLE_RATE :: real where
  "SAMPLE_RATE = 8000"

record Segment =
  seg_label :: Label
  seconds :: py_float

definition DEFAULT_SCRIPT :: "Segment list" where
  "DEFAULT_SCRIPT = map (\<lambda>(l, s). \<lparr>seg_label = l, seconds = s\<rparr>)
     [(RINGBACK, 4), (MENU_SPEAKING, 5), (MENU_AWAITING_INPUT, 15 / 10), (SILENCE, 1),
      (HOLD_MUSIC, 10), (HOLD_INTERJECTION, 25 / 10), (HOLD_MUSIC, 8), (LIVE_SPEECH_CANDIDATE, 6)]"

definition samples_of :: "py_float \<Rightarrow> nat" where
  "samples_of s = nat (py_int (s * SAMPLE_RATE))"

definition tone :: "real list \<Rightarrow> py_float \<Rightarrow> real \<Rightarrow> real list" where
  "tone freqs s amp = map (\<lambda>i. amp / of_nat (length freqs)
     * (\<Sum>f\<leftarrow>freqs. sin (2 * pi * f * (of_nat i / SAMPLE_RATE)))) [0..<samples_of s]"

definition segment_wave :: "(py_float \<Rightarrow> real \<Rightarrow> real list) \<Rightarrow> Segment \<Rightarrow> real list" where
  "segment_wave speech seg = (let s = seconds seg in case seg_label seg of
       RINGBACK \<Rightarrow> tone [440, 480] (min 2 s) (2 / 10) @ replicate (samples_of (max 0 (s - 2))) 0
     | MENU_SPEAKING \<Rightarrow> speech s (25 / 100)
     | LIVE_SPEECH_CANDIDATE \<Rightarrow> speech s (25 / 100)
     | HOLD_INTERJECTION \<Rightarrow> map2 (+) (speech s (22 / 100)) (tone [220, 277, 330] s (5 / 100))
     | HOLD_MUSIC \<Rightarrow> map2 (*) (tone [220, 277, 330, 440] s (3 / 10))
         (map (\<lambda>i. 1 / 2 * (1 + sin (2 * pi * 5 * of_nat i / SAMPLE_RATE))) [0..<samples_of s])
     | MENU_AWAITING_INPUT \<Rightarrow> speech s (2 / 100)
     | _ \<Rightarrow> replicate (samples_of s) 0)"

primrec schedule_from :: "py_float \<Rightarrow> Segment list \<Rightarrow> ScheduledLabel list" where
  "schedule_from t [] = []"
| "schedule_from t (seg # segs) =
     \<lparr>scheduled = seg_label seg, t0 = t, t1 = t + seconds seg\<rparr> # schedule_from (t + seconds seg) segs"

definition to_pcm :: "real \<Rightarrow> int" where
  "to_pcm v = py_int (max (- 32768) (min 32767 (v * 32767)))"

definition synthesize_call ::
  "(py_float \<Rightarrow> real \<Rightarrow> real list) \<Rightarrow> Segment list \<Rightarrow> int list \<times> ScheduledLabel list" where
  "synthesize_call speech script0 =
     (let script = (if script0 = [] then DEFAULT_SCRIPT else script0)
      in (map to_pcm (concat (map (segment_wave speech) script)), schedule_from 0 script))"

definition iter_frames :: "'a list \<Rightarrow> nat \<Rightarrow> 'a list list" where
  "iter_frames xs ms = slices (nat (py_int (SAMPLE_RATE * of_nat ms / 1000))) xs"

section \<open>The schedule\<close>

text \<open>What the script says at a time.\<close>

fun segment_at :: "py_float \<Rightarrow> Segment list \<Rightarrow> Label option" where
  "segment_at t [] = None"
| "segment_at t (seg # segs) = (if t < seconds seg then Some (seg_label seg) else segment_at (t - seconds seg) segs)"

lemma schedule_later: "(\<forall>seg\<in>set segs. 0 \<le> seconds seg) \<Longrightarrow> x \<in> set (schedule_from t segs) \<Longrightarrow> t \<le> t0 x"
  by (induction segs arbitrary: t) fastforce+

lemma schedule_sorted: "(\<forall>seg\<in>set segs. 0 \<le> seconds seg) \<Longrightarrow> sorted (map t0 (schedule_from t segs))"
proof (induction segs arbitrary: t)
  case (Cons seg segs)
  have "t \<le> t0 x" if "x \<in> set (schedule_from (t + seconds seg) segs)" for x
    using schedule_later [of segs x "t + seconds seg"] that Cons.prems by simp
  with Cons show ?case by auto
qed simp

lemma lookup_schedule:
  "(\<forall>seg\<in>set segs. 0 \<le> seconds seg) \<Longrightarrow> b \<le> t \<Longrightarrow> lookup_label t (schedule_from b segs) = segment_at (t - b) segs"
  by (induction segs arbitrary: b) (auto simp: algebra_simps)

text \<open>
  The scripted double replays the script: at a time \<open>t\<close> into the call it answers the label of the
  segment the script has there, with its confidence, and UNKNOWN after the end.
\<close>

theorem scripted_replays_script:
  assumes "\<forall>seg\<in>set script. 0 \<le> seconds seg" "script \<noteq> []" "0 \<le> t_start fr"
  shows "scripted_classify (ScriptedClassifier (snd (synthesize_call speech script))) conf fr
    = (case segment_at (t_start fr) script of
         Some l \<Rightarrow> \<lparr>label = l, confidence = conf, features = []\<rparr>
       | None \<Rightarrow> \<lparr>label = UNKNOWN, confidence = 3 / 10, features = []\<rparr>)"
proof -
  have "ScriptedClassifier (snd (synthesize_call speech script)) = schedule_from 0 script"
    using schedule_sorted [OF assms(1), of 0] assms(2)
    by (simp add: ScriptedClassifier_def synthesize_call_def Let_def sort_key_id_if_sorted)
  then show ?thesis
    using lookup_schedule [OF assms(1,3)] by (simp add: scripted_classify_def)
qed

theorem scripted_replays_script_witness:
  "scripted_classify (ScriptedClassifier (snd (synthesize_call (\<lambda>_ _. []) DEFAULT_SCRIPT))) (95 / 100)
      \<lparr>pcm = [], frame_rate = 8000, t_start = 12\<rparr>
    = \<lparr>label = HOLD_MUSIC, confidence = 95 / 100, features = []\<rparr>"
proof -
  have "\<forall>seg\<in>set DEFAULT_SCRIPT. 0 \<le> seconds seg" "DEFAULT_SCRIPT \<noteq> []"
    "segment_at 12 DEFAULT_SCRIPT = Some HOLD_MUSIC"
    by (simp_all add: DEFAULT_SCRIPT_def)
  with scripted_replays_script [of DEFAULT_SCRIPT "\<lparr>pcm = [], frame_rate = 8000, t_start = 12\<rparr>"]
  show ?thesis by simp
qed

section \<open>Audio and schedule\<close>

lemma samples_of_whole [simp]: "samples_of (of_nat k / 8000) = k"
  using py_int_of_int [of "int k"] by (simp add: samples_of_def SAMPLE_RATE_def)

lemma segment_wave_length:
  assumes "seconds seg = of_nat k / 8000" "\<And>s amp. length (speech s amp) = samples_of s"
  shows "length (segment_wave speech seg) = k"
proof (cases "seg_label seg = RINGBACK")
  case True
  have "samples_of (min 2 (of_nat k / 8000)) + samples_of (max 0 (of_nat k / 8000 - 2)) = k"
  proof (cases "k \<le> 16000")
    case True
    then have "real k / 8000 \<le> 2" by simp
    then show ?thesis using samples_of_whole [of 0] by (simp add: min_absorb2 max_absorb1)
  next
    case False
    then have "max 0 (real k / 8000 - 2) = of_nat (k - 16000) / 8000" "min 2 (real k / 8000) = of_nat 16000 / 8000"
      by (simp_all add: of_nat_diff field_simps)
    then show ?thesis using False by (simp only: samples_of_whole)
  qed
  with True assms(1) show ?thesis by (simp add: segment_wave_def tone_def Let_def del: eq_divide_eq_numeral1)
next
  case False
  have "samples_of (seconds seg) = k" by (simp only: assms(1) samples_of_whole)
  with False assms(2) show ?thesis by (simp add: segment_wave_def tone_def Let_def split: Label.split)
qed

lemma schedule_end:
  "segs \<noteq> [] \<Longrightarrow> t1 (last (schedule_from b segs)) = b + (\<Sum>seg\<leftarrow>segs. seconds seg)"
proof (induction segs arbitrary: b)
  case (Cons seg segs)
  show ?case
  proof (cases segs)
    case (Cons seg' segs')
    then have "schedule_from (b + seconds seg) segs \<noteq> []" by simp
    with Cons.IH [of "b + seconds seg"] Cons show ?thesis by (simp del: schedule_from.simps(2) add: schedule_from.simps(2) [of b])
  qed simp
qed simp

text \<open>
  The synthetic audio is as long as its schedule: when every segment lasts a whole number of
  samples, the label schedule ends exactly where the audio does.
\<close>

theorem schedule_matches_audio:
  assumes "\<forall>seg\<in>set script. \<exists>k. seconds seg = of_nat k / 8000" "script \<noteq> []"
    "\<And>s amp. length (speech s amp) = samples_of s"
  shows "of_nat (length (fst (synthesize_call speech script))) = 8000 * (\<Sum>seg\<leftarrow>script. seconds seg)
    \<and> t1 (last (snd (synthesize_call speech script))) = (\<Sum>seg\<leftarrow>script. seconds seg)"
proof -
  have "of_nat (length (concat (map (segment_wave speech) segs))) = 8000 * (\<Sum>seg\<leftarrow>segs. seconds seg)"
    if "\<forall>seg\<in>set segs. \<exists>k. seconds seg = of_nat k / 8000" for segs
    using that
  proof (induction segs)
    case (Cons seg segs)
    then obtain k where "seconds seg = of_nat k / 8000" by auto
    with segment_wave_length [of seg k, OF _ assms(3)] Cons show ?case by (simp add: algebra_simps)
  qed simp
  moreover note schedule_end [of script 0]
  ultimately show ?thesis using assms(1,2) by (simp add: synthesize_call_def Let_def)
qed

end
