(* ===== verification/Simulate.thy ===== *)
theory Simulate
  imports Session_Limits Executor Tier2 Testing
begin

text \<open>
  \<open>scripts/simulate_call.py\<close>: the whole pipeline offline. A session runs over the frames of the
  synthetic call with its default collaborators: the inline executor, a circuit breaker of its
  own, the fake Tier 2, a collecting sink, hooks that do nothing. The first part composes them
  from the models of the components; the second shows that a run over 20 ms frames is a fold of
  one pure function over the classifier's labels, once per half second; the third evaluates that
  fold on the scripted call, whatever the random speech sounds like.
\<close>

section \<open>The offline world\<close>

record Offline =
  off_exec :: "Tier2Value InlineExecutor"
  off_breaker :: CircuitBreaker
  off_tier2 :: FakeTier2
  off_sink :: CollectingSink

definition new_Offline :: "string option \<Rightarrow> bool \<Rightarrow> Offline" where
  "new_Offline digits human = \<lparr>off_exec = new_InlineExecutor, off_breaker = new_CircuitBreaker 5 30,
     off_tier2 = new_FakeTier2\<lparr>menu_digits := digits, probe_is_human := human\<rparr>,
     off_sink = \<lparr>events = []\<rparr>\<rparr>"

text \<open>The job runs when it is submitted; \<open>ck\<close> are the breaker's two readings of the clock.\<close>

definition offline_submit :: "py_float \<times> py_float \<Rightarrow> Tier2Job \<Rightarrow> (Offline, unit) proc" where
  "offline_submit ck j w =
     (let (r, (e, (b, t))) = inline_submit (breaker_call (fst ck) (snd ck) (run_job fake_choose fake_probe j))
            (off_exec w, (off_breaker w, off_tier2 w))
      in (r, w\<lparr>off_exec := e, off_breaker := b, off_tier2 := t\<rparr>))"

definition offline_poll :: "(Offline, (exn + Tier2Value) option) proc" where
  "offline_poll w = (let (r, (e, _)) = inline_poll (off_exec w, ()) in (r, w\<lparr>off_exec := e\<rparr>))"

definition offline_env :: "py_float \<times> py_float \<Rightarrow> (Frame \<Rightarrow> Classification) \<Rightarrow> Offline env" where
  "offline_env ck cls = \<lparr>
     classify = cls,
     telemetry_emit = (\<lambda>e w. w\<lparr>off_sink := collecting_emit e (off_sink w)\<rparr>),
     exec_submit = offline_submit ck,
     exec_poll = offline_poll,
     exec_close = (\<lambda>w. w\<lparr>off_exec := inline_close (off_exec w)\<rparr>),
     dtmf_sender = (\<lambda>_. ret ()),
     on_bridge = ret (),
     on_fail = (\<lambda>_. ret ())\<rparr>"

text \<open>The loop of \<open>run\<close>: the rest of the frames is not fed once the session has finished.\<close>

fun feed_frames :: "'w env \<Rightarrow> sample list list \<Rightarrow> 'w sess \<Rightarrow> ((exn + unit) \<times> 'w sess) option" where
  "feed_frames env [] st = Some (Inr (), st)"
| "feed_frames env (f # fs) st = (case feed_audio env (Int16 f) st of
       None \<Rightarrow> None
     | Some (Inl e, st') \<Rightarrow> Some (Inl e, st')
     | Some (Inr _, st') \<Rightarrow> if finished (fst st') then Some (Inr (), st') else feed_frames env fs st')"

abbreviation sim_session :: AgentSession where
  "sim_session \<equiv> new_AgentSession ''sim-1'' default_Settings default_FsmConfig (Some ''reach a human'') None None"

definition simulate ::
  "(py_float \<Rightarrow> real \<Rightarrow> real list) \<Rightarrow> py_float \<times> py_float \<Rightarrow> (ScheduledLabel list \<Rightarrow> Frame \<Rightarrow> Classification) \<Rightarrow> bool
   \<Rightarrow> ((exn + unit) \<times> Offline sess) option" where
  "simulate speech ck classifier human =
     (let (pcm, schedule) = synthesize_call speech []
      in feed_frames (offline_env ck (classifier schedule))
           (map (map word_of_int) (iter_frames pcm (frame_ms default_Settings)))
           (sim_session, new_Offline (Some ''2'') human))"

section \<open>The run of a label stream\<close>

text \<open>What the run of a session offline depends on, and what it leaves behind.\<close>

record LabelRun =
  lr_fsm :: CallStateMachine
  lr_due :: "py_float option"
  lr_job :: "Tier2Kind option"
  lr_over :: bool
  lr_events :: "Event list"
  lr_digits :: "string option"
  lr_human :: bool

definition say :: "Event list \<Rightarrow> LabelRun \<Rightarrow> LabelRun" where
  "say es L = L\<lparr>lr_events := lr_events L @ es\<rparr>"

definition go :: "py_float \<Rightarrow> CallStateMachine \<Rightarrow> LabelRun \<Rightarrow> LabelRun" where
  "go now m L = say (if state m \<noteq> state (lr_fsm L)
       then [StateChanged ''sim-1'' now (state_value (state (lr_fsm L))) (state_value (state m))] else [])
     (L\<lparr>lr_fsm := m\<rparr>)"

definition lt_bridge :: "py_float \<Rightarrow> LabelRun \<Rightarrow> LabelRun" where
  "lt_bridge now L =
     (let L1 = say [BridgeStarted ''sim-1'' now] (go now (bridged (lr_fsm L)) (say [HumanDetected ''sim-1'' now] L))
      in (say [CallCompleted ''sim-1'' now ''human_bridged''] (go now (completed (lr_fsm L1)) L1))\<lparr>lr_over := True\<rparr>)"

definition lt_act :: "py_float \<Rightarrow> Action \<Rightarrow> LabelRun \<Rightarrow> LabelRun" where
  "lt_act now a L = (case a of
       NONE \<Rightarrow> L
     | WAKE_TIER2_MENU \<Rightarrow> L\<lparr>lr_due := Some (now + 2)\<rparr>
     | WAKE_TIER2_PROBE \<Rightarrow> if lr_job L = None
         then (say [Tier2Woken ''sim-1'' now ''probe''] L)\<lparr>lr_job := Some Probe\<rparr> else L
     | BRIDGE \<Rightarrow> lt_bridge now L
     | FAIL \<Rightarrow> (say [CallFailed ''sim-1'' now ''non_connect''] L)\<lparr>lr_over := True\<rparr>)"

definition lt_observe :: "Classification \<Rightarrow> py_float \<Rightarrow> LabelRun \<Rightarrow> LabelRun" where
  "lt_observe c now L =
     (let (a, m) = observe (label c) (confidence c) now (lr_fsm L)
      in lt_act now a (go now m (say [FrameClassified ''sim-1'' now (label_value (label c))
           (py_round 3 (confidence c)) (map (\<lambda>(k, v). (k, py_round 5 v)) (features c))] L)))"

definition lt_fire :: "py_float \<Rightarrow> LabelRun \<Rightarrow> LabelRun" where
  "lt_fire now L = (case lr_due L of
       None \<Rightarrow> L
     | Some due \<Rightarrow> if due \<le> now
         then (let L1 = L\<lparr>lr_due := None\<rparr>
               in if state (lr_fsm L) = IVR_MENU \<and> lr_job L = None
                  then (say [Tier2Woken ''sim-1'' now ''menu''] L1)\<lparr>lr_job := Some Menu\<rparr> else L1)
         else L)"

definition lt_answer :: "py_float \<Rightarrow> LabelRun \<Rightarrow> LabelRun" where
  "lt_answer now L = (let L1 = L\<lparr>lr_job := None\<rparr> in case lr_job L of
       None \<Rightarrow> L
     | Some Menu \<Rightarrow>
         if lr_digits L = None \<or> lr_digits L = Some '''' then L1\<lparr>lr_fsm := note_menu_abstained (lr_fsm L)\<rparr>
         else (say [DtmfSent ''sim-1'' now (the (lr_digits L))] L1)\<lparr>lr_fsm := note_menu_action now (lr_fsm L)\<rparr>
     | Some Probe \<Rightarrow>
         lt_act now (fst (probe_result (lr_human L) now (lr_fsm L)))
           (go now (snd (probe_result (lr_human L) now (lr_fsm L)))
             (say [ProbeResult ''sim-1'' now (lr_human L)] L1)))"

definition label_tick :: "(py_float \<Rightarrow> Classification) \<Rightarrow> LabelRun \<Rightarrow> py_float \<Rightarrow> LabelRun" where
  "label_tick C L now = (if lr_over L then L else lt_answer now (lt_fire now (lt_observe (C now) now L)))"

definition new_LabelRun :: "string option \<Rightarrow> bool \<Rightarrow> LabelRun" where
  "new_LabelRun digits human = \<lparr>lr_fsm = new_CallStateMachine default_FsmConfig, lr_due = None, lr_job = None,
     lr_over = False, lr_events = [], lr_digits = digits, lr_human = human\<rparr>"

section \<open>Sessions follow their label stream\<close>

definition job_answer :: "LabelRun \<Rightarrow> (exn + Tier2Value) option \<Rightarrow> bool" where
  "job_answer L r = (case lr_job L of
       None \<Rightarrow> r = None
     | Some Menu \<Rightarrow> (\<exists>why. r = Some (Inr (MenuDecision (lr_digits L) why)))
     | Some Probe \<Rightarrow> (\<exists>why v. r = Some (Inr (ProbeOutcome (lr_human L) why v))))"

lemma job_answer_fields [simp]:
  "job_answer (L\<lparr>lr_fsm := m\<rparr>) = job_answer L" "job_answer (L\<lparr>lr_due := d\<rparr>) = job_answer L"
  "job_answer (L\<lparr>lr_over := b\<rparr>) = job_answer L" "job_answer (L\<lparr>lr_events := es\<rparr>) = job_answer L"
  by (simp_all add: job_answer_def fun_eq_iff split: option.split Tier2Kind.split)

definition offline :: "LabelRun \<Rightarrow> Offline sess \<Rightarrow> bool" where
  "offline L st \<longleftrightarrow> (case st of (s, w) \<Rightarrow>
     session_call_id s = ''sim-1'' \<and> settings s = default_Settings \<and> fsm s = lr_fsm L
     \<and> menu_wake_due s = lr_due L \<and> tier2_kind s = lr_job L \<and> finished s = lr_over L
     \<and> events (off_sink w) = lr_events L \<and> job_answer L (pending (off_exec w))
     \<and> breaker_state (off_breaker w) = CLOSED
     \<and> menu_digits (off_tier2 w) = lr_digits L \<and> probe_is_human (off_tier2 w) = lr_human L)"

text \<open>The method returns, in a world that follows \<open>L'\<close>, and leaves the session's clock alone.\<close>

definition follows :: "(Offline sess, unit) proc \<Rightarrow> LabelRun \<Rightarrow> LabelRun \<Rightarrow> bool" where
  "follows p L L' \<longleftrightarrow> (\<forall>st. offline L st \<longrightarrow>
     (\<exists>st'. p st = (Inr (), st') \<and> offline L' st' \<and> clock_frame (fst st) (fst st')))"

lemma followsI:
  "(\<And>s w. offline L (s, w) \<Longrightarrow> \<exists>s' w'. p (s, w) = (Inr (), (s', w')) \<and> offline L' (s', w') \<and> clock_frame s s')
   \<Longrightarrow> follows p L L'"
  by (auto simp: follows_def)

lemma followsE:
  assumes "follows p L L'" "offline L (s, w)"
  obtains s' w' where "p (s, w) = (Inr (), (s', w'))" "offline L' (s', w')" "clock_frame s s'"
  using assms by (force simp: follows_def)

lemma follows_ret: "follows (ret ()) L L"
  by (rule followsI) (simp add: ret_def clock_frame_def)

lemma follows_andthen: "follows p L L1 \<Longrightarrow> follows q L1 L2 \<Longrightarrow> follows (andthen p q) L L2"
  by (rule followsI) (force simp: andthen_def bind_def elim!: followsE intro: clock_frame_trans)

lemma follows_self: "(\<And>s w. offline L (s, w) \<Longrightarrow> follows (f s) L L') \<Longrightarrow> follows (self f) L L'"
  unfolding follows_def self_def by (metis prod.collapse)

lemma follows_update:
  "(\<And>s w. offline L (s, w) \<Longrightarrow> offline L' (f s, w) \<and> clock_frame s (f s)) \<Longrightarrow> follows (update f) L L'"
  by (rule followsI) (simp add: update_def)

lemma follows_emit: "follows (emit (offline_env ck cls) e) L (say [e] L)"
  by (rule followsI)
    (auto simp: emit_def outward_def log_call_def offline_env_def offline_def say_def collecting_emit_def
      clock_frame_def)

lemma follows_hook: "follows (outward c (ret ())) L L"
  by (rule followsI) (auto simp: outward_def log_call_def ret_def offline_def clock_frame_def)

lemma offline_session:
  assumes "offline L (s, w)"
  shows "session_call_id s = ''sim-1''" "settings s = default_Settings" "fsm s = lr_fsm L"
    "menu_wake_due s = lr_due L" "tier2_kind s = lr_job L" "finished s = lr_over L"
  using assms by (simp_all add: offline_def)

lemma follows_fsm: "follows (update (\<lambda>s. s\<lparr>fsm := F (fsm s)\<rparr>)) L (L\<lparr>lr_fsm := F (lr_fsm L)\<rparr>)"
  by (rule follows_update) (simp add: offline_def clock_frame_def)

lemma follows_change:
  "follows (emit_state_change (offline_env ck cls) q now) L
     (say (if state (lr_fsm L) \<noteq> q then [StateChanged ''sim-1'' now (state_value q) (state_value (state (lr_fsm L)))] else []) L)"
proof -
  have "say [] L = L" by (simp add: say_def)
  then show ?thesis
    unfolding emit_state_change_def
    by (intro follows_self) (auto simp: offline_session intro: follows_emit follows_ret)
qed

text \<open>The state machine takes a step and the change is emitted.\<close>

lemma follows_go:
  "follows (andthen (update (\<lambda>s. s\<lparr>fsm := F (fsm s)\<rparr>))
     (andthen (emit_state_change (offline_env ck cls) q now) p)) L L'"
  if "q = state (lr_fsm L)" "follows p (go now (F (lr_fsm L)) L) L'"
  unfolding that(1)
proof (rule follows_andthen [OF follows_fsm], rule follows_andthen [OF follows_change])
  show "follows p (say (if state (lr_fsm (L\<lparr>lr_fsm := F (lr_fsm L)\<rparr>)) \<noteq> state (lr_fsm L)
      then [StateChanged ''sim-1'' now (state_value (state (lr_fsm L)))
             (state_value (state (lr_fsm (L\<lparr>lr_fsm := F (lr_fsm L)\<rparr>))))] else []) (L\<lparr>lr_fsm := F (lr_fsm L)\<rparr>)) L'"
    using that(2) by (simp add: go_def cong: if_cong split del: if_split)
qed

lemma follows_try: "follows p L L' \<Longrightarrow> follows (try_except p h) L L'"
  by (rule followsI) (force simp: try_except_def elim!: followsE)

lemma follows_over: "follows (update (\<lambda>s. s\<lparr>finished := True\<rparr>)) L (L\<lparr>lr_over := True\<rparr>)"
  by (rule follows_update) (simp add: offline_def clock_frame_def)

lemma follows_then:
  "follows q (say [e] L) L' \<Longrightarrow> follows (andthen (emit (offline_env ck cls) e) q) L L'"
  "follows q (L\<lparr>lr_over := True\<rparr>) L' \<Longrightarrow> follows (andthen (update (\<lambda>s. s\<lparr>finished := True\<rparr>)) q) L L'"
  "follows q L L' \<Longrightarrow> follows (andthen (outward c (ret ())) q) L L'"
  by (rule follows_andthen; (rule follows_emit follows_over follows_hook)?; assumption)+

lemma hooks [simp]:
  "on_fail (offline_env ck cls) = (\<lambda>_. ret ())" "dtmf_sender (offline_env ck cls) = (\<lambda>_. ret ())"
  "on_bridge (offline_env ck cls) = ret ()" "exec_poll (offline_env ck cls) = offline_poll"
  "exec_submit (offline_env ck cls) = offline_submit ck" "classify (offline_env ck cls) = cls"
  by (simp_all add: offline_env_def)

lemma follows_fail:
  "follows (fail (offline_env ck cls) now r) L ((say [CallFailed ''sim-1'' now r] L)\<lparr>lr_over := True\<rparr>)"
  unfolding fail_def
  by (intro follows_self, simp only: offline_session hooks)
    (rule follows_then follows_try follows_hook)+

lemma bridge_offline:
  "bridge (offline_env ck cls) now = self (\<lambda>s. andthen (emit (offline_env ck cls) (HumanDetected (session_call_id s) now))
     (andthen (outward OnBridge (ret ())) (handoff_done (offline_env ck cls) now)))"
proof
  fix st :: "Offline sess"
  obtain s w where st: "st = (s, w)" by fastforce
  show "bridge (offline_env ck cls) now st = self (\<lambda>s. andthen (emit (offline_env ck cls) (HumanDetected (session_call_id s) now))
     (andthen (outward OnBridge (ret ())) (handoff_done (offline_env ck cls) now))) st"
    by (simp add: st bridge_def run_simps)
qed

lemma follows_handoff:
  "follows (handoff_done (offline_env ck cls) now) L
     (let L1 = say [BridgeStarted ''sim-1'' now] (go now (bridged (lr_fsm L)) L)
      in (say [CallCompleted ''sim-1'' now ''human_bridged''] (go now (completed (lr_fsm L1)) L1))\<lparr>lr_over := True\<rparr>)"
  unfolding handoff_done_def Let_def
  by (intro follows_self, simp only: offline_session, rule follows_go, simp, rule follows_then,
      intro follows_self, simp only: offline_session, rule follows_go, simp, rule follows_then, rule follows_over)

lemma follows_bridge: "follows (bridge (offline_env ck cls) now) L (lt_bridge now L)"
proof -
  have "lr_fsm (say es L) = lr_fsm L" for es by (simp add: say_def)
  then have "lt_bridge now L =
     (let L0 = say [HumanDetected ''sim-1'' now] L; L1 = say [BridgeStarted ''sim-1'' now] (go now (bridged (lr_fsm L0)) L0)
      in (say [CallCompleted ''sim-1'' now ''human_bridged''] (go now (completed (lr_fsm L1)) L1))\<lparr>lr_over := True\<rparr>)"
    by (simp add: lt_bridge_def Let_def)
  with follows_handoff [of ck cls now "say [HumanDetected ''sim-1'' now] L"] show ?thesis
    unfolding bridge_offline
    by (intro follows_self, simp only: offline_session Let_def) (rule follows_then)+
qed

lemma answered_inline:
  "breaker_state b = CLOSED \<Longrightarrow> breaker_call u v (run_job fake_choose fake_probe j) (b, t) =
     (fst (run_job fake_choose fake_probe j t), (on_success b, snd (run_job fake_choose fake_probe j t)))"
  by (cases j) (simp_all add: breaker_call_def admit_def current_state_def record_outcome_def run_job_def
      fake_choose_def fake_probe_def Let_def)

definition kind_of :: "Tier2Job \<Rightarrow> Tier2Kind" where
  "kind_of j = (case j of ChooseMenuDigit _ _ _ \<Rightarrow> Menu | RunProbe _ _ \<Rightarrow> Probe)"

lemma submit_closed:
  "breaker_state (off_breaker w) = CLOSED \<Longrightarrow> offline_submit ck j w = (Inr (),
     w\<lparr>off_exec := (off_exec w)\<lparr>pending := Some (fst (run_job fake_choose fake_probe j (off_tier2 w)))\<rparr>,
       off_breaker := on_success (off_breaker w), off_tier2 := snd (run_job fake_choose fake_probe j (off_tier2 w))\<rparr>)"
  by (simp add: offline_submit_def inline_submit_def answered_inline Let_def)

lemma fake_answer:
  "menu_digits (snd (run_job fake_choose fake_probe j t)) = menu_digits t"
  "probe_is_human (snd (run_job fake_choose fake_probe j t)) = probe_is_human t"
  "fst (run_job fake_choose fake_probe j t) = (case kind_of j of
     Menu \<Rightarrow> Inr (MenuDecision (menu_digits t) ''fake: fixed digit'')
   | Probe \<Rightarrow> Inr (ProbeOutcome (probe_is_human t) ''fake'' True))"
  by (cases j; simp add: run_job_def fake_choose_def fake_probe_def kind_of_def)+

lemma follows_submit:
  assumes "k = kind_of j"
  shows "follows (andthen (update (\<lambda>s. s\<lparr>tier2_kind := Some k\<rparr>)) (submit (offline_env ck cls) j)) L (L\<lparr>lr_job := Some k\<rparr>)"
proof (rule followsI)
  fix s w assume o: "offline L (s, w)"
  then have c: "breaker_state (off_breaker w) = CLOSED" by (simp add: offline_def)
  show "\<exists>s' w'. andthen (update (\<lambda>s. s\<lparr>tier2_kind := Some k\<rparr>)) (submit (offline_env ck cls) j) (s, w) = (Inr (), (s', w'))
      \<and> offline (L\<lparr>lr_job := Some k\<rparr>) (s', w') \<and> clock_frame s s'"
    using o by (cases k)
      (simp_all add: andthen_def bind_def update_def submit_def run_outward submit_closed [OF c] logs_def
        offline_def fake_answer assms [symmetric] job_answer_def clock_frame_def on_success_def exI [of _ True])
qed

lemma follows_dispatch: "follows (dispatch (offline_env ck cls) a now) L (lt_act now a L)"
proof (cases a)
  case WAKE_TIER2_MENU
  then show ?thesis
    by (auto simp: dispatch_def lt_act_def offline_def clock_frame_def default_Settings_def intro!: follows_update)
next
  case WAKE_TIER2_PROBE
  show ?thesis
    by (auto simp: WAKE_TIER2_PROBE dispatch_def lt_act_def start_probe_def offline_session kind_of_def
        intro!: follows_self follows_ret follows_then(1) follows_submit)
qed (auto simp: dispatch_def lt_act_def intro: follows_ret follows_bridge follows_fail)

text \<open>The three parts of a tick.\<close>

lemma follows_observe:
  "follows (classify_and_observe (offline_env ck (\<lambda>f. C (t_start f))) now) L (lt_observe (C now) now L)"
proof -
  let ?F = "\<lambda>m. snd (observe (label (C now)) (confidence (C now)) now m)"
  have [simp]: "lr_fsm (say es L) = lr_fsm L" for es by (simp add: say_def)
  show ?thesis
    unfolding classify_and_observe_def lt_observe_def case_prod_beta
    by (intro follows_self, simp only: Let_def offline_session hooks Frame.simps, rule follows_then)
      (rule follows_go [where F = ?F], simp, simp add: follows_dispatch)
qed

lemma follows_fire: "follows (fire_menu_wake (offline_env ck cls) now) L (lt_fire now L)"
proof -
  have due: "follows (update (\<lambda>s. s\<lparr>menu_wake_due := None\<rparr>)) L (L\<lparr>lr_due := None\<rparr>)"
    by (rule follows_update) (simp add: offline_def clock_frame_def)
  show ?thesis
    unfolding fire_menu_wake_def lt_fire_def start_menu_def Let_def
    by (intro follows_self)
      (auto simp: offline_session kind_of_def say_def split: option.split
        intro!: follows_andthen [OF due] follows_self follows_ret follows_then(1) follows_submit)
qed

lemma poll_offline:
  "offline_poll w = (Inr (pending (off_exec w)), w\<lparr>off_exec := (off_exec w)\<lparr>pending := None\<rparr>\<rparr>)"
  by (simp add: offline_poll_def inline_poll_def)

text \<open>Polling frees the slot; what is done with the answer then runs with the slot free.\<close>

lemma follows_answer: "follows (poll_tier2 (offline_env ck cls) now) L (lt_answer now L)"
proof (rule followsI)
  fix s w assume o: "offline L (s, w)"
  let ?w = "w\<lparr>off_exec := (off_exec w)\<lparr>pending := None\<rparr>\<rparr>" and ?L = "L\<lparr>lr_job := None\<rparr>"
  show "\<exists>s' w'. poll_tier2 (offline_env ck cls) now (s, w) = (Inr (), (s', w')) \<and> offline (lt_answer now L) (s', w') \<and> clock_frame s s'"
  proof (cases "lr_job L")
    case None
    with o show ?thesis
      by (simp add: poll_tier2_def self_def offline_session lt_answer_def ret_def clock_frame_def)
  next
    case (Some k)
    obtain v where v: "pending (off_exec w) = Some (Inr v)"
      "k = Menu \<Longrightarrow> \<exists>why. v = MenuDecision (lr_digits L) why" "k = Probe \<Longrightarrow> \<exists>why x. v = ProbeOutcome (lr_human L) why x"
      using o Some by (cases k) (auto simp: offline_def job_answer_def)
    let ?s = "got (Inr v) s"
    have got: "offline ?L (?s, ?w)" "clock_frame s ?s"
      using o by (auto simp: offline_def got_def logs_def job_answer_def clock_frame_def)
    have run: "poll_tier2 (offline_env ck cls) now (s, w) =
        (case k of Menu \<Rightarrow> apply_menu (offline_env ck cls) v now | Probe \<Rightarrow> apply_probe (offline_env ck cls) v now) (?s, ?w)"
      using o Some v(1)
      by (simp add: poll_tier2_def run_simps poll_def offline_session poll_offline got_def logs_def log_call_def)
    have "follows (case k of Menu \<Rightarrow> apply_menu (offline_env ck cls) v now | Probe \<Rightarrow> apply_probe (offline_env ck cls) v now)
        ?L (lt_answer now L)"
    proof (cases k)
      case Menu
      with v(2) obtain why where "v = MenuDecision (lr_digits L) why" by blast
      then show ?thesis
        using follows_fsm [of note_menu_abstained ?L]
          follows_fsm [of "note_menu_action now" "say [DtmfSent ''sim-1'' now (the (lr_digits L))] ?L"]
        by (auto simp: Menu Some apply_menu_def lt_answer_def Let_def offline_session say_def
            intro!: follows_andthen [OF follows_try [OF follows_hook]] follows_self follows_then(1))
    next
      case Probe
      with v(3) obtain why x where pv: "v = ProbeOutcome (lr_human L) why x" by blast
      let ?F = "\<lambda>m. snd (probe_result (lr_human L) now m)"
      have [simp]: "lr_fsm (say es L1) = lr_fsm L1" for es L1 by (simp add: say_def)
      show ?thesis
        unfolding apply_probe_def pv Probe lt_answer_def Some
        by (simp only: Tier2Value.case Tier2Kind.case option.case Let_def, intro follows_self, simp only: offline_session,
            rule follows_then) (rule follows_go [where F = ?F], simp, simp add: follows_dispatch)
    qed
    from followsE [OF this got(1)] obtain s' w' where
      "poll_tier2 (offline_env ck cls) now (s, w) = (Inr (), (s', w'))" "offline (lt_answer now L) (s', w')" "clock_frame ?s s'"
      unfolding run by blast
    with got(2) show ?thesis using clock_frame_trans by blast
  qed
qed

lemma follows_tick:
  "\<not> lr_over L \<Longrightarrow> follows (run_tick (offline_env ck (\<lambda>f. C (t_start f))) now) L (label_tick C L now)"
  unfolding run_tick_def label_tick_def
  by simp (rule follows_andthen [OF follows_observe] follows_andthen [OF follows_fire] follows_answer)+

section \<open>Frames\<close>

text \<open>The ticks that have run after \<open>m\<close> frames of 20 ms: one at once, then one every 25 frames.\<close>

definition ticks :: "nat \<Rightarrow> nat" where
  "ticks m = (if m = 0 then 0 else m div 25 + 1)"

definition labels_from :: "(py_float \<Rightarrow> Classification) \<Rightarrow> nat \<Rightarrow> nat \<Rightarrow> LabelRun \<Rightarrow> LabelRun" where
  "labels_from C i j L = foldl (label_tick C) L (map (\<lambda>k. of_nat k / 2) [i..<j])"

lemma labels_over [simp]: "lr_over L \<Longrightarrow> labels_from C i j L = L"
proof -
  have "lr_over L \<Longrightarrow> foldl (label_tick C) L ts = L" for ts
    by (induction ts) (simp_all add: label_tick_def)
  then show "lr_over L \<Longrightarrow> labels_from C i j L = L" by (simp add: labels_from_def)
qed

lemma ticks_Suc: "ticks (Suc m) = (if 25 * ticks m \<le> Suc m then Suc (ticks m) else ticks m)"
proof (cases "m = 0")
  case False
  have "Suc m div 25 = (if Suc m mod 25 = 0 then Suc (m div 25) else m div 25)"
    by (simp add: div_Suc)
  moreover have "25 * (m div 25 + 1) \<le> Suc m \<longleftrightarrow> Suc m mod 25 = 0" by presburger
  ultimately show ?thesis using False by (simp add: ticks_def)
qed (simp add: ticks_def)

lemma ticks_mono: "ticks m \<le> ticks (m + k)"
  by (induction k) (auto simp: ticks_Suc)

definition synced :: "nat \<Rightarrow> AgentSession \<Rightarrow> bool" where
  "synced m s \<longleftrightarrow> samples_seen s = 160 * m \<and> next_classify_at s = of_nat (ticks m) / 2"

lemma feed_frame:
  assumes "offline L (s, w)" "synced m s" "\<not> lr_over L" "length f = 160"
  shows "\<exists>s' w'. feed_audio (offline_env ck (\<lambda>f. C (t_start f))) (Int16 f) (s, w) = Some (Inr (), (s', w'))
    \<and> offline (labels_from C (ticks m) (ticks (Suc m)) L) (s', w') \<and> synced (Suc m) s'"
proof -
  let ?env = "offline_env ck (\<lambda>f. C (t_start f))" and ?s = "ingest (Int16 f) s"
  have i: "interval s = 1 / 2" "interval ?s = 1 / 2"
    using assms(1) by (simp_all add: interval_def ingest_def offline_session default_Settings_def)
  have au: "audio_seconds ?s = of_nat (Suc m) / 50" "next_classify_at ?s = of_nat (ticks m) / 2"
    using assms(2,4) by (simp_all add: synced_def ingest_def audio_seconds_def sample_rate_def)
  have late: "m \<le> 25 * ticks m" unfolding ticks_def by presburger
  then have le: "real m \<le> 25 * real (ticks m)" by (metis of_nat_le_iff of_nat_mult of_nat_numeral)
  have "skip_ahead ?s = ?s" using le by (simp add: skip_ahead_def au i field_simps)
  moreover have nf: "\<not> finished s" using assms(1,3) by (simp add: offline_session)
  ultimately have feed: "feed_audio ?env (Int16 f) (s, w) = tick_loop ?env (?s, w)"
    by (simp add: feed_audio_def)
  have o: "offline L (?s, w)" using assms(1) by (simp add: offline_def ingest_def)
  have due: "next_classify_at ?s \<le> audio_seconds ?s \<longleftrightarrow> 25 * ticks m \<le> Suc m"
  proof -
    have "real (ticks m) / 2 \<le> real n / 50 \<longleftrightarrow> real (25 * ticks m) \<le> real n" for n by (simp add: field_simps)
    then show ?thesis unfolding au by (simp only: of_nat_le_iff)
  qed
  show ?thesis
  proof (cases "25 * ticks m \<le> Suc m")
    case False
    then have "tick_loop ?env (?s, w) = Some (Inr (), (?s, w))" using due by (simp add: tick_loop_stop)
    moreover have "synced (Suc m) ?s" using assms(2,4) False by (simp add: synced_def ingest_def ticks_Suc)
    ultimately show ?thesis using feed o False by (simp add: ticks_Suc labels_from_def)
  next
    case True
    obtain s1 w1 where run: "run_tick ?env (next_classify_at ?s) (?s, w) = (Inr (), (s1, w1))"
        and o1: "offline (label_tick C L (next_classify_at ?s)) (s1, w1)" and c1: "clock_frame ?s s1"
      by (rule followsE [OF follows_tick [OF assms(3)] o])
    let ?s2 = "s1\<lparr>next_classify_at := next_classify_at s1 + interval s1\<rparr>"
    have i1: "interval s1 = 1 / 2" using c1 i(2) by (simp add: clock_frame_def interval_def)
    have s2: "samples_seen ?s2 = 160 * Suc m" "next_classify_at ?s2 = of_nat (Suc (ticks m)) / 2"
      using c1 au(2) i1 assms(2,4) by (simp_all add: clock_frame_def ingest_def synced_def field_simps)
    have o2: "offline (label_tick C L (next_classify_at ?s)) (?s2, w1)" using o1 by (simp add: offline_def)
    have "\<not> next_classify_at ?s2 \<le> audio_seconds ?s2"
      using le unfolding audio_seconds_def s2 by (simp add: sample_rate_def field_simps)
    then have "tick_loop ?env (?s, w) = Some (Inr (), (?s2, w1))"
      using True due run by (simp add: tick_loop_go Let_def tick_loop_stop)
    moreover have "labels_from C (ticks m) (ticks (Suc m)) L = label_tick C L (next_classify_at ?s)"
      using True by (simp add: ticks_Suc labels_from_def au(2))
    moreover have "synced (Suc m) ?s2" using s2 True by (simp add: synced_def ticks_Suc)
    ultimately show ?thesis using feed o2 by simp
  qed
qed

lemma labels_append: "i \<le> j \<Longrightarrow> j \<le> k \<Longrightarrow> labels_from C j k (labels_from C i j L) = labels_from C i k L"
  unfolding labels_from_def foldl_append [symmetric] map_append [symmetric]
  by (metis le_iff_add upt_add_eq_append)

lemma feed_all_frames:
  assumes "\<forall>f\<in>set fs. length f = 160" "offline L (s, w)" "synced m s" "\<not> lr_over L"
  shows "\<exists>s' w'. feed_frames (offline_env ck (\<lambda>f. C (t_start f))) fs (s, w) = Some (Inr (), (s', w'))
    \<and> offline (labels_from C (ticks m) (ticks (m + length fs)) L) (s', w')"
  using assms
proof (induction fs arbitrary: L s w m)
  case Nil
  then show ?case by (simp add: labels_from_def)
next
  case (Cons f fs)
  let ?L1 = "labels_from C (ticks m) (ticks (Suc m)) L"
  obtain s1 w1 where f: "feed_audio (offline_env ck (\<lambda>f. C (t_start f))) (Int16 f) (s, w) = Some (Inr (), (s1, w1))"
      "offline ?L1 (s1, w1)" "synced (Suc m) s1"
    using feed_frame [where C = C and ck = ck and f = f, OF Cons.prems(2,3,4)] Cons.prems(1) by auto
  have mono: "ticks m \<le> ticks (Suc m)" "ticks (Suc m) \<le> ticks (Suc m + length fs)"
    using ticks_mono [of m 1] ticks_mono [of "Suc m" "length fs"] by simp_all
  have all: "labels_from C (ticks (Suc m)) (ticks (Suc m + length fs)) ?L1
      = labels_from C (ticks m) (ticks (m + length (f # fs))) L"
    using labels_append [OF mono, of C L] by simp
  show ?case
  proof (cases "lr_over ?L1")
    case True
    with f(1,2) all show ?thesis by (simp add: offline_session)
  next
    case False
    with Cons.IH [OF _ f(2,3) False] Cons.prems(1) f(1) offline_session(6) [OF f(2)] all
    show ?thesis by simp
  qed
qed

lemma offline_start:
  "offline (new_LabelRun digits human) (sim_session, new_Offline digits human)" "synced 0 sim_session"
  by (simp_all add: offline_def new_LabelRun_def new_AgentSession_def new_Offline_def new_InlineExecutor_def
      new_CircuitBreaker_def job_answer_def synced_def ticks_def new_FakeTier2_def)

section \<open>The timeline\<close>

text \<open>\<open>print_timeline\<close> shows the events of these kinds, all but the classified windows.\<close>

definition INTERESTING :: "string list" where
  "INTERESTING = [''state_changed'', ''tier2_woken'', ''dtmf_sent'', ''probe_result'', ''human_detected'',
     ''bridge_started'', ''call_completed'', ''call_failed'']"

definition timeline :: "Event list \<Rightarrow> Event list" where
  "timeline es = filter (\<lambda>e. kind e \<in> set INTERESTING) es"

lemma timeline_append [simp]: "timeline (xs @ ys) = timeline xs @ timeline ys"
  by (simp add: timeline_def)

lemma timeline_simps [simp]:
  "timeline [] = []" "timeline (FrameClassified c t l x fs # es) = timeline es"
  "timeline (StateChanged c t a b # es) = StateChanged c t a b # timeline es"
  "timeline (Tier2Woken c t r # es) = Tier2Woken c t r # timeline es"
  "timeline (DtmfSent c t d # es) = DtmfSent c t d # timeline es"
  "timeline (ProbeResult c t h # es) = ProbeResult c t h # timeline es"
  "timeline (HumanDetected c t # es) = HumanDetected c t # timeline es"
  "timeline (BridgeStarted c t # es) = BridgeStarted c t # timeline es"
  "timeline (CallCompleted c t oc # es) = CallCompleted c t oc # timeline es"
  "timeline (CallFailed c t r # es) = CallFailed c t r # timeline es"
  by (simp_all add: timeline_def INTERESTING_def)

text \<open>A run on top of earlier events, and a run that keeps only its timeline.\<close>

definition preceded :: "Event list \<Rightarrow> LabelRun \<Rightarrow> LabelRun" where
  "preceded es L = L\<lparr>lr_events := es @ lr_events L\<rparr>"

definition trimmed :: "LabelRun \<Rightarrow> LabelRun" where
  "trimmed L = L\<lparr>lr_events := timeline (lr_events L)\<rparr>"

lemma preceded_fields [simp]:
  "lr_fsm (preceded es L) = lr_fsm L" "lr_due (preceded es L) = lr_due L" "lr_job (preceded es L) = lr_job L"
  "lr_over (preceded es L) = lr_over L" "lr_digits (preceded es L) = lr_digits L" "lr_human (preceded es L) = lr_human L"
  "(preceded es L)\<lparr>lr_fsm := m\<rparr> = preceded es (L\<lparr>lr_fsm := m\<rparr>)" "(preceded es L)\<lparr>lr_due := d\<rparr> = preceded es (L\<lparr>lr_due := d\<rparr>)"
  "(preceded es L)\<lparr>lr_job := j\<rparr> = preceded es (L\<lparr>lr_job := j\<rparr>)" "(preceded es L)\<lparr>lr_over := b\<rparr> = preceded es (L\<lparr>lr_over := b\<rparr>)"
  "say xs (preceded es L) = preceded es (say xs L)"
  by (simp_all add: preceded_def say_def)

lemma go_preceded [simp]: "go now m (preceded es L) = preceded es (go now m L)"
  by (simp add: go_def)

lemma act_preceded [simp]: "lt_act now a (preceded es L) = preceded es (lt_act now a L)"
  by (cases a) (simp_all add: lt_act_def lt_bridge_def Let_def)

lemma tick_preceded: "label_tick C (preceded es L) t = preceded es (label_tick C L t)"
proof -
  have "lt_observe c t (preceded es L) = preceded es (lt_observe c t L)" for c L
    by (simp add: lt_observe_def case_prod_beta)
  moreover have "lt_fire t (preceded es L) = preceded es (lt_fire t L)" for L
    by (simp add: lt_fire_def Let_def split: option.split)
  moreover have "lt_answer t (preceded es L) = preceded es (lt_answer t L)" for L
    by (simp add: lt_answer_def Let_def split: option.split Tier2Kind.split)
  ultimately show ?thesis by (simp add: label_tick_def)
qed

lemma trimmed_tick: "trimmed (label_tick C (trimmed L) t) = trimmed (label_tick C L t)"
proof -
  let ?L0 = "L\<lparr>lr_events := []\<rparr>"
  have "L = preceded (lr_events L) ?L0" "trimmed L = preceded (timeline (lr_events L)) ?L0"
    by (simp_all add: preceded_def trimmed_def)
  moreover have "trimmed (preceded es X) = trimmed (preceded (timeline es) X)" for es X
    by (simp add: preceded_def trimmed_def timeline_def)
  ultimately show ?thesis by (metis tick_preceded)
qed

definition trimmed_step :: "(py_float \<Rightarrow> Classification) \<Rightarrow> LabelRun \<Rightarrow> py_float \<Rightarrow> LabelRun" where
  "trimmed_step C L t = trimmed (label_tick C L t)"

lemma trimmed_run: "trimmed (foldl (label_tick C) L ts) = foldl (trimmed_step C) (trimmed L) ts"
proof (induction ts rule: rev_induct)
  case (snoc t ts)
  then show ?case by (simp add: trimmed_step_def) (metis trimmed_tick)
qed simp

section \<open>The scripted call\<close>

definition scripted :: "ScheduledLabel list \<Rightarrow> Frame \<Rightarrow> Classification" where
  "scripted schedule = scripted_classify (ScriptedClassifier schedule) (95 / 100)"

definition script_labels :: "py_float \<Rightarrow> Classification" where
  "script_labels t = scripted (schedule_from 0 DEFAULT_SCRIPT) \<lparr>pcm = [], frame_rate = 8000, t_start = t\<rparr>"

lemma scripted_time: "scripted (schedule_from 0 DEFAULT_SCRIPT) = (\<lambda>f. script_labels (t_start f))"
  by (simp add: fun_eq_iff scripted_def script_labels_def scripted_classify_def)

lemma script_labels_eq:
  assumes "0 \<le> t"
  shows "script_labels t = (case segment_at t DEFAULT_SCRIPT of
      Some l \<Rightarrow> \<lparr>label = l, confidence = 19 / 20, features = []\<rparr>
    | None \<Rightarrow> \<lparr>label = UNKNOWN, confidence = 3 / 10, features = []\<rparr>)"
proof -
  have ok: "\<forall>seg\<in>set DEFAULT_SCRIPT. 0 \<le> seconds seg" by (simp add: DEFAULT_SCRIPT_def)
  have "ScriptedClassifier (schedule_from 0 DEFAULT_SCRIPT) = schedule_from 0 DEFAULT_SCRIPT"
    unfolding ScriptedClassifier_def by (rule sort_key_id_if_sorted, rule schedule_sorted [OF ok])
  then show ?thesis
    using lookup_schedule [OF ok assms] by (simp add: scripted_def script_labels_def scripted_classify_def)
qed

lemma script_at:
  "0 \<le> t \<Longrightarrow> t < 4 \<Longrightarrow> script_labels t = \<lparr>label = RINGBACK, confidence = 19 / 20, features = []\<rparr>"
  "4 \<le> t \<Longrightarrow> t < 9 \<Longrightarrow> script_labels t = \<lparr>label = MENU_SPEAKING, confidence = 19 / 20, features = []\<rparr>"
  "9 \<le> t \<Longrightarrow> t < 21 / 2 \<Longrightarrow> script_labels t = \<lparr>label = MENU_AWAITING_INPUT, confidence = 19 / 20, features = []\<rparr>"
  "21 / 2 \<le> t \<Longrightarrow> t < 23 / 2 \<Longrightarrow> script_labels t = \<lparr>label = SILENCE, confidence = 19 / 20, features = []\<rparr>"
  "23 / 2 \<le> t \<Longrightarrow> t < 43 / 2 \<Longrightarrow> script_labels t = \<lparr>label = HOLD_MUSIC, confidence = 19 / 20, features = []\<rparr>"
  "43 / 2 \<le> t \<Longrightarrow> t < 24 \<Longrightarrow> script_labels t = \<lparr>label = HOLD_INTERJECTION, confidence = 19 / 20, features = []\<rparr>"
  "24 \<le> t \<Longrightarrow> t < 32 \<Longrightarrow> script_labels t = \<lparr>label = HOLD_MUSIC, confidence = 19 / 20, features = []\<rparr>"
  "32 \<le> t \<Longrightarrow> t < 38 \<Longrightarrow> script_labels t = \<lparr>label = LIVE_SPEECH_CANDIDATE, confidence = 19 / 20, features = []\<rparr>"
  "38 \<le> t \<Longrightarrow> script_labels t = \<lparr>label = UNKNOWN, confidence = 3 / 10, features = []\<rparr>"
  by (simp_all add: script_labels_eq DEFAULT_SCRIPT_def)

text \<open>The step on a run in normal form, the form the evaluation keeps.\<close>

lemma trimmed_step_eq:
  "trimmed_step C \<lparr>lr_fsm = m, lr_due = d, lr_job = j, lr_over = ov, lr_events = es, lr_digits = ds, lr_human = h\<rparr> t =
   trimmed (label_tick C \<lparr>lr_fsm = m, lr_due = d, lr_job = j, lr_over = ov, lr_events = es, lr_digits = ds, lr_human = h\<rparr> t)"
  by (simp add: trimmed_step_def)

lemmas tick_defs = label_tick_def lt_observe_def lt_fire_def lt_answer_def lt_act_def lt_bridge_def go_def say_def
  run_fsm_defs default_FsmConfig_def new_LabelRun_def new_CallStateMachine_def

definition until_probe :: "Event list" where
  "until_probe =
     [StateChanged ''sim-1'' 6 ''DIALING'' ''IVR_MENU'', Tier2Woken ''sim-1'' 8 ''menu'', DtmfSent ''sim-1'' 8 ''2'',
      StateChanged ''sim-1'' (25 / 2) ''IVR_MENU'' ''ON_HOLD'', StateChanged ''sim-1'' (65 / 2) ''ON_HOLD'' ''EVALUATING_SPEECH'',
      Tier2Woken ''sim-1'' (65 / 2) ''probe'']"

definition outcome :: "bool \<Rightarrow> Event list" where
  "outcome human = ProbeResult ''sim-1'' (65 / 2) human # (if human
     then [StateChanged ''sim-1'' (65 / 2) ''EVALUATING_SPEECH'' ''HUMAN_DETECTED'', HumanDetected ''sim-1'' (65 / 2),
           StateChanged ''sim-1'' (65 / 2) ''HUMAN_DETECTED'' ''BRIDGING'', BridgeStarted ''sim-1'' (65 / 2),
           StateChanged ''sim-1'' (65 / 2) ''BRIDGING'' ''DONE'', CallCompleted ''sim-1'' (65 / 2) ''human_bridged'']
     else [StateChanged ''sim-1'' (65 / 2) ''EVALUATING_SPEECH'' ''ON_HOLD''])"

definition end_of_call :: "bool \<Rightarrow> CallStateMachine" where
  "end_of_call human = (new_CallStateMachine default_FsmConfig)\<lparr>menu_refractory_until := 18, menu_presses := 1,
     state := (if human then DONE else ON_HOLD),
     streak_label := (if human then None else Some LIVE_SPEECH_CANDIDATE), streak := (if human then 0 else 10),
     refractory_until := (if human then 0 else 81 / 2)\<rparr>"

lemma scripted_run:
  "foldl (trimmed_step script_labels) (new_LabelRun (Some ''2'') True) (map (\<lambda>k. of_nat k / 2) [0..<77]) =
     (new_LabelRun (Some ''2'') True)\<lparr>lr_fsm := end_of_call True, lr_over := True, lr_events := until_probe @ outcome True\<rparr>"
  "foldl (trimmed_step script_labels) (new_LabelRun (Some ''2'') False) (map (\<lambda>k. of_nat k / 2) [0..<77]) =
     (new_LabelRun (Some ''2'') False)\<lparr>lr_fsm := end_of_call False, lr_events := until_probe @ outcome False\<rparr>"
  by (simp add: upt_rec [of _ 77] script_at tick_defs trimmed_def trimmed_step_eq until_probe_def outcome_def end_of_call_def)+

text \<open>What \<open>simulate\<close> feeds: 1900 frames of 160 samples, with the schedule of the script.\<close>

lemma synthetic_frames:
  assumes "\<And>s amp. length (speech s amp) = samples_of s"
  obtains fs where "map (map word_of_int) (iter_frames (fst (synthesize_call speech [])) (frame_ms default_Settings)) = fs"
    "length fs = 1900" "\<forall>f\<in>set fs. length f = 160"
proof -
  let ?pcm = "fst (synthesize_call speech [])"
  have same: "synthesize_call speech [] = synthesize_call speech DEFAULT_SCRIPT"
    by (simp add: synthesize_call_def DEFAULT_SCRIPT_def)
  have whole: "\<forall>seg\<in>set DEFAULT_SCRIPT. \<exists>k. seconds seg = of_nat k / 8000"
  proof
    fix seg assume "seg \<in> set DEFAULT_SCRIPT"
    then have "seconds seg \<in> {of_nat k / 8000 | k. k \<in> {32000, 40000, 12000, 8000, 80000, 20000, 64000, 48000::nat}}"
      by (auto simp: DEFAULT_SCRIPT_def)
    then show "\<exists>k. seconds seg = of_nat k / 8000" by auto
  qed
  have "of_nat (length ?pcm) = 8000 * (\<Sum>seg\<leftarrow>DEFAULT_SCRIPT. seconds seg)"
    using schedule_matches_audio [OF whole _ assms] unfolding same by (simp add: DEFAULT_SCRIPT_def)
  then have len: "length ?pcm = 304000" by (simp add: DEFAULT_SCRIPT_def)
  have "SAMPLE_RATE * of_nat (frame_ms default_Settings) / 1000 = of_int 160"
    by (simp add: SAMPLE_RATE_def default_Settings_def)
  then have fr: "iter_frames ?pcm (frame_ms default_Settings) = slices 160 ?pcm"
    unfolding iter_frames_def by (simp only: py_int_of_int) simp
  show ?thesis
    by (rule that [OF refl]) (auto simp: fr slices_def len)
qed

text \<open>
  [C7] The acceptance test of the repository, for every synthetic voice: the whole pipeline, run
  over the audio of the default script with its labels, returns without an exception and shows
  exactly this timeline: menu at 6 s, its key pressed at 8 s, hold at 12.5 s, the probe woken at
  32.5 s; if the probe hears a human the call is handed over then and there and ends, if not it is
  on hold again when the audio ends.
\<close>

theorem synthetic_call_timeline:
  assumes "\<And>s amp. length (speech s amp) = samples_of s"
  shows "\<exists>s w. simulate speech ck scripted human = Some (Inr (), (s, w))
    \<and> state (fsm s) = (if human then DONE else ON_HOLD) \<and> finished s = human
    \<and> timeline (events (off_sink w)) = until_probe @ outcome human"
proof -
  obtain fs :: "sample list list" where fs: "map (map word_of_int) (iter_frames (fst (synthesize_call speech [])) (frame_ms default_Settings)) = fs"
      "length fs = 1900" "\<forall>f\<in>set fs. length f = 160"
    by (rule synthetic_frames [OF assms])
  have sch: "snd (synthesize_call speech []) = schedule_from 0 DEFAULT_SCRIPT"
    by (simp add: synthesize_call_def)
  have fresh: "\<not> lr_over (new_LabelRun (Some ''2'') human)" by (simp add: new_LabelRun_def)
  have n: "ticks 0 = 0" "ticks (0 + length fs) = 77" by (simp_all add: ticks_def fs(2))
  let ?L = "labels_from script_labels 0 77 (new_LabelRun (Some ''2'') human)"
  obtain s w where run: "simulate speech ck scripted human = Some (Inr (), (s, w))" "offline ?L (s, w)"
    using feed_all_frames [OF fs(3) offline_start fresh, where C = script_labels and ck = ck] fs(1) sch
    unfolding n by (auto simp: simulate_def case_prod_beta scripted_time)
  have "trimmed (new_LabelRun (Some ''2'') human) = new_LabelRun (Some ''2'') human"
    by (simp add: trimmed_def new_LabelRun_def)
  then have trim: "trimmed ?L = foldl (trimmed_step script_labels) (new_LabelRun (Some ''2'') human) (map (\<lambda>k. of_nat k / 2) [0..<77])"
    unfolding labels_from_def trimmed_run by simp
  have "lr_fsm (trimmed ?L) = end_of_call human \<and> lr_over (trimmed ?L) = human \<and> lr_events (trimmed ?L) = until_probe @ outcome human"
    unfolding trim by (cases human) (simp_all only: scripted_run, simp_all add: new_LabelRun_def)
  then have "lr_fsm ?L = end_of_call human" "lr_over ?L = human" "timeline (lr_events ?L) = until_probe @ outcome human"
    by (simp_all add: trimmed_def)
  with run show ?thesis by (auto simp: offline_def end_of_call_def)
qed

theorem synthetic_call_timeline_witness:
  "\<exists>s w. simulate (\<lambda>s _. replicate (samples_of s) 0) (0, 1) scripted True = Some (Inr (), (s, w))
     \<and> HumanDetected ''sim-1'' (65 / 2) \<in> set (events (off_sink w)) \<and> state (fsm s) = DONE"
proof -
  have "\<And>s amp. length ((\<lambda>s (_::real). replicate (samples_of s) (0::real)) s amp) = samples_of s" by simp
  from synthetic_call_timeline [of "\<lambda>s _. replicate (samples_of s) 0", OF this, of "(0, 1)" True] obtain s w where
    r: "simulate (\<lambda>s _. replicate (samples_of s) 0) (0, 1) scripted True = Some (Inr (), (s, w))"
      "state (fsm s) = DONE" "timeline (events (off_sink w)) = until_probe @ outcome True"
    by auto
  have "HumanDetected ''sim-1'' (65 / 2) \<in> set (timeline (events (off_sink w)))"
    unfolding r(3) by (simp add: outcome_def)
  then have "HumanDetected ''sim-1'' (65 / 2) \<in> set (events (off_sink w))"
    by (simp only: timeline_def set_filter mem_Collect_eq)
  with r(1,2) show ?thesis by blast
qed

end
