(* ===== verification/Telephony.thy ===== *)
theory Telephony
  imports Strings Buffer
begin

text \<open>
  \<open>telephony/twiml.py\<close>, the requests of \<open>telephony/twilio_client.py\<close> that build a document,
  \<open>telephony/dtmf.py\<close> and the URL and document of \<open>api/voice.py\<close>'s two production routes. The
  documents are ASCII but for the user's intro line, which is a parameter.
\<close>

section \<open>Documents\<close>

definition xml_prolog :: string where
  "xml_prolog = ''<?xml version='' @ [quote_mark] @ ''1.0'' @ [quote_mark] @ '' encoding=''
     @ [quote_mark] @ ''UTF-8'' @ [quote_mark] @ ''?>''"

definition attr_parameter :: "string \<Rightarrow> string \<Rightarrow> string" where
  "attr_parameter name v = ''<Parameter name='' @ [quote_mark] @ name @ [quote_mark]
     @ '' value='' @ xml_quoteattr v @ ''/>''"

definition connect_stream :: "string \<Rightarrow> string \<Rightarrow> string \<Rightarrow> string option \<Rightarrow> string" where
  "connect_stream url gid role intro =
     (let say = (case intro of
            None \<Rightarrow> ''''
          | Some x \<Rightarrow> if x = '''' then '''' else ''<Say>'' @ xml_escape x @ ''</Say>'')
      in xml_prolog @ ''<Response>'' @ say @ ''<Connect>''
         @ ''<Stream url='' @ xml_quoteattr url @ ''>''
         @ attr_parameter ''group'' gid @ attr_parameter ''role'' role
         @ ''</Stream>'' @ ''</Connect>'' @ ''</Response>'')"

definition media_ws_url :: "string \<Rightarrow> string" where
  "media_ws_url base =
     str_replace ''http://'' ''ws://'' (str_replace ''https://'' ''wss://'' base) @ ''/media''"

definition voice_twiml :: "string \<Rightarrow> string \<Rightarrow> string" where
  "voice_twiml base gid = connect_stream (media_ws_url base) gid ''agent'' None"

definition join_twiml :: "string \<Rightarrow> string \<Rightarrow> string \<Rightarrow> string" where
  "join_twiml intro base gid = connect_stream (media_ws_url base) gid ''user'' (Some intro)"

text \<open>\<open>TwilioClient.press_digits\<close>: the keys are filtered once more, a pause \<open>w\<close> may pass.\<close>

definition press_keys :: "string \<Rightarrow> string" where
  "press_keys digits = filter (\<lambda>c. c \<in> set ''0123456789*#w'') digits"

definition press_digits_twiml :: "string \<Rightarrow> string \<Rightarrow> string" where
  "press_digits_twiml digits reconnect_url =
     xml_prolog @ ''<Response><Play digits='' @ [quote_mark] @ ''w'' @ press_keys digits @ [quote_mark]
     @ ''/><Pause length='' @ [quote_mark] @ ''1'' @ [quote_mark] @ ''/>''
     @ ''<Redirect>'' @ reconnect_url @ ''</Redirect></Response>''"

section \<open>DTMF\<close>

definition LOW :: "char \<rightharpoonup> nat" where
  "LOW = map_of (zip ''123A456B789C*0#D''
     [697, 697, 697, 697, 770, 770, 770, 770, 852, 852, 852, 852, 941, 941, 941, 941])"

definition HIGH :: "char \<rightharpoonup> nat" where
  "HIGH = map_of (zip ''123A456B789C*0#D''
     [1209, 1336, 1477, 1633, 1209, 1336, 1477, 1633, 1209, 1336, 1477, 1633, 1209, 1336, 1477, 1633])"

definition str_upper :: "char \<Rightarrow> char" where
  "str_upper c = (let n = of_char c :: nat in if 97 \<le> n \<and> n \<le> 122 then char_of (n - 32) else c)"

text \<open>\<open>None\<close> is the \<open>ValueError\<close>.\<close>

definition dtmf_frequencies :: "char \<Rightarrow> (nat \<times> nat) option" where
  "dtmf_frequencies digit =
     (let d = str_upper digit in case (LOW d, HIGH d) of
        (Some lo, Some hi) \<Rightarrow> Some (lo, hi) | _ \<Rightarrow> None)"

text \<open>The envelope: both ramps are assigned, the closing one last.\<close>

definition tone_env :: "nat \<Rightarrow> nat \<Rightarrow> nat \<Rightarrow> real" where
  "tone_env n ramp i =
     (if ramp = 0 then 1
      else if n - ramp \<le> i then linspace 1 0 ramp (i - (n - ramp))
      else if i < ramp then linspace 0 1 ramp i
      else 1)"

definition tone_wave :: "nat \<Rightarrow> nat \<Rightarrow> nat \<Rightarrow> real \<Rightarrow> nat \<Rightarrow> real" where
  "tone_wave lo hi sr amp i =
     (let t = of_nat i / of_nat sr
      in amp * (sin (2 * pi * of_nat lo * t) + sin (2 * pi * of_nat hi * t)) / 2)"

definition tone_samples :: "nat \<Rightarrow> nat \<Rightarrow> nat \<Rightarrow> nat \<Rightarrow> real \<Rightarrow> int list" where
  "tone_samples lo hi n sr amp =
     (let ramp = min (nat (py_int (of_nat sr * (5 / 1000)))) (n div 2)
      in map (\<lambda>i. py_int (tone_wave lo hi sr amp i * tone_env n ramp i * 32767)) [0..<n])"

definition samples_in :: "nat \<Rightarrow> nat \<Rightarrow> nat" where
  "samples_in sr ms = nat (py_int (of_nat (sr * ms) / 1000))"

definition dtmf_tone :: "char \<Rightarrow> nat \<Rightarrow> nat \<Rightarrow> nat \<Rightarrow> real \<Rightarrow> int list option" where
  "dtmf_tone digit tone_ms gap_ms sr amp = (case dtmf_frequencies digit of
       None \<Rightarrow> None
     | Some (lo, hi) \<Rightarrow>
         Some (tone_samples lo hi (samples_in sr tone_ms) sr amp @ replicate (samples_in sr gap_ms) 0))"

fun dtmf_sequence :: "string \<Rightarrow> nat \<Rightarrow> nat \<Rightarrow> nat \<Rightarrow> real \<Rightarrow> int list option" where
  "dtmf_sequence [] tone_ms gap_ms sr amp = Some []"
| "dtmf_sequence (d # ds) tone_ms gap_ms sr amp =
     (if is_space d then dtmf_sequence ds tone_ms gap_ms sr amp
      else (case dtmf_tone d tone_ms gap_ms sr amp of
          None \<Rightarrow> None
        | Some x \<Rightarrow> map_option ((@) x) (dtmf_sequence ds tone_ms gap_ms sr amp)))"

section \<open>Lemmas\<close>

lemma linspace_unit:
  assumes "i < n" shows "0 \<le> linspace 1 0 n i" "linspace 1 0 n i \<le> 1"
    "0 \<le> linspace 0 1 n i" "linspace 0 1 n i \<le> 1"
  using assms by (auto simp: linspace_def field_simps)

lemma tone_env_unit: "i < n \<Longrightarrow> ramp \<le> n \<Longrightarrow> 0 \<le> tone_env n ramp i \<and> tone_env n ramp i \<le> 1"
  using linspace_unit [of "i - (n - ramp)" ramp] linspace_unit [of i ramp]
  by (auto simp: tone_env_def)

lemma tone_wave_bound:
  assumes "0 \<le> amp" shows "\<bar>tone_wave lo hi sr amp i\<bar> \<le> amp"
proof -
  let ?x = "sin (2 * pi * of_nat lo * (of_nat i / of_nat sr)) + sin (2 * pi * of_nat hi * (of_nat i / of_nat sr))"
  have "\<bar>?x\<bar> \<le> 2"
    using abs_sin_le_one [of "2 * pi * of_nat lo * (of_nat i / of_nat sr)"]
      abs_sin_le_one [of "2 * pi * of_nat hi * (of_nat i / of_nat sr)"] by linarith
  then have "amp * \<bar>?x\<bar> \<le> amp * 2" using assms by (rule mult_left_mono)
  then show ?thesis using assms by (simp add: tone_wave_def Let_def abs_mult)
qed

lemma py_int_abs: "\<bar>real_of_int (py_int x)\<bar> \<le> \<bar>x\<bar>"
  by (auto simp: py_int_def)

lemma tone_samples_fit:
  assumes "0 \<le> amp" "amp \<le> 1" "x \<in> set (tone_samples lo hi n sr amp)"
  shows "\<bar>x\<bar> \<le> 32767"
proof -
  define ramp where "ramp = min (nat (py_int (of_nat sr * (5 / 1000)))) (n div 2)"
  obtain i where i: "i < n" "x = py_int (tone_wave lo hi sr amp i * tone_env n ramp i * 32767)"
    using assms(3) by (auto simp: tone_samples_def Let_def ramp_def)
  let ?w = "tone_wave lo hi sr amp i" and ?e = "tone_env n ramp i"
  have "ramp \<le> n" by (simp add: ramp_def)
  then have e: "0 \<le> ?e" "?e \<le> 1" using tone_env_unit [OF i(1)] by simp_all
  have "\<bar>?w\<bar> \<le> 1" using tone_wave_bound [OF assms(1)] assms(2) by (rule order_trans)
  with e have "\<bar>?w\<bar> * ?e \<le> 1 * 1" by (intro mult_mono) simp_all
  then have "\<bar>?w * ?e * 32767\<bar> \<le> 32767" using e(1) by (simp add: abs_mult)
  with py_int_abs [of "?w * ?e * 32767"] i(2) show ?thesis by linarith
qed

lemma length_tone_samples [simp]: "length (tone_samples lo hi n sr amp) = n"
  by (simp add: tone_samples_def Let_def)

lemma dtmf_tone_shape:
  "dtmf_tone d tone_ms gap_ms sr amp = Some xs \<Longrightarrow>
    dtmf_frequencies d \<noteq> None
    \<and> length xs = samples_in sr tone_ms + samples_in sr gap_ms
    \<and> (0 \<le> amp \<longrightarrow> amp \<le> 1 \<longrightarrow> (\<forall>x\<in>set xs. \<bar>x\<bar> \<le> 32767))"
  using tone_samples_fit
  by (fastforce simp: dtmf_tone_def split: option.splits prod.splits)

section \<open>The properties\<close>

text \<open>
  A synthesised key sequence never overflows and keeps its timing: when \<open>dtmf_sequence\<close>
  returns at all, every character is white space or a DTMF key, the samples are one tone and one
  gap per key, and, for an amplitude between 0 and 1, every sample fits an int16, so the cast
  wraps nothing.
\<close>

theorem dtmf_sequence_fits_int16:
  assumes "dtmf_sequence ds tone_ms gap_ms sr amp = Some xs" "0 \<le> amp" "amp \<le> 1"
  shows "set (filter (\<lambda>d. \<not> is_space d) ds) \<subseteq> {d. dtmf_frequencies d \<noteq> None}
    \<and> length xs = length (filter (\<lambda>d. \<not> is_space d) ds) * (samples_in sr tone_ms + samples_in sr gap_ms)
    \<and> set xs \<subseteq> {- 32767..32767}"
  using assms(1)
proof (induction ds arbitrary: xs)
  case (Cons d ds)
  show ?case
  proof (cases "is_space d")
    case False
    with Cons.prems obtain x ys where xs: "dtmf_tone d tone_ms gap_ms sr amp = Some x"
      "dtmf_sequence ds tone_ms gap_ms sr amp = Some ys" "xs = x @ ys"
      by (auto split: option.splits)
    from dtmf_tone_shape [OF xs(1)] assms(2,3) have "set x \<subseteq> {- 32767..32767}"
      by (auto simp: abs_le_iff)
    with xs False dtmf_tone_shape [OF xs(1)] Cons.IH [OF xs(2)] show ?thesis
      by simp
  qed (use Cons in simp)
qed simp

theorem dtmf_sequence_fits_int16_witness:
  "\<exists>xs. dtmf_sequence ''1 #'' 180 60 8000 (1 / 4) = Some xs \<and> length xs = 3840
    \<and> set xs \<subseteq> {- 32767..32767}"
proof -
  have "\<exists>xs. dtmf_sequence ''1 #'' 180 60 8000 (1 / 4) = Some xs"
    by (simp add: dtmf_tone_def dtmf_frequencies_def LOW_def HIGH_def str_upper_def is_space_def Let_def)
  then obtain xs where "dtmf_sequence ''1 #'' 180 60 8000 (1 / 4) = Some xs" by blast
  with dtmf_sequence_fits_int16 [OF this] show ?thesis
    by (simp add: is_space_def samples_in_def py_int_def)
qed

text \<open>
  [C37] No value can break out of a stream document: the URL and the group id are attributes that
  hold no bracket and no copy of their own quotation mark, whatever the settings or the query
  string contain, and the text of the intro holds no bracket.
\<close>

theorem stream_document_is_well_quoted:
  "\<exists>q1 u q2 g say. connect_stream url gid role intro =
        xml_prolog @ ''<Response>'' @ say @ ''<Connect><Stream url='' @ [q1] @ u @ [q1] @ ''>''
        @ ''<Parameter name='' @ [quote_mark] @ ''group'' @ [quote_mark] @ '' value='' @ [q2] @ g @ [q2] @ ''/>''
        @ attr_parameter ''role'' role @ ''</Stream></Connect></Response>''
    \<and> q1 \<in> {quote_mark, apostrophe} \<and> q2 \<in> {quote_mark, apostrophe}
    \<and> {q1, CHR ''<'', CHR ''>''} \<inter> set u = {} \<and> {q2, CHR ''<'', CHR ''>''} \<inter> set g = {}
    \<and> say \<in> {[], ''<Say>'' @ xml_escape (the intro) @ ''</Say>''}
    \<and> {CHR ''<'', CHR ''>''} \<inter> set (xml_escape (the intro)) = {}"
proof -
  obtain q1 u where u: "xml_quoteattr url = [q1] @ u @ [q1]" "q1 \<in> {quote_mark, apostrophe}"
    "{q1, CHR ''<'', CHR ''>''} \<inter> set u = {}"
    using quoteattr_shape [of url] by blast
  obtain q2 g where g: "xml_quoteattr gid = [q2] @ g @ [q2]" "q2 \<in> {quote_mark, apostrophe}"
    "{q2, CHR ''<'', CHR ''>''} \<inter> set g = {}"
    using quoteattr_shape [of gid] by blast
  define say where "say = (case intro of None \<Rightarrow> []
      | Some x \<Rightarrow> if x = [] then [] else ''<Say>'' @ xml_escape x @ ''</Say>'')"
  have "connect_stream url gid role intro =
        xml_prolog @ ''<Response>'' @ say @ ''<Connect><Stream url='' @ [q1] @ u @ [q1] @ ''>''
        @ ''<Parameter name='' @ [quote_mark] @ ''group'' @ [quote_mark] @ '' value='' @ [q2] @ g @ [q2] @ ''/>''
        @ attr_parameter ''role'' role @ ''</Stream></Connect></Response>''"
    by (simp add: connect_stream_def say_def attr_parameter_def [of "''group''"] u(1) g(1))
  moreover have "say \<in> {[], ''<Say>'' @ xml_escape (the intro) @ ''</Say>''}"
    by (simp add: say_def split: option.split)
  moreover have "{CHR ''<'', CHR ''>''} \<inter> set (xml_escape (the intro)) = {}"
    using escape_brackets by blast
  ultimately show ?thesis using u(2,3) g(2,3) by (intro exI conjI)
qed

end
