(* ===== verification/Dev_Routes.thy ===== *)
theory Dev_Routes
  imports Telephony
begin

text \<open>
  The wording of the user's intro in \<open>api/voice.py\<close>, and its three development routes: a phone
  tree to call, its branch, and hold music with a fork of the audio. A document is the UTF-8 text
  of the response; the base URL is put into it as it is.
\<close>

definition join_intro :: string where
  "join_intro = ''This is DialPass. Stay on the line '' @ em_dash
     @ '' I'll connect you the moment someone picks up.''"

definition MUSIC :: string where
  "MUSIC = ''http://demo.twilio.com/docs/classic.mp3''"

definition test_ivr_twiml :: "string \<Rightarrow> string" where
  "test_ivr_twiml base =
     xml_prolog @ ''<Response>''
     @ ''<Gather input='' @ quoted ''dtmf'' @ '' numDigits='' @ quoted ''1'' @ '' timeout='' @ quoted ''12''
     @ '' action='' @ quoted (base @ ''/twiml/test-ivr-branch'') @ ''>''
     @ ''<Say>Thank you for calling Acme Corporation. ''
     @ ''For billing, press 1. For technical support, press 2. ''
     @ ''To speak with an agent, press 0.</Say>''
     @ ''</Gather>''
     @ ''<Say>We did not receive a selection. Goodbye.</Say>''
     @ ''</Response>''"

definition agent_says :: "string \<Rightarrow> string" where
  "agent_says line = ''<Say voice='' @ quoted ''Polly.Matthew'' @ ''>'' @ line @ ''</Say>''"

definition pause :: "string \<Rightarrow> string" where
  "pause secs = ''<Pause length='' @ quoted secs @ ''/>''"

definition play :: "string \<Rightarrow> string" where
  "play loops = ''<Play loop='' @ quoted loops @ ''>'' @ MUSIC @ ''</Play>''"

text \<open>\<open>digits\<close> is the form's \<open>Digits\<close>, empty when it has none.\<close>

definition test_ivr_branch_twiml :: "string \<Rightarrow> string" where
  "test_ivr_branch_twiml digits =
     (let body = (if digits = ''0'' \<or> digits = ''2''
        then ''<Say>Please hold while we connect you to the next available agent.</Say>''
          @ play ''1''
          @ agent_says ''Hi there, thanks for holding. This is Mark on the support desk.''
          @ pause ''1''
          @ agent_says ''Can you hear me okay? Who am I speaking with today?''
          @ pause ''2''
          @ agent_says ''Hello? This is Mark, I'm still here. How can I help you?''
          @ pause ''2''
          @ agent_says (''Take your time '' @ em_dash @ '' I'll stay on the line with you.'')
          @ pause ''3''
          @ agent_says ''Okay, still holding for you here. Let me know when you're ready.''
          @ pause ''8''
          @ ''<Say>I can't hear anyone. I'll try back later. Goodbye.</Say>''
        else ''<Say>You selected billing. All of our representatives are currently busy. ''
          @ ''Please continue to hold.</Say>''
          @ play ''10'')
      in xml_prolog @ ''<Response>'' @ body @ ''</Response>'')"

definition holdmusic_test_twiml :: "string \<Rightarrow> string" where
  "holdmusic_test_twiml base =
     xml_prolog @ ''<Response>''
     @ ''<Start><Stream url='' @ quoted (media_ws_url base) @ '' track='' @ quoted ''outbound_track'' @ ''/></Start>''
     @ play ''6''
     @ ''</Response>''"

section \<open>Well-formed documents\<close>

text \<open>
  A checker for the documents: tags as the text between brackets, with the names of the open
  elements on a stack. \<open>None\<close> is a bracket out of place or a closing tag that closes nothing.
\<close>

fun tag_split :: "string \<Rightarrow> (string \<times> string) option" where
  "tag_split [] = None"
| "tag_split (c # cs) = (if c = CHR ''>'' then Some ([], cs) else if c = CHR ''<'' then None
     else map_option (\<lambda>(tag, rest). (c # tag, rest)) (tag_split cs))"

lemma tag_split_shorter: "tag_split s = Some (tag, rest) \<Longrightarrow> length rest < length s"
  by (induction s arbitrary: tag) (fastforce split: if_splits)+

definition tag_name :: "string \<Rightarrow> string" where
  "tag_name tag = takeWhile (\<lambda>c. c \<noteq> CHR '' '') tag"

function balanced :: "string list \<Rightarrow> string \<Rightarrow> bool" where
  "balanced open_tags [] = (open_tags = [])"
| "balanced open_tags (c # cs) =
     (if c = CHR ''<'' then (case tag_split cs of
          None \<Rightarrow> False
        | Some (tag, rest) \<Rightarrow>
            if tag = [] then False
            else if hd tag = CHR ''?'' \<or> last tag = CHR ''/'' then balanced open_tags rest
            else if hd tag = CHR ''/'' then
              (case open_tags of [] \<Rightarrow> False | t # ts \<Rightarrow> t = tl tag \<and> balanced ts rest)
            else balanced (tag_name tag # open_tags) rest)
      else c \<noteq> CHR ''>'' \<and> balanced open_tags cs)"
  by pat_completeness auto
termination
  by (relation "measure (\<lambda>(_, s). length s)") (auto dest: tag_split_shorter)

definition plain :: "string \<Rightarrow> bool" where
  "plain s \<longleftrightarrow> CHR ''<'' \<notin> set s \<and> CHR ''>'' \<notin> set s"

lemma plain_append [simp]: "plain (xs @ ys) \<longleftrightarrow> plain xs \<and> plain ys"
  by (auto simp: plain_def)

lemma plain_Cons [simp]: "plain (c # cs) \<longleftrightarrow> c \<noteq> CHR ''<'' \<and> c \<noteq> CHR ''>'' \<and> plain cs"
  by (auto simp: plain_def)

lemma plain_Nil [simp]: "plain []"
  by (simp add: plain_def)

lemma balanced_text: "plain s \<Longrightarrow> balanced ts (s @ rest) = balanced ts rest"
  by (induction s) auto

lemma tag_split_at: "plain tag \<Longrightarrow> tag_split (tag @ CHR ''>'' # rest) = Some (tag, rest)"
  by (induction tag) auto

definition mark :: "string \<Rightarrow> string" where
  "mark tag = CHR ''<'' # tag @ [CHR ''>'']"

lemma balanced_mark:
  assumes "plain tag" "tag \<noteq> []"
  shows "balanced ts (mark tag @ rest) =
     (if hd tag = CHR ''?'' \<or> last tag = CHR ''/'' then balanced ts rest
      else if hd tag = CHR ''/'' then (case ts of [] \<Rightarrow> False | t # us \<Rightarrow> t = tl tag \<and> balanced us rest)
      else balanced (tag_name tag # ts) rest)"
  using assms by (simp add: mark_def tag_split_at)

text \<open>The documents Twilio is given are well formed, whatever the values put into them.\<close>

lemma quoteattr_plain:
  "plain (xml_quoteattr x)" "xml_quoteattr x \<noteq> []" "last (xml_quoteattr x) \<noteq> CHR ''/''"
proof -
  obtain q u where q: "xml_quoteattr x = [q] @ u @ [q]" "q \<in> {quote_mark, apostrophe}"
      "CHR ''<'' \<notin> set u" "CHR ''>'' \<notin> set u"
    using quoteattr_shape [of x] by blast
  then show "plain (xml_quoteattr x)" "xml_quoteattr x \<noteq> []" "last (xml_quoteattr x) \<noteq> CHR ''/''"
    by (auto simp: plain_def quote_mark_def apostrophe_def)
qed

lemmas balanced_last = balanced_mark [where rest = "[]", simplified]

lemma prolog_mark: "xml_prolog = mark (''?xml version='' @ quoted ''1.0'' @ '' encoding='' @ quoted ''UTF-8'' @ ''?'')"
  by (simp add: xml_prolog_def mark_def quoted_def)

lemma parameter_mark: "attr_parameter name v = mark (''Parameter name='' @ quoted name @ '' value='' @ xml_quoteattr v @ ''/'')"
  by (simp add: attr_parameter_def mark_def quoted_def)

lemma balanced_prolog: "balanced ts (xml_prolog @ rest) = balanced ts rest"
  unfolding prolog_mark by (simp add: balanced_mark quoted_def quote_mark_def)

lemma balanced_parameter: "plain name \<Longrightarrow> balanced ts (attr_parameter name v @ rest) = balanced ts rest"
  unfolding parameter_mark by (simp add: balanced_mark quoted_def quote_mark_def quoteattr_plain)

theorem stream_document_balanced:
  assumes "plain role" shows "balanced [] (connect_stream url gid role intro)"
proof -
  define say where "say = (case intro of None \<Rightarrow> ''''
      | Some x \<Rightarrow> if x = '''' then '''' else ''<Say>'' @ xml_escape x @ ''</Say>'')"
  have doc: "connect_stream url gid role intro = xml_prolog @ mark ''Response'' @ say @ mark ''Connect''
     @ mark (''Stream url='' @ xml_quoteattr url) @ attr_parameter ''group'' gid @ attr_parameter ''role'' role
     @ mark ''/Stream'' @ mark ''/Connect'' @ mark ''/Response''"
    by (simp add: connect_stream_def say_def [symmetric] mark_def)
  have said: "balanced ts (say @ rest) = balanced ts rest" for ts rest
  proof (cases "say = []")
    case False
    then obtain x where "say = mark ''Say'' @ xml_escape x @ mark ''/Say''"
      by (auto simp: say_def mark_def split: option.splits if_splits)
    then show ?thesis
      using escape_brackets [of x] by (simp add: balanced_mark balanced_text plain_def tag_name_def)
  qed simp
  have "plain ''group''" "plain ''role''" by simp_all
  then show ?thesis
    unfolding doc by (simp add: balanced_last balanced_prolog said balanced_parameter quoteattr_plain balanced_mark tag_name_def)
qed

lemma element_balanced: "plain x \<Longrightarrow> balanced ts (agent_says x @ rest) = balanced ts rest"
    "plain n \<Longrightarrow> balanced ts (pause n @ rest) = balanced ts rest"
    "plain n \<Longrightarrow> balanced ts (play n @ rest) = balanced ts rest"
proof -
  have "agent_says x = mark (''Say voice='' @ quoted ''Polly.Matthew'') @ x @ mark ''/Say''"
      "pause n = mark (''Pause length='' @ quoted n @ ''/'')"
      "play n = mark (''Play loop='' @ quoted n) @ MUSIC @ mark ''/Play''"
    by (simp_all add: agent_says_def pause_def play_def mark_def)
  then show "plain x \<Longrightarrow> balanced ts (agent_says x @ rest) = balanced ts rest"
    "plain n \<Longrightarrow> balanced ts (pause n @ rest) = balanced ts rest"
    "plain n \<Longrightarrow> balanced ts (play n @ rest) = balanced ts rest"
    by (simp_all add: balanced_mark balanced_text tag_name_def quoted_def quote_mark_def MUSIC_def)
qed

lemma plain_replace: "plain new \<Longrightarrow> plain s \<Longrightarrow> plain (str_replace old new s)"
proof (induction old new s rule: str_replace.induct)
  case (1 old new s)
  show ?case
  proof (cases s)
    case (Cons c cs)
    have "plain (drop (length old) s)" using "1.prems"(2) by (auto simp: plain_def dest: in_set_dropD)
    with 1 Cons show ?thesis by (simp add: str_replace_Cons)
  qed simp
qed

lemma plain_media_url: "plain base \<Longrightarrow> plain (media_ws_url base)"
  by (simp add: media_ws_url_def plain_replace)

lemma test_ivr_balanced:
  assumes "plain base" shows "balanced [] (test_ivr_twiml base)"
proof -
  let ?attrs = "''Gather input='' @ quoted ''dtmf'' @ '' numDigits='' @ quoted ''1'' @ '' timeout='' @ quoted ''12''
     @ '' action='' @ quoted (base @ ''/twiml/test-ivr-branch'')"
  have "test_ivr_twiml base = xml_prolog @ mark ''Response'' @ mark ?attrs @ mark ''Say''
     @ ''Thank you for calling Acme Corporation. For billing, press 1. For technical support, press 2. To speak with an agent, press 0.''
     @ mark ''/Say'' @ mark ''/Gather'' @ mark ''Say'' @ ''We did not receive a selection. Goodbye.'' @ mark ''/Say'' @ mark ''/Response''"
    by (simp add: test_ivr_twiml_def mark_def)
  then show ?thesis
    by (simp only: balanced_prolog)
      (simp add: assms balanced_mark balanced_last balanced_text tag_name_def quoted_def quote_mark_def)
qed

lemma branch_balanced: "balanced [] (test_ivr_branch_twiml digits)"
proof -
  have "test_ivr_branch_twiml digits = test_ivr_branch_twiml (if digits = ''0'' \<or> digits = ''2'' then ''2'' else [])"
    by (simp add: test_ivr_branch_twiml_def Let_def)
  moreover have "balanced [] (test_ivr_branch_twiml ''2'')" "balanced [] (test_ivr_branch_twiml [])"
    by code_simp+
  ultimately show ?thesis by (simp del: balanced.simps split: if_splits)
qed

lemma holdmusic_balanced:
  assumes "plain base" shows "balanced [] (holdmusic_test_twiml base)"
proof -
  have "holdmusic_test_twiml base = xml_prolog @ mark ''Response'' @ mark ''Start''
     @ mark (''Stream url='' @ quoted (media_ws_url base) @ '' track='' @ quoted ''outbound_track'' @ ''/'')
     @ mark ''/Start'' @ play ''6'' @ mark ''/Response''"
    by (simp add: holdmusic_test_twiml_def mark_def)
  then show ?thesis
    by (simp only: balanced_prolog)
      (simp add: plain_media_url assms balanced_mark balanced_last element_balanced tag_name_def quoted_def quote_mark_def)
qed

lemma press_digits_balanced:
  assumes "plain url" shows "balanced [] (press_digits_twiml digits url)"
proof -
  have "plain (press_keys digits)" by (auto simp: plain_def press_keys_def)
  moreover have "press_digits_twiml digits url = xml_prolog @ mark ''Response''
     @ mark (''Play digits='' @ quoted (''w'' @ press_keys digits) @ ''/'') @ mark (''Pause length='' @ quoted ''1'' @ ''/'')
     @ mark ''Redirect'' @ url @ mark ''/Redirect'' @ mark ''/Response''"
    by (simp add: press_digits_twiml_def mark_def quoted_def)
  ultimately show ?thesis
    by (simp only: balanced_prolog)
      (simp add: assms balanced_mark balanced_last balanced_text tag_name_def quoted_def quote_mark_def)
qed

text \<open>
  Every document Twilio is given is well-formed markup: each tag is closed, in order, and no
  bracket stands alone. For the two production routes and the branch of the test menu this holds
  whatever the settings and the request contain; the keypress document and the two other development
  documents take a URL as it is, which must be free of brackets.
\<close>

theorem route_documents_balanced:
  assumes "plain base"
  shows "balanced [] (voice_twiml url gid) \<and> balanced [] (join_twiml intro url gid)
    \<and> balanced [] (test_ivr_branch_twiml digits) \<and> balanced [] (test_ivr_twiml base)
    \<and> balanced [] (holdmusic_test_twiml base) \<and> balanced [] (press_digits_twiml keys base)"
  using branch_balanced press_digits_balanced [OF assms] test_ivr_balanced [OF assms] holdmusic_balanced [OF assms]
  by (simp add: voice_twiml_def join_twiml_def stream_document_balanced)

theorem route_documents_balanced_witness:
  "balanced [] (test_ivr_twiml ''https://x.ngrok.app'') \<and> balanced [] (join_twiml join_intro ''a<b'' ''g'')"
  using route_documents_balanced [of "''https://x.ngrok.app''" "''a<b''" "''g''" join_intro "''''"] by simp
end
