(* ===== verification/Resample.thy ===== *)
theory Resample
  imports Audio
begin

text \<open>
  \<open>resample\<close> of \<open>telephony/audio.py\<close>: linear interpolation at evenly spaced points. \<open>None\<close> is the
  \<open>ZeroDivisionError\<close> of a source rate of zero.
\<close>

text \<open>\<open>np.interp(x, np.arange(len(ys)), ys)\<close> for \<open>x\<close> not negative and \<open>ys\<close> not empty.\<close>

definition interp :: "real list \<Rightarrow> real \<Rightarrow> real" where
  "interp ys x = (let i = nat \<lfloor>x\<rfloor> in
     if i + 1 < length ys then ys ! i + (ys ! (i + 1) - ys ! i) * (x - of_nat i) else last ys)"

definition resampled_length :: "nat \<Rightarrow> nat \<Rightarrow> nat \<Rightarrow> nat" where
  "resampled_length n src dst = nat (round_half_even (of_nat (n * dst) / of_nat src))"

definition resample :: "sample list \<Rightarrow> nat \<Rightarrow> nat \<Rightarrow> sample list option" where
  "resample xs src dst =
     (if src = dst \<or> xs = [] then Some xs
      else if src = 0 then None
      else
        let n = resampled_length (length xs) src dst;
            ys = map (\<lambda>s. of_int (sint s)) xs
        in Some (map (\<lambda>i. word_of_int (py_int (interp ys (linspace 0 (of_nat (length xs - 1)) n i)))) [0..<n]))"

section \<open>Lemmas\<close>

lemma linspace_range:
  assumes "i < n" "0 \<le> b" shows "0 \<le> linspace 0 b n i" "linspace 0 b n i \<le> b"
proof -
  have "of_nat i * b \<le> of_nat (n - 1) * b" using assms by (intro mult_right_mono) simp_all
  then show "linspace 0 b n i \<le> b" using assms by (auto simp: linspace_def field_simps)
  show "0 \<le> linspace 0 b n i" using assms by (auto simp: linspace_def)
qed

lemma between:
  fixes u v t :: real
  assumes "lo \<le> u" "lo \<le> v" "u \<le> hi" "v \<le> hi" "0 \<le> t" "t \<le> 1"
  shows "lo \<le> u + (v - u) * t" "u + (v - u) * t \<le> hi"
proof -
  have e: "u + (v - u) * t = (1 - t) * u + t * v" by (simp add: algebra_simps)
  have "(1 - t) * lo + t * lo \<le> (1 - t) * u + t * v" using assms by (intro add_mono mult_left_mono) simp_all
  then show "lo \<le> u + (v - u) * t" unfolding e by (simp add: algebra_simps)
  have "(1 - t) * u + t * v \<le> (1 - t) * hi + t * hi" using assms by (intro add_mono mult_left_mono) simp_all
  then show "u + (v - u) * t \<le> hi" unfolding e by (simp add: algebra_simps)
qed

lemma interp_between:
  assumes "ys \<noteq> []" "\<And>y. y \<in> set ys \<Longrightarrow> lo \<le> y \<and> y \<le> hi" "0 \<le> x"
  shows "lo \<le> interp ys x" "interp ys x \<le> hi"
proof -
  have t: "0 \<le> x - of_nat (nat \<lfloor>x\<rfloor>)" "x - of_nat (nat \<lfloor>x\<rfloor>) \<le> 1"
    using assms(3) by linarith+
  have "lo \<le> interp ys x \<and> interp ys x \<le> hi"
  proof (cases "nat \<lfloor>x\<rfloor> + 1 < length ys")
    case True
    then have "lo \<le> ys ! nat \<lfloor>x\<rfloor> \<and> ys ! nat \<lfloor>x\<rfloor> \<le> hi" "lo \<le> ys ! (nat \<lfloor>x\<rfloor> + 1) \<and> ys ! (nat \<lfloor>x\<rfloor> + 1) \<le> hi"
      using assms(2) nth_mem by simp_all
    with between [of lo "ys ! nat \<lfloor>x\<rfloor>" "ys ! (nat \<lfloor>x\<rfloor> + 1)" hi] t True show ?thesis
      by (simp add: interp_def Let_def)
  next
    case False
    with assms(1,2) last_in_set [OF assms(1)] show ?thesis by (simp add: interp_def Let_def)
  qed
  then show "lo \<le> interp ys x" "interp ys x \<le> hi" by simp_all
qed

lemma py_int_between:
  "of_int lo \<le> x \<Longrightarrow> x \<le> of_int hi \<Longrightarrow> lo \<le> py_int x \<and> py_int x \<le> hi"
  by (auto simp: py_int_def) linarith+

text \<open>
  Resampling neither clips nor overshoots: at rates that differ, every output sample lies between
  the least and the greatest input sample, so the cast to int16 wraps nothing, and there are
  \<open>round(len * dst / src)\<close> of them.
\<close>

theorem resample_stays_in_range:
  assumes "resample xs src dst = Some zs" "src \<noteq> dst" "xs \<noteq> []"
    "\<And>x. x \<in> set xs \<Longrightarrow> lo \<le> sint x \<and> sint x \<le> hi" "- 32768 \<le> lo" "hi \<le> 32767"
  shows "length zs = resampled_length (length xs) src dst \<and> (\<forall>z\<in>set zs. lo \<le> sint z \<and> sint z \<le> hi)"
proof -
  let ?n = "resampled_length (length xs) src dst" and ?ys = "map (\<lambda>s. real_of_int (sint s)) xs"
  let ?at = "\<lambda>i. interp ?ys (linspace 0 (of_nat (length xs - 1)) ?n i)"
  have zs: "zs = map (\<lambda>i. word_of_int (py_int (?at i))) [0..<?n]"
    using assms(1,2,3) by (simp add: resample_def Let_def split: if_splits)
  have "lo \<le> py_int (?at i) \<and> py_int (?at i) \<le> hi" if "i < ?n" for i
  proof (rule py_int_between)
    have "of_int lo \<le> y \<and> y \<le> of_int hi" if "y \<in> set ?ys" for y
      using that assms(4) by (auto simp del: of_int_sint)
    then show "of_int lo \<le> ?at i" "?at i \<le> of_int hi"
      using interp_between [of ?ys "of_int lo" "of_int hi"] linspace_range [OF that] assms(3) by simp_all
  qed
  moreover have "sint (word_of_int k :: sample) = k" if "lo \<le> k" "k \<le> hi" for k
    using that assms(5,6) by (simp add: sint_sbintrunc' signed_take_bit_int_eq_self)
  ultimately show ?thesis by (auto simp: zs)
qed

theorem resample_stays_in_range_witness:
  "\<exists>zs. resample [0, 1000] 8000 24000 = Some zs \<and> length zs = 6 \<and> (\<forall>z\<in>set zs. 0 \<le> sint z)"
proof -
  have n: "resampled_length (Suc (Suc 0)) 8000 24000 = 6"
    by (simp add: resampled_length_def round_half_even_def Let_def)
  have "resample [0, 1000] 8000 24000 \<noteq> None" by (simp add: resample_def Let_def)
  then obtain zs where zs: "resample [0, 1000] 8000 24000 = Some zs" by blast
  have "0 \<le> sint x \<and> sint x \<le> 1000" if "x \<in> set [0, 1000 :: sample]" for x
    using that by auto
  from resample_stays_in_range [OF zs _ _ this] zs n show ?thesis by simp
qed

end
