(* ===== verification/Telemetry.thy ===== *)
theory Telemetry
  imports Events "HOL-Library.Sublist"
begin

text \<open>
  \<open>telemetry/sqs_sink.py\<close>: the bounded producer queue in front of SQS and its pump thread.
  Operations of the two threads interleave at the granularity of one \<open>emit\<close> and one pump
  round (\<open>_next_batch\<close> followed by \<open>_send\<close>); the queue itself is Python's thread-safe one.
  A serialised event is the JSON value it denotes (\<open>msg_body\<close>), and an entry id \<open>str(i)\<close> is the
  number \<open>i\<close>. The SQS client (boto3, not in the repository) is a parameter: a function from
  the entries to the list of failed ids, or to \<open>None\<close> when the call raises an exception.
\<close>

section \<open>Serialised JSON\<close>

datatype msg_body = JsonText Json | NotJson string

definition json_dumps :: "Json \<Rightarrow> msg_body" where
  "json_dumps j = JsonText j"

fun json_loads :: "msg_body \<Rightarrow> Json option" where
  "json_loads (JsonText j) = Some j"
| "json_loads (NotJson _) = None"

lemma loads_dumps [simp]: "json_loads (json_dumps j) = Some j"
  by (simp add: json_dumps_def)

section \<open>The sink\<close>

definition SQS_BATCH_MAX :: int where
  "SQS_BATCH_MAX = 10"

record SqsSink =
  max_queue :: int
  batch_size :: int
  send_retries :: nat
  queued :: "msg_body list"
  dropped_overflow :: nat
  dropped_send :: int
  sent :: int

definition new_SqsSink :: "int \<Rightarrow> int \<Rightarrow> nat \<Rightarrow> SqsSink" where
  "new_SqsSink maxq batch retries = \<lparr>
     max_queue = maxq,
     batch_size = min batch SQS_BATCH_MAX,
     send_retries = retries,
     queued = [],
     dropped_overflow = 0,
     dropped_send = 0,
     sent = 0\<rparr>"

text \<open>\<open>queue.Queue(maxsize)\<close>: a size of zero or less means no bound.\<close>

definition q_full :: "SqsSink \<Rightarrow> bool" where
  "q_full s \<longleftrightarrow> 0 < max_queue s \<and> max_queue s \<le> int (length (queued s))"

definition sqs_emit :: "Event \<Rightarrow> SqsSink \<Rightarrow> SqsSink" where
  "sqs_emit e s =
     (let body = json_dumps (payload e)
      in if q_full s then s\<lparr>dropped_overflow := dropped_overflow s + 1\<rparr>
         else s\<lparr>queued := queued s @ [body]\<rparr>)"

text \<open>The inner \<open>while\<close> of \<open>_next_batch\<close>.\<close>

fun fill_batch :: "int \<Rightarrow> msg_body list \<Rightarrow> msg_body list \<Rightarrow> msg_body list \<times> msg_body list" where
  "fill_batch limit out [] = (out, [])"
| "fill_batch limit out (b # rest) =
     (if int (length out) < limit then fill_batch limit (out @ [b]) rest else (out, b # rest))"

definition next_batch :: "SqsSink \<Rightarrow> msg_body list \<times> SqsSink" where
  "next_batch s = (case queued s of
       [] \<Rightarrow> ([], s)
     | b # rest \<Rightarrow>
         let (out, left) = fill_batch (batch_size s) [b] rest in (out, s\<lparr>queued := left\<rparr>))"

type_synonym entry = "nat \<times> msg_body"
type_synonym 'w sqs_client = "entry list \<Rightarrow> 'w \<Rightarrow> nat list option \<times> 'w"

fun send_attempts ::
  "'w sqs_client \<Rightarrow> nat \<Rightarrow> entry list \<Rightarrow> SqsSink \<times> 'w \<Rightarrow> SqsSink \<times> 'w" where
  "send_attempts client 0 entries (s, w) =
     (s\<lparr>dropped_send := dropped_send s + int (length entries)\<rparr>, w)"
| "send_attempts client (Suc n) entries (s, w) =
     (case client entries w of
        (None, w') \<Rightarrow> send_attempts client n entries (s, w')
      | (Some fids, w') \<Rightarrow>
          let failed_ids = set fids;
              s' = s\<lparr>sent := sent s + int (length entries) - int (card failed_ids)\<rparr>
          in if failed_ids = {} then (s', w')
             else send_attempts client n (filter (\<lambda>e. fst e \<in> failed_ids) entries) (s', w'))"

definition send :: "'w sqs_client \<Rightarrow> msg_body list \<Rightarrow> SqsSink \<times> 'w \<Rightarrow> SqsSink \<times> 'w" where
  "send client bodies st = send_attempts client (send_retries (fst st)) (enumerate 0 bodies) st"

text \<open>One round of the pump thread; the bodies it took are returned for reference.\<close>

definition pump_round :: "'w sqs_client \<Rightarrow> SqsSink \<times> 'w \<Rightarrow> msg_body list \<times> (SqsSink \<times> 'w)" where
  "pump_round client st =
     (let (batch, s') = next_batch (fst st)
      in (batch, if batch \<noteq> [] then send client batch (s', snd st) else (s', snd st)))"

section \<open>Batches\<close>

lemma fill_batch_spec:
  assumes "fill_batch limit out rest = (out', left)"
  shows "out' @ left = out @ rest" "int (length out') \<le> max (int (length out)) limit" "length out \<le> length out'"
  using assms by (induction limit out rest rule: fill_batch.induct) (auto split: if_splits)

lemma next_batch_spec:
  assumes "next_batch s = (out, s')"
  shows "queued s = out @ queued s'" "int (length out) \<le> max 1 (batch_size s)" "out = [] \<longleftrightarrow> queued s = []"
    "s' = s\<lparr>queued := queued s'\<rparr>"
proof -
  show "queued s = out @ queued s'" "int (length out) \<le> max 1 (batch_size s)" "out = [] \<longleftrightarrow> queued s = []"
      "s' = s\<lparr>queued := queued s'\<rparr>"
    using assms fill_batch_spec [of "batch_size s" "[hd (queued s)]" "tl (queued s)"]
    by (auto simp: next_batch_def split: list.splits prod.splits)
qed

section \<open>Every event is accounted for\<close>

text \<open>What SQS documents: the failed ids of a response are ids of the request.\<close>

definition honest_client :: "'w sqs_client \<Rightarrow> bool" where
  "honest_client client \<longleftrightarrow>
     (\<forall>es w fids w'. client es w = (Some fids, w') \<longrightarrow> set fids \<subseteq> fst ` set es)"

lemma send_attempts_q: "queued (fst (send_attempts client n entries st)) = queued (fst st)
    \<and> dropped_overflow (fst (send_attempts client n entries st)) = dropped_overflow (fst st)
    \<and> max_queue (fst (send_attempts client n entries st)) = max_queue (fst st)
    \<and> batch_size (fst (send_attempts client n entries st)) = batch_size (fst st)
    \<and> send_retries (fst (send_attempts client n entries st)) = send_retries (fst st)"
  by (induction client n entries st rule: send_attempts.induct)
    (simp_all add: Let_def split: prod.split option.split)

lemma filter_ids_card:
  assumes "distinct (map fst es)" "A \<subseteq> fst ` set es"
  shows "length (filter (\<lambda>e. fst e \<in> A) es) = card A"
proof -
  have "distinct (map fst (filter (\<lambda>e. fst e \<in> A) es))"
    using assms(1) by (simp add: distinct_map_filter)
  then have "length (filter (\<lambda>e. fst e \<in> A) es) = card (fst ` set (filter (\<lambda>e. fst e \<in> A) es))"
    by (metis distinct_card length_map list.set_map)
  moreover have "fst ` set (filter (\<lambda>e. fst e \<in> A) es) = A" using assms(2) by auto
  ultimately show ?thesis by simp
qed

lemma send_attempts_conserves:
  assumes "honest_client client" "distinct (map fst es)"
    "send_attempts client n es (s, w) = (s', w')"
  shows "sent s' + dropped_send s' = sent s + dropped_send s + int (length es)"
  using assms(2,3)
proof (induction n arbitrary: es s w)
  case (Suc n)
  obtain r w1 where c: "client es w = (r, w1)" by fastforce
  show ?case
  proof (cases r)
    case None
    with Suc.IH [OF Suc.prems(1)] Suc.prems(2) c show ?thesis by simp
  next
    case (Some fids)
    let ?s1 = "s\<lparr>sent := sent s + int (length es) - int (card (set fids))\<rparr>"
    have sub: "set fids \<subseteq> fst ` set es"
      using assms(1) c Some unfolding honest_client_def by blast
    show ?thesis
    proof (cases "set fids = {}")
      case True
      with Suc.prems(2) c Some show ?thesis by auto
    next
      case False
      let ?es = "filter (\<lambda>e. fst e \<in> set fids) es"
      have d: "distinct (map fst ?es)"
        using Suc.prems(1) by (simp add: distinct_map_filter)
      have run: "send_attempts client n ?es (?s1, w1) = (s', w')"
        using Suc.prems(2) c Some False by (simp add: Let_def)
      from Suc.IH [OF d run] filter_ids_card [OF Suc.prems(1) sub] show ?thesis by simp
    qed
  qed
qed auto

lemma send_conserves:
  assumes "honest_client client" "send client bodies (s, w) = (s', w')"
  shows "sent s' + dropped_send s' = sent s + dropped_send s + int (length bodies)"
  using send_attempts_conserves [OF assms(1), of "enumerate 0 bodies" "send_retries s" s w s' w'] assms(2)
  by (simp add: send_def)

section \<open>Runs of the sink\<close>

datatype sink_op = EmitEvent Event | PumpRound

text \<open>The batches handed to \<open>_send\<close> along a run are collected, newest last.\<close>

fun sink_run ::
  "'w sqs_client \<Rightarrow> sink_op list \<Rightarrow> msg_body list list \<times> (SqsSink \<times> 'w) \<Rightarrow>
   msg_body list list \<times> (SqsSink \<times> 'w)" where
  "sink_run client [] st = st"
| "sink_run client (EmitEvent e # ops) (bs, (s, w)) = sink_run client ops (bs, (sqs_emit e s, w))"
| "sink_run client (PumpRound # ops) (bs, st) =
     (let (batch, st') = pump_round client st
      in sink_run client ops (if batch \<noteq> [] then bs @ [batch] else bs, st'))"

fun emitted :: "sink_op list \<Rightarrow> Event list" where
  "emitted [] = []"
| "emitted (EmitEvent e # ops) = e # emitted ops"
| "emitted (PumpRound # ops) = emitted ops"

definition accounted :: "SqsSink \<Rightarrow> int" where
  "accounted s = sent s + dropped_send s + int (dropped_overflow s) + int (length (queued s))"

lemma emit_accounted: "accounted (sqs_emit e s) = accounted s + 1"
  by (simp add: accounted_def sqs_emit_def Let_def)

lemma pump_accounted:
  assumes "honest_client client" "pump_round client (s, w) = (batch, (s', w'))"
  shows "accounted s' = accounted s"
proof -
  obtain out s1 where nb: "next_batch s = (out, s1)" by fastforce
  note N = next_batch_spec [OF nb]
  have frame: "sent s1 = sent s" "dropped_send s1 = dropped_send s"
      "dropped_overflow s1 = dropped_overflow s" by (subst N(4), simp)+
  show ?thesis
  proof (cases "out = []")
    case True
    with assms(2) nb N frame show ?thesis by (auto simp: pump_round_def accounted_def)
  next
    case False
    then have snd: "send client out (s1, w) = (s', w')"
      using assms(2) nb by (auto simp: pump_round_def)
    moreover have "queued s' = queued s1" "dropped_overflow s' = dropped_overflow s1"
      using snd send_attempts_q [of client "send_retries s1" "enumerate 0 out" "(s1, w)"]
      by (simp_all add: send_def)
    ultimately show ?thesis
      using send_conserves [OF assms(1)] N(1) frame by (simp add: accounted_def)
  qed
qed

lemma sink_run_accounted:
  assumes "honest_client client" "sink_run client ops (bs, (s, w)) = (bs', (s', w'))"
  shows "accounted s' = accounted s + int (length (emitted ops))"
  using assms(2)
proof (induction ops arbitrary: bs s w)
  case (Cons x ops)
  show ?case
  proof (cases x)
    case (EmitEvent e)
    with Cons show ?thesis by (simp add: emit_accounted)
  next
    case PumpRound
    obtain batch s1 w1 where p: "pump_round client (s, w) = (batch, (s1, w1))" by (metis prod.exhaust)
    with Cons PumpRound pump_accounted [OF assms(1) p] show ?thesis by simp
  qed
qed simp

text \<open>
  [C19] No telemetry event is lost without being counted: after any interleaving of emits
  and pump rounds, with the network failing wholly or in part at will, the events emitted are
  exactly the ones sent, dropped for overflow, dropped after the retries, or still queued.
\<close>

theorem every_event_accounted_for:
  assumes "honest_client client"
    and "sink_run client ops ([], (new_SqsSink maxq batch retries, w)) = (bs, (s, w'))"
  shows "int (length (emitted ops)) =
    sent s + dropped_send s + int (dropped_overflow s) + int (length (queued s))"
  using sink_run_accounted [OF assms] by (simp add: accounted_def new_SqsSink_def)

text \<open>A client that fails the second entry of every request.\<close>

definition half_client :: "unit sqs_client" where
  "half_client es w = (Some (map fst (take 1 (drop 1 es))), w)"

lemma half_client_honest: "honest_client half_client"
  by (auto simp: honest_client_def half_client_def dest!: in_set_takeD in_set_dropD)

theorem every_event_accounted_for_witness:
  "\<exists>bs s w. sink_run half_client [EmitEvent (HumanDetected ''c'' 0), EmitEvent (BridgeStarted ''c'' 1),
       EmitEvent (HumanDetected ''d'' 2), PumpRound] ([], (new_SqsSink 2 10 3, ())) = (bs, (s, w))
     \<and> sent s = 2 \<and> dropped_overflow s = 1 \<and> dropped_send s = 0 \<and> queued s = []"
proof -
  have run: "sink_run half_client [EmitEvent (HumanDetected ''c'' 0), EmitEvent (BridgeStarted ''c'' 1),
       EmitEvent (HumanDetected ''d'' 2), PumpRound] ([], (new_SqsSink 2 10 3, ())) =
     ([[JsonText (payload (HumanDetected ''c'' 0)), JsonText (payload (BridgeStarted ''c'' 1))]],
      (\<lparr>max_queue = 2, batch_size = 10, send_retries = 3, queued = [], dropped_overflow = 1,
        dropped_send = 0, sent = 2\<rparr>, ()))"
    by (simp add: sqs_emit_def q_full_def new_SqsSink_def SQS_BATCH_MAX_def pump_round_def next_batch_def
        send_def half_client_def json_dumps_def Let_def numeral_eq_Suc)
  show ?thesis
    using every_event_accounted_for [OF half_client_honest run] run by simp
qed

lemma pump_round_spec:
  assumes "pump_round client (s, w) = (batch, (s', w'))"
  shows "queued s = batch @ queued s'" "int (length batch) \<le> max 1 (batch_size s)"
    "batch_size s' = batch_size s" "max_queue s' = max_queue s"
proof -
  obtain out s1 where nb: "next_batch s = (out, s1)" by fastforce
  note N = next_batch_spec [OF nb]
  have frame: "batch_size s1 = batch_size s" "max_queue s1 = max_queue s" by (subst N(4), simp)+
  have b: "batch = out" using assms nb by (auto simp: pump_round_def split: if_splits)
  have "queued s' = queued s1 \<and> batch_size s' = batch_size s1 \<and> max_queue s' = max_queue s1"
  proof (cases "out = []")
    case False
    then have "s' = fst (send client out (s1, w))"
      using assms nb by (auto simp: pump_round_def)
    then show ?thesis by (simp add: send_def send_attempts_q)
  qed (use assms nb in \<open>auto simp: pump_round_def\<close>)
  with N b frame show "queued s = batch @ queued s'" "int (length batch) \<le> max 1 (batch_size s)"
      "batch_size s' = batch_size s" "max_queue s' = max_queue s" by simp_all
qed

definition serialised :: "Event \<Rightarrow> msg_body" where
  "serialised e = json_dumps (payload e)"

lemma sink_run_order:
  assumes "sink_run client ops (bs, (s, w)) = (bs', (s', w'))"
    and "\<forall>b\<in>set bs. 1 \<le> length b \<and> length b \<le> 10" "batch_size s \<le> 10"
  shows "\<exists>kept. concat bs' @ queued s' = concat bs @ queued s @ map serialised kept
      \<and> subseq kept (emitted ops) \<and> (\<forall>b\<in>set bs'. 1 \<le> length b \<and> length b \<le> 10)
      \<and> (max_queue s \<le> 0 \<longrightarrow> kept = emitted ops)"
  using assms
proof (induction ops arbitrary: bs s w)
  case Nil
  then show ?case by (intro exI [of _ "[]"]) auto
next
  case (Cons x ops)
  show ?case
  proof (cases x)
    case (EmitEvent e)
    let ?s = "sqs_emit e s"
    have p: "max_queue ?s = max_queue s" "batch_size ?s = batch_size s"
      by (simp_all add: sqs_emit_def Let_def)
    from Cons.IH [of bs ?s w] Cons.prems EmitEvent p obtain kept where kept:
      "concat bs' @ queued s' = concat bs @ queued ?s @ map serialised kept"
      "subseq kept (emitted ops)" "\<forall>b\<in>set bs'. 1 \<le> length b \<and> length b \<le> 10"
      "max_queue s \<le> 0 \<longrightarrow> kept = emitted ops" by auto
    show ?thesis
    proof (cases "q_full s")
      case True
      then have "queued ?s = queued s" "0 < max_queue s" by (simp_all add: sqs_emit_def q_full_def)
      with kept EmitEvent show ?thesis by (intro exI [of _ kept]) auto
    next
      case False
      then have "queued ?s = queued s @ [json_dumps (payload e)]" by (simp add: sqs_emit_def)
      with kept EmitEvent show ?thesis by (intro exI [of _ "e # kept"]) (simp add: serialised_def)
    qed
  next
    case PumpRound
    obtain batch s1 w1 where pr: "pump_round client (s, w) = (batch, (s1, w1))" by (metis prod.exhaust)
    note P = pump_round_spec [OF pr]
    let ?bs = "if batch \<noteq> [] then bs @ [batch] else bs"
    have "length batch \<le> 10" using P(2) Cons.prems(3) by linarith
    then have ok: "\<forall>b\<in>set ?bs. 1 \<le> length b \<and> length b \<le> 10"
      using Cons.prems(2) by (cases batch) auto
    have "sink_run client ops (?bs, (s1, w1)) = (bs', (s', w'))"
      using Cons.prems(1) PumpRound pr by simp
    from Cons.IH [OF this ok] P Cons.prems(3) obtain kept where kept:
      "concat bs' @ queued s' = concat ?bs @ queued s1 @ map serialised kept"
      "subseq kept (emitted ops)" "\<forall>b\<in>set bs'. 1 \<le> length b \<and> length b \<le> 10"
      "max_queue s \<le> 0 \<longrightarrow> kept = emitted ops" by auto
    moreover have "concat ?bs @ queued s1 = concat bs @ queued s" using P(1) by simp
    ultimately show ?thesis using PumpRound by (intro exI [of _ kept]) (simp add: append_assoc [symmetric] del: append_assoc)
  qed
qed

text \<open>
  The producer keeps the order: the batches handed to the network, followed by what is
  still queued, are the emitted events in order, less the ones dropped for overflow (none
  when the queue is unbounded); every batch holds between one and ten messages, the limit of
  \<open>SendMessageBatch\<close>, whatever batch size was configured.
\<close>

theorem batches_keep_order_and_size:
  assumes "sink_run client ops ([], (new_SqsSink maxq batch retries, w)) = (bs, (s, w'))"
  shows "\<exists>kept. concat bs @ queued s = map serialised kept \<and> subseq kept (emitted ops)
    \<and> (maxq \<le> 0 \<longrightarrow> kept = emitted ops) \<and> (\<forall>b\<in>set bs. 1 \<le> length b \<and> length b \<le> 10)"
proof -
  have "batch_size (new_SqsSink maxq batch retries) \<le> 10"
    by (simp add: new_SqsSink_def SQS_BATCH_MAX_def)
  from sink_run_order [OF assms _ this] show ?thesis by (simp add: new_SqsSink_def) blast
qed

theorem batches_keep_order_and_size_witness:
  "\<exists>bs s w. sink_run half_client (replicate 3 (EmitEvent (HumanDetected ''c'' 0)) @ [PumpRound])
       ([], (new_SqsSink 0 2 0, ())) = (bs, (s, w))
     \<and> length (concat bs @ queued s) = 3 \<and> (\<forall>b\<in>set bs. length b \<le> 10)"
proof -
  let ?ops = "replicate 3 (EmitEvent (HumanDetected ''c'' 0)) @ [PumpRound]"
  obtain bs s w where run: "sink_run half_client ?ops ([], (new_SqsSink 0 2 0, ())) = (bs, (s, w))"
    by (metis prod.exhaust)
  from batches_keep_order_and_size [OF run] obtain kept where
    k: "concat bs @ queued s = map serialised kept" "kept = emitted ?ops"
      "\<forall>b\<in>set bs. 1 \<le> length b \<and> length b \<le> 10" by auto
  have "length (concat bs @ queued s) = 3" unfolding k(1,2) by (simp add: numeral_eq_Suc)
  with run k(3) show ?thesis by blast
qed

end
