(* ===== verification/Sink_Life.thy ===== *)
theory Sink_Life
  imports Telemetry
begin

text \<open>
  The life of an \<open>SqsSink\<close> (\<open>telemetry/sqs_sink.py\<close>): the two loops of its pump thread, the flag
  \<open>close\<close> sets, and the time the thread sleeps between the attempts of \<open>_send\<close>. Emits, \<open>close\<close> and
  the turns of the pump interleave freely; a turn is one iteration of a loop of \<open>_run\<close>. A blocking
  \<open>get\<close> that times out is a turn that finds the queue empty. What the network calls themselves take
  is not counted, only the sleeping.
\<close>

section \<open>The pump thread\<close>

definition pause_after :: "nat \<Rightarrow> real" where
  "pause_after attempt = min 2 (25 / 100 * of_nat attempt)"

fun send_pauses :: "'w sqs_client \<Rightarrow> nat \<Rightarrow> nat \<Rightarrow> entry list \<Rightarrow> 'w \<Rightarrow> real" where
  "send_pauses client attempt 0 entries w = 0"
| "send_pauses client attempt (Suc n) entries w =
     (case client entries w of
        (None, w') \<Rightarrow> pause_after attempt + send_pauses client (attempt + 1) n entries w'
      | (Some fids, w') \<Rightarrow>
          if set fids = {} then 0
          else pause_after attempt
            + send_pauses client (attempt + 1) n (filter (\<lambda>e. fst e \<in> set fids) entries) w')"

datatype PumpAt = Pumping | Draining | Exited

record 'w Pump =
  sink_of :: SqsSink
  network :: 'w
  stop_set :: bool
  pump_at :: PumpAt
  slept :: real

definition start_Pump :: "SqsSink \<Rightarrow> 'w \<Rightarrow> 'w Pump" where
  "start_Pump s w = \<lparr>sink_of = s, network = w, stop_set = False, pump_at = Pumping, slept = 0\<rparr>"

text \<open>The body both loops share: take a batch and send it unless it is empty.\<close>

definition take_and_send :: "'w sqs_client \<Rightarrow> 'w Pump \<Rightarrow> msg_body list \<times> 'w Pump" where
  "take_and_send client p =
     (let (batch, (s, w)) = pump_round client (sink_of p, network p)
      in (batch, p\<lparr>sink_of := s, network := w,
            slept := slept p + send_pauses client 1 (send_retries (sink_of p)) (enumerate 0 batch) (network p)\<rparr>))"

definition pump_turn :: "'w sqs_client \<Rightarrow> 'w Pump \<Rightarrow> 'w Pump" where
  "pump_turn client p = (case pump_at p of
       Pumping \<Rightarrow> if stop_set p then p\<lparr>pump_at := Draining\<rparr> else snd (take_and_send client p)
     | Draining \<Rightarrow> (let (batch, p') = take_and_send client p
                    in if batch = [] then p'\<lparr>pump_at := Exited\<rparr> else p')
     | Exited \<Rightarrow> p)"

text \<open>What \<open>close\<close> does before it waits for the thread, and how long it waits at most.\<close>

definition close_sink :: "'w Pump \<Rightarrow> 'w Pump" where
  "close_sink p = p\<lparr>stop_set := True\<rparr>"

definition JOIN_TIMEOUT :: real where
  "JOIN_TIMEOUT = 3"

datatype life_op = Emit Event | Close | Turn

fun life_step :: "'w sqs_client \<Rightarrow> 'w Pump \<Rightarrow> life_op \<Rightarrow> 'w Pump" where
  "life_step client p (Emit e) = p\<lparr>sink_of := sqs_emit e (sink_of p)\<rparr>"
| "life_step client p Close = close_sink p"
| "life_step client p Turn = pump_turn client p"

definition life_run :: "'w sqs_client \<Rightarrow> 'w Pump \<Rightarrow> life_op list \<Rightarrow> 'w Pump" where
  "life_run client = foldl (life_step client)"

definition emits :: "life_op list \<Rightarrow> nat" where
  "emits ops = length (filter (\<lambda>x. case x of Emit _ \<Rightarrow> True | _ \<Rightarrow> False) ops)"

section \<open>Turns\<close>

lemma take_and_send_spec:
  assumes "take_and_send client p = (batch, p')"
  shows "queued (sink_of p) = batch @ queued (sink_of p')" "batch = [] \<longleftrightarrow> queued (sink_of p) = []"
    "pump_at p' = pump_at p" "stop_set p' = stop_set p"
    "honest_client client \<Longrightarrow> accounted (sink_of p') = accounted (sink_of p)"
proof -
  obtain s w where r: "pump_round client (sink_of p, network p) = (batch, (s, w))"
    and p': "sink_of p' = s" "pump_at p' = pump_at p" "stop_set p' = stop_set p"
    using assms by (auto simp: take_and_send_def Let_def split: prod.splits)
  show "queued (sink_of p) = batch @ queued (sink_of p')" "pump_at p' = pump_at p" "stop_set p' = stop_set p"
    using pump_round_spec(1) [OF r] p' by simp_all
  show "batch = [] \<longleftrightarrow> queued (sink_of p) = []"
    using r next_batch_spec(3) [of "sink_of p"]
    by (auto simp: pump_round_def Let_def split: prod.splits if_splits)
  show "honest_client client \<Longrightarrow> accounted (sink_of p') = accounted (sink_of p)"
    using pump_accounted [OF _ r] p'(1) by simp
qed

lemma turn_accounted:
  assumes "honest_client client" shows "accounted (sink_of (pump_turn client p)) = accounted (sink_of p)"
proof -
  obtain batch p' where t: "take_and_send client p = (batch, p')" by fastforce
  with take_and_send_spec(5) [OF t assms] show ?thesis by (simp add: pump_turn_def split: PumpAt.split)
qed

lemma turns_accounted:
  "honest_client client \<Longrightarrow> accounted (sink_of ((pump_turn client ^^ n) p)) = accounted (sink_of p)"
  by (induction n) (simp_all add: turn_accounted)

lemma exited_turn [simp]: "pump_at p = Exited \<Longrightarrow> pump_turn client p = p"
  by (simp add: pump_turn_def)

lemma exited_stays [simp]: "pump_at p = Exited \<Longrightarrow> (pump_turn client ^^ n) p = p"
  by (induction n) simp_all

text \<open>The pump's state after it was given enough turns to empty the queue and leave.\<close>

definition after_drain :: "'w sqs_client \<Rightarrow> 'w Pump \<Rightarrow> 'w Pump" where
  "after_drain client p = (pump_turn client ^^ (length (queued (sink_of p)) + 1)) p"

lemma drain_ends:
  "pump_at p = Draining \<Longrightarrow> pump_at (after_drain client p) = Exited \<and> queued (sink_of (after_drain client p)) = []"
proof (induction "length (queued (sink_of p))" arbitrary: p rule: less_induct)
  case less
  obtain batch p' where t: "take_and_send client p = (batch, p')" by fastforce
  note T = take_and_send_spec [OF t]
  show ?case
  proof (cases "batch = []")
    case True
    then have "pump_turn client p = p'\<lparr>pump_at := Exited\<rparr>" "queued (sink_of p) = []"
      using t T(2) less.prems by (simp_all add: pump_turn_def)
    then show ?thesis using T(1) True by (simp add: after_drain_def)
  next
    case False
    let ?k = "length (queued (sink_of p')) + 1"
    have turn: "pump_turn client p = p'" using t False less.prems by (simp add: pump_turn_def)
    have shorter: "length (queued (sink_of p')) < length (queued (sink_of p))" using T(1) False by (cases batch) auto
    then obtain d where d: "length (queued (sink_of p)) = d + ?k" by (metis add.commute le_iff_add Suc_eq_plus1 Suc_leI)
    have "after_drain client p = (pump_turn client ^^ d) (after_drain client p')"
      unfolding after_drain_def d by (simp add: funpow_add funpow_swap1 turn)
    then show ?thesis using less.hyps [OF shorter] T(3) less.prems by simp
  qed
qed

lemma life_accounted:
  assumes "honest_client client"
  shows "accounted (sink_of (life_run client p ops)) = accounted (sink_of p) + int (emits ops)"
proof (induction ops rule: rev_induct)
  case (snoc x ops)
  then show ?case using turn_accounted [OF assms] emit_accounted
    by (cases x) (simp_all add: life_run_def emits_def close_sink_def)
qed (simp add: life_run_def emits_def)

section \<open>Closing\<close>

lemma close_drains:
  fixes client :: "'w sqs_client" and p :: "'w Pump"
  assumes "pump_at p \<noteq> Exited"
  defines "q n \<equiv> (pump_turn client ^^ n) (close_sink p)"
  shows "pump_at (q (length (queued (sink_of p)) + 2)) = Exited" "queued (sink_of (q (length (queued (sink_of p)) + 2))) = []"
proof -
  have "pump_at (q (length (queued (sink_of p)) + 2)) = Exited \<and> queued (sink_of (q (length (queued (sink_of p)) + 2))) = []"
  proof (cases "pump_at p")
    case Pumping
    then have "pump_turn client (close_sink p) = (close_sink p)\<lparr>pump_at := Draining\<rparr>"
      by (simp add: pump_turn_def close_sink_def)
    then have "q (length (queued (sink_of p)) + 2) = after_drain client ((close_sink p)\<lparr>pump_at := Draining\<rparr>)"
      unfolding q_def after_drain_def by (simp add: close_sink_def funpow_swap1)
    then show ?thesis using drain_ends [of "(close_sink p)\<lparr>pump_at := Draining\<rparr>" client] by simp
  next
    case Draining
    then have at: "pump_at (close_sink p) = Draining" by (simp add: close_sink_def)
    have "q (length (queued (sink_of p)) + 2) = pump_turn client (after_drain client (close_sink p))"
      unfolding q_def after_drain_def by (simp add: close_sink_def)
    then show ?thesis using drain_ends [OF at, of client] by simp
  qed (use assms(1) in simp)
  then show "pump_at (q (length (queued (sink_of p)) + 2)) = Exited" "queued (sink_of (q (length (queued (sink_of p)) + 2))) = []"
    by simp_all
qed

text \<open>
  [C21] \<open>close\<close> flushes: whatever was emitted and however the network fails, once the stop flag is
  set the pump leaves its loops after at most two turns more than there are queued events, the
  queue is empty, and every event ever emitted has been sent, dropped after the retries, or
  dropped for overflow, and counted so.
\<close>

theorem close_flushes_the_queue:
  assumes "honest_client client"
    and "life_run client (start_Pump (new_SqsSink maxq batch retries) w) ops = p" "pump_at p \<noteq> Exited"
    and "q = (pump_turn client ^^ (length (queued (sink_of p)) + 2)) (close_sink p)"
  shows "pump_at q = Exited \<and> queued (sink_of q) = []
    \<and> int (emits ops) = sent (sink_of q) + dropped_send (sink_of q) + int (dropped_overflow (sink_of q))"
proof -
  have "accounted (sink_of q) = int (emits ops)"
    using life_accounted [OF assms(1), of "start_Pump (new_SqsSink maxq batch retries) w" ops] assms(2)
    unfolding assms(4) turns_accounted [OF assms(1)]
    by (simp add: close_sink_def start_Pump_def new_SqsSink_def accounted_def)
  with close_drains [OF assms(3), of client] show ?thesis unfolding assms(4) by (simp add: accounted_def)
qed

theorem close_flushes_the_queue_witness:
  "\<exists>p. life_run half_client (start_Pump (new_SqsSink 2 10 3) ())
       [Emit (HumanDetected ''c'' 0), Turn, Emit (BridgeStarted ''c'' 1), Emit (HumanDetected ''d'' 2)] = p
     \<and> length (queued (sink_of p)) = 2
     \<and> sent (sink_of ((pump_turn half_client ^^ 4) (close_sink p)))
       + dropped_send (sink_of ((pump_turn half_client ^^ 4) (close_sink p)))
       + int (dropped_overflow (sink_of ((pump_turn half_client ^^ 4) (close_sink p)))) = 3"
proof -
  let ?ops = "[Emit (HumanDetected ''c'' 0), Turn, Emit (BridgeStarted ''c'' 1), Emit (HumanDetected ''d'' 2)]"
  obtain p where p: "life_run half_client (start_Pump (new_SqsSink 2 10 3) ()) ?ops = p" by blast
  have at: "pump_at p = Pumping" "length (queued (sink_of p)) = 2" unfolding p [symmetric] by code_simp+
  then have "4 = length (queued (sink_of p)) + 2" by simp
  moreover have "emits ?ops = 3" by (simp add: emits_def)
  ultimately show ?thesis
    using close_flushes_the_queue [OF half_client_honest p _ refl] p at by (metis PumpAt.distinct(3) of_nat_numeral)
qed

text \<open>What is emitted after the pump has left stays in the queue: it is never sent nor dropped.\<close>

lemma late_events_stay:
  assumes "pump_at p = Exited"
  shows "pump_at (life_run client p ops) = Exited
    \<and> sent (sink_of (life_run client p ops)) = sent (sink_of p)
    \<and> dropped_send (sink_of (life_run client p ops)) = dropped_send (sink_of p)
    \<and> length (queued (sink_of p)) \<le> length (queued (sink_of (life_run client p ops)))"
proof (induction ops rule: rev_induct)
  case (snoc x ops)
  then show ?case
    by (cases x) (auto simp: life_run_def close_sink_def sqs_emit_def Let_def pump_turn_def)
qed (use assms in \<open>simp add: life_run_def\<close>)

section \<open>Closing on a dead network\<close>

definition dead_client :: "'w sqs_client" where
  "dead_client es w = (None, w)"

lemma fill_batch_take:
  "length out \<le> nat limit \<Longrightarrow> fill_batch limit out rest
     = (out @ take (nat limit - length out) rest, drop (nat limit - length out) rest)"
proof (induction limit out rest rule: fill_batch.induct)
  case (2 limit out b rest)
  show ?case
  proof (cases "length out < nat limit")
    case True
    then have "nat limit - length out = Suc (nat limit - Suc (length out))" by simp
    with 2 True show ?thesis by simp
  qed (use 2 in simp)
qed simp

lemma dead_attempts:
  "send_attempts dead_client n es (s, w) = (s\<lparr>dropped_send := dropped_send s + int (length es)\<rparr>, w)"
  by (induction n) (simp_all add: dead_client_def)

lemma dead_pauses: "send_pauses dead_client (Suc 0) 3 es w = 15 / 10"
  by (simp add: numeral_3_eq_3 dead_client_def pause_after_def)

lemma dead_turn:
  assumes "pump_at p = Draining" "batch_size (sink_of p) = 10" "send_retries (sink_of p) = 3" "10 \<le> length (queued (sink_of p))"
  shows "pump_turn dead_client p = p\<lparr>sink_of := (sink_of p)\<lparr>queued := drop 10 (queued (sink_of p)),
      dropped_send := dropped_send (sink_of p) + 10\<rparr>, slept := slept p + 15 / 10\<rparr>"
proof -
  obtain b rest where q: "queued (sink_of p) = b # rest" using assms(4) by (cases "queued (sink_of p)") auto
  have nb: "next_batch (sink_of p) = (take 10 (queued (sink_of p)), (sink_of p)\<lparr>queued := drop 10 (queued (sink_of p))\<rparr>)"
    using q assms(2) by (simp add: next_batch_def fill_batch_take numeral_eq_Suc)
  have "take 10 (queued (sink_of p)) \<noteq> []" using q by simp
  with assms nb show ?thesis
    by (simp add: pump_turn_def take_and_send_def pump_round_def send_def dead_attempts dead_pauses)
qed

text \<open>
  How far the flush of \<open>close\<close> gets when SQS is down: with the sink the application builds, two
  batches use up the three seconds it waits in sleeping alone. Whatever was queued behind them
  (up to 10000 events) is neither sent nor counted when \<open>close\<close> returns and the process ends.
\<close>

theorem close_gives_up_on_a_dead_network:
  assumes "pump_at p = Pumping" "batch_size (sink_of p) = 10" "send_retries (sink_of p) = 3" "20 \<le> length (queued (sink_of p))"
    and "q = (pump_turn dead_client ^^ 3) (close_sink p)"
  shows "slept q - slept p = JOIN_TIMEOUT \<and> queued (sink_of q) = drop 20 (queued (sink_of p))
    \<and> dropped_send (sink_of q) = dropped_send (sink_of p) + 20 \<and> sent (sink_of q) = sent (sink_of p)"
proof -
  have "pump_turn dead_client (close_sink p) = (close_sink p)\<lparr>pump_at := Draining\<rparr>"
    using assms(1) by (simp add: pump_turn_def close_sink_def)
  moreover have "q = pump_turn dead_client (pump_turn dead_client (pump_turn dead_client (close_sink p)))"
    unfolding assms(5) by (simp add: numeral_3_eq_3)
  ultimately show ?thesis
    using assms(2-4) by (simp add: dead_turn close_sink_def JOIN_TIMEOUT_def)
qed

theorem close_gives_up_on_a_dead_network_witness:
  "length (queued (sink_of ((pump_turn dead_client ^^ 3) (close_sink
     ((start_Pump (new_SqsSink 10000 10 3) ())\<lparr>sink_of := (new_SqsSink 10000 10 3)\<lparr>queued := replicate 25 (NotJson ''x'')\<rparr>\<rparr>))))) = 5"
  using close_gives_up_on_a_dead_network [of "(start_Pump (new_SqsSink 10000 10 3) ())\<lparr>sink_of :=
      (new_SqsSink 10000 10 3)\<lparr>queued := replicate 25 (NotJson ''x'')\<rparr>\<rparr>"]
  by (simp add: start_Pump_def new_SqsSink_def SQS_BATCH_MAX_def)

end
