(* ===== verification/Service.thy ===== *)
theory Service
  imports App Sink_Life Breaker
begin

text \<open>
  The process-wide services next to the calls: the telemetry sink \<open>main.py\<close> chooses, the breaker
  it builds, what its lifespan starts and stops, and the report of \<open>api/health.py\<close> on them.
\<close>

datatype TelemetrySink = LogSink | Sqs SqsSink

definition build_telemetry :: "Settings \<Rightarrow> TelemetrySink" where
  "build_telemetry sett = (if sqs_queue_url sett \<noteq> ''''
     then Sqs (new_SqsSink (telemetry_queue_maxsize sett) SQS_BATCH_MAX 3) else LogSink)"

definition build_breaker :: "Settings \<Rightarrow> CircuitBreaker" where
  "build_breaker sett = new_CircuitBreaker (tier2_failure_threshold sett) (tier2_reset_timeout_s sett)"

record HealthReport =
  status :: string
  telemetry_counts :: "(int \<times> nat \<times> int) option"
  reported_breaker :: BreakerState
  active_calls :: nat

text \<open>The breaker's \<open>state\<close> is read twice, at \<open>t1\<close> and \<open>t2\<close>; a read can half-open it.\<close>

definition health ::
  "TelemetrySink \<Rightarrow> py_float \<Rightarrow> py_float \<Rightarrow> App \<Rightarrow> CircuitBreaker \<Rightarrow> HealthReport \<times> CircuitBreaker" where
  "health sink t1 t2 a b =
     (let (shown, b1) = current_state t1 b; (again, b2) = current_state t2 b1
      in (\<lparr>status = (if again \<noteq> CLOSED then ''degraded'' else ''ok''),
           telemetry_counts = (case sink of LogSink \<Rightarrow> None
             | Sqs s \<Rightarrow> Some (sent s, dropped_overflow s, dropped_send s)),
           reported_breaker = shown, active_calls = length (bridges a)\<rparr>, b2))"

text \<open>
  Asking for the health changes nothing for the calls: a call is admitted after it exactly if it
  would have been without it, and leaves the same breaker; the report is "ok" only if the breaker
  was closed, and so admits.
\<close>

theorem health_is_harmless:
  assumes "t1 \<le> t2" "t2 \<le> t"
  shows "admit t (snd (health sink t1 t2 a b)) = admit t b
    \<and> (status (fst (health sink t1 t2 a b)) = ''ok'' \<longleftrightarrow> breaker_state b = CLOSED)
    \<and> active_calls (fst (health sink t1 t2 a b)) = length (bridges a)"
  using assms by (cases "breaker_state b")
    (auto simp: health_def admit_def current_state_def Let_def)

theorem health_is_harmless_witness:
  "status (fst (health LogSink 1 1 (create_app default_Settings) (build_breaker default_Settings))) = ''ok''"
  using health_is_harmless [of 1 1 1 LogSink "create_app default_Settings" "build_breaker default_Settings"]
  by (simp add: build_breaker_def new_CircuitBreaker_def)

section \<open>Startup and shutdown\<close>

text \<open>
  The task and the thread the process runs beside its calls. The passes of the reaper are steps of
  the process (\<open>reap_stale_bridges\<close>); one that raises is logged, and the task goes on.
\<close>

record 'w Background =
  reaper_running :: bool
  telemetry_pump :: "'w Pump option"

definition lifespan_enter :: "Settings \<Rightarrow> 'w \<Rightarrow> 'w Background" where
  "lifespan_enter sett w = \<lparr>reaper_running = True,
     telemetry_pump = (case build_telemetry sett of LogSink \<Rightarrow> None | Sqs s \<Rightarrow> Some (start_Pump s w))\<rparr>"

definition lifespan_exit :: "'w Background \<Rightarrow> 'w Background" where
  "lifespan_exit b = (case telemetry_pump (b\<lparr>reaper_running := False\<rparr>) of
       None \<Rightarrow> b\<lparr>reaper_running := False\<rparr>
     | Some p \<Rightarrow> b\<lparr>reaper_running := False, telemetry_pump := Some (close_sink p)\<rparr>)"

text \<open>
  Shutting down stops the reaper, and the sink's thread, given its turns, empties the queue and
  ends.
\<close>

theorem shutdown_stops_everything:
  assumes "\<forall>p. telemetry_pump b = Some p \<longrightarrow> pump_at p \<noteq> Exited"
  shows "\<not> reaper_running (lifespan_exit b)
    \<and> (\<forall>p. telemetry_pump (lifespan_exit b) = Some p \<longrightarrow>
        pump_at ((pump_turn client ^^ (length (queued (sink_of p)) + 2)) p) = Exited
        \<and> queued (sink_of ((pump_turn client ^^ (length (queued (sink_of p)) + 2)) p)) = [])"
proof (cases "telemetry_pump b")
  case (Some p)
  with assms have "pump_at p \<noteq> Exited" by simp
  note D = close_drains [OF this, of client]
  have "queued (sink_of (close_sink p)) = queued (sink_of p)" by (simp add: close_sink_def)
  with D Some show ?thesis by (simp add: lifespan_exit_def)
qed (simp add: lifespan_exit_def)

theorem shutdown_stops_everything_witness:
  "\<not> reaper_running (lifespan_exit (lifespan_enter (default_Settings\<lparr>sqs_queue_url := ''q''\<rparr>) ()))"
  using shutdown_stops_everything [of "lifespan_enter (default_Settings\<lparr>sqs_queue_url := ''q''\<rparr>) ()" dead_client]
  by (simp add: lifespan_enter_def build_telemetry_def start_Pump_def)

end
