(* ===== verification/Spike.thy ===== *)
theory Spike
  imports Media Telephony
begin

text \<open>
  \<open>api/spike.py\<close>: the experiment with bidirectional media streams, which \<open>main.py\<close> still serves.
  Its socket plays a tone and then echoes the caller half a second late; its two endpoints place
  calls without a user's leg. The classes of messages are those the handler tells apart; an
  exception other than a disconnect leaves the handler after the socket was closed. Sending a frame
  succeeds, and the pauses between the frames of the tone are left out.
\<close>

section \<open>The tone and the echo\<close>

definition FRAME_SAMPLES :: nat where
  "FRAME_SAMPLES = 160"

definition tone_pcm :: "real \<Rightarrow> real \<Rightarrow> real \<Rightarrow> sample list" where
  "tone_pcm freq seconds amp = map (\<lambda>i. word_of_int (py_int (amp * 32767 * sin (2 * pi * freq * (of_nat i / 8000)))))
     [0..<nat (py_int (seconds * 8000))]"

definition tone_frames :: "nat list \<Rightarrow> real \<Rightarrow> real \<Rightarrow> real \<Rightarrow> byte list list" where
  "tone_frames order freq seconds amp = map (pcm16_to_ulaw order) (slices FRAME_SAMPLES (tone_pcm freq seconds amp))"

datatype SpikeMsg = SpikeStart string | SpikeMedia string | SpikeMark | SpikeStop | SpikeOther
  | SpikeDisconnect | SpikeBroken

record SpikeSocket =
  spike_sid :: string
  echo :: "byte list list"
  spike_sent :: "MediaMsg list"
  spike_open :: bool

definition new_SpikeSocket :: SpikeSocket where
  "new_SpikeSocket = \<lparr>spike_sid = '''', echo = [], spike_sent = [], spike_open = True\<rparr>"

definition DELAY_FRAMES :: nat where
  "DELAY_FRAMES = 25"

definition send_frame :: "byte list \<Rightarrow> SpikeSocket \<Rightarrow> SpikeSocket" where
  "send_frame ulaw k = k\<lparr>spike_sent := spike_sent k @ [frame (spike_sid k) ulaw]\<rparr>"

text \<open>One message; the result is the exception that leaves the handler, if one does.\<close>

definition spike_step :: "nat list \<Rightarrow> SpikeMsg \<Rightarrow> SpikeSocket \<Rightarrow> (exn + unit) \<times> SpikeSocket" where
  "spike_step order msg k = (case msg of
       SpikeStart sid \<Rightarrow> (Inr (), fold send_frame (tone_frames order 1000 (15 / 10) (3 / 10)) (k\<lparr>spike_sid := sid\<rparr>))
     | SpikeMedia b64 \<Rightarrow> (case b64decode b64 of
           None \<Rightarrow> (Inl (OtherException ''binascii.Error''), k\<lparr>spike_open := False\<rparr>)
         | Some ulaw \<Rightarrow>
             let q = echo k @ [ulaw]
             in (Inr (), if DELAY_FRAMES < length q then send_frame (hd q) (k\<lparr>echo := tl q\<rparr>) else k\<lparr>echo := q\<rparr>))
     | SpikeStop \<Rightarrow> (Inr (), k\<lparr>spike_open := False\<rparr>)
     | SpikeDisconnect \<Rightarrow> (Inr (), k\<lparr>spike_open := False\<rparr>)
     | SpikeBroken \<Rightarrow> (Inl (OtherException ''message''), k\<lparr>spike_open := False\<rparr>)
     | _ \<Rightarrow> (Inr (), k))"

fun spike_media :: "nat list \<Rightarrow> SpikeMsg list \<Rightarrow> SpikeSocket \<Rightarrow> (exn + unit) \<times> SpikeSocket" where
  "spike_media order [] k = (Inr (), k)"
| "spike_media order (m # ms) k =
     (if \<not> spike_open k then (Inr (), k)
      else case spike_step order m k of (Inl e, k') \<Rightarrow> (Inl e, k') | (Inr _, k') \<Rightarrow> spike_media order ms k')"

definition spike_ws_url :: "string \<Rightarrow> string" where
  "spike_ws_url base = str_replace ''http://'' ''ws://'' (str_replace ''https://'' ''wss://'' base) @ ''/spike-media''"

definition spike_twiml :: "string \<Rightarrow> string" where
  "spike_twiml base = xml_prolog @ ''<Response>''
     @ ''<Connect><Stream url='' @ [quote_mark] @ spike_ws_url base @ [quote_mark] @ ''/></Connect>'' @ ''</Response>''"

section \<open>The endpoints\<close>

datatype SpikeReply = NotSetUp | SpikePlaced string "string option" | SpikeCrashed

text \<open>A body without a \<open>to\<close> is a \<open>KeyError\<close>.\<close>

definition spike_call :: "Deps \<Rightarrow> string option \<Rightarrow> App \<Rightarrow> SpikeReply \<times> App" where
  "spike_call dp to_number a =
     (if \<not> has_twilio a \<or> public_base_url (app_settings a) = '''' then (NotSetUp, a)
      else (case to_number of
          None \<Rightarrow> (SpikeCrashed, a)
        | Some n \<Rightarrow> (case twilio dp (PlaceCall n (public_base_url (app_settings a) @ ''/twiml/spike-bidi'') ''spike'') a of
              (None, a1) \<Rightarrow> (SpikeCrashed, a1)
            | (Some sid, a1) \<Rightarrow> (SpikePlaced sid None, a1))))"

definition dev_call :: "Deps \<Rightarrow> string option \<Rightarrow> string option \<Rightarrow> string \<Rightarrow> App \<Rightarrow> SpikeReply \<times> App" where
  "dev_call dp to_number goal_text g a =
     (if \<not> has_twilio a \<or> public_base_url (app_settings a) = '''' then (NotSetUp, a)
      else let a1 = a\<lparr>pending_goals := (pending_goals a)(g \<mapsto> goal_text)\<rparr>
           in (case to_number of
                 None \<Rightarrow> (SpikeCrashed, a1)
               | Some n \<Rightarrow> (case twilio dp (PlaceCall n (voice_url a1 g) g) a1 of
                     (None, a2) \<Rightarrow> (SpikeCrashed, a2)
                   | (Some sid, a2) \<Rightarrow> (SpikePlaced sid (Some g), a2))))"

section \<open>What they do\<close>

lemma fold_send:
  "fold send_frame us k = k\<lparr>spike_sent := spike_sent k @ map (frame (spike_sid k)) us\<rparr>"
  by (induction us arbitrary: k) (simp_all add: send_frame_def)

lemma echo_run:
  assumes "spike_open k" "length (echo k) \<le> DELAY_FRAMES"
  shows "spike_media order (map (\<lambda>u. SpikeMedia (b64encode u)) us) k =
     (Inr (), k\<lparr>spike_sent := spike_sent k @ map (frame (spike_sid k)) (take (length (echo k) + length us - DELAY_FRAMES) (echo k @ us)),
                echo := drop (length (echo k) + length us - DELAY_FRAMES) (echo k @ us)\<rparr>)"
  using assms
proof (induction us arbitrary: k)
  case (Cons u us)
  let ?q = "echo k @ [u]"
  show ?case
  proof (cases "DELAY_FRAMES < length ?q")
    case False
    then have "length (echo k) < DELAY_FRAMES" by simp
    with Cons.IH [of "k\<lparr>echo := ?q\<rparr>"] Cons.prems False show ?thesis by (simp add: spike_step_def)
  next
    case True
    then have n: "length (echo k) = DELAY_FRAMES" using Cons.prems(2) by simp
    then obtain x xs where e: "echo k = x # xs" by (cases "echo k") (auto simp: DELAY_FRAMES_def)
    let ?k = "send_frame x (k\<lparr>echo := xs @ [u]\<rparr>)"
    have "spike_media order (map (\<lambda>u. SpikeMedia (b64encode u)) us) ?k =
      (Inr (), ?k\<lparr>spike_sent := spike_sent ?k @ map (frame (spike_sid ?k)) (take (length (echo ?k) + length us - DELAY_FRAMES) (echo ?k @ us)),
                  echo := drop (length (echo ?k) + length us - DELAY_FRAMES) (echo ?k @ us)\<rparr>)"
      by (rule Cons.IH) (use Cons.prems n e in \<open>simp_all add: send_frame_def\<close>)
    with Cons.prems True n e show ?thesis by (simp add: spike_step_def send_frame_def Suc_diff_le)
  qed
qed simp

text \<open>
  The experiment does what its header says: after \<open>start\<close> it plays 75 frames of tone, and of the
  frames that follow it sends back, in order and byte for byte, all but the last 25.
\<close>

theorem spike_echoes_late:
  "snd (spike_media order (SpikeStart sid # map (\<lambda>u. SpikeMedia (b64encode u)) us) new_SpikeSocket) =
     \<lparr>spike_sid = sid, echo = drop (length us - 25) us,
      spike_sent = map (frame sid) (tone_frames order 1000 (15 / 10) (3 / 10) @ take (length us - 25) us),
      spike_open = True\<rparr>
   \<and> length (tone_frames order 1000 (15 / 10) (3 / 10)) = 75"
proof -
  have n: "nat (py_int (15 / 10 * 8000)) = 12000" using py_int_of_int [of 12000] by simp
  have "length (tone_frames order 1000 (15 / 10) (3 / 10)) = 75"
    by (simp only: tone_frames_def tone_pcm_def n) (simp add: slices_def FRAME_SAMPLES_def)
  then show ?thesis
    by (simp add: new_SpikeSocket_def spike_step_def fold_send echo_run DELAY_FRAMES_def)
qed

text \<open>
  A call placed by \<open>/dev-call\<close> has no user: when its leg drops it is not dialled again, and its end
  texts nobody.
\<close>

theorem dev_call_has_no_user:
  assumes "call_meta a g = None" "user_numbers a g = None" "a' = snd (dev_call dp to_number goal_text g a)"
  shows "redial_agent_leg dp g a' = (False, a') \<and> sms dp g body a' = a' \<and> user_legs a' g = user_legs a g"
  using assms(1,2) unfolding assms(3)
  by (auto simp: dev_call_def redial_agent_leg_def sms_def twilio_def Let_def split: option.split)

definition answering_deps :: Deps where
  "answering_deps = \<lparr>twilio_reply = (\<lambda>_ _. Some ''CA1''),
     classifier = (\<lambda>_. \<lparr>label = UNKNOWN, confidence = 0, features = []\<rparr>), byte_order = []\<rparr>"

theorem dev_call_has_no_user_witness:
  "\<not> fst (redial_agent_leg answering_deps ''g''
     (snd (dev_call answering_deps (Some ''+1'') None ''g'' (create_app default_Settings))))"
  using dev_call_has_no_user [of "create_app default_Settings" "''g''" _ answering_deps "Some ''+1''" None, OF _ _ refl]
  by (simp add: create_app_def)

end
