(* ===== verification/Worker.thy ===== *)
theory Worker
  imports Telemetry
begin

text \<open>
  \<open>workers/telemetry_worker.py\<close> and \<open>telemetry/store.py\<close>: one poll of the worker (parse the
  received messages, store the events, choose which messages to delete) and the three event
  stores behind the \<open>EventStore\<close> protocol, which is the locale \<open>event_store\<close>. SQS is the list
  of messages a poll received and the list of entries it asks to delete; the signal handling
  of \<open>main\<close> is not modelled.
\<close>

section \<open>The worker's round\<close>

record SqsMessage =
  MessageId :: string
  ReceiptHandle :: string
  Body :: "msg_body option"

type_synonym receipt = "string \<times> string"

definition receipt_of :: "SqsMessage \<Rightarrow> receipt" where
  "receipt_of m = (MessageId m, ReceiptHandle m)"

text \<open>\<open>json.loads(m["Body"])\<close>; \<open>None\<close> is a \<open>KeyError\<close> or a \<open>JSONDecodeError\<close>.\<close>

definition parse_message :: "SqsMessage \<Rightarrow> Json option" where
  "parse_message m = (case Body m of None \<Rightarrow> None | Some b \<Rightarrow> json_loads b)"

fun sort_messages :: "SqsMessage list \<Rightarrow> Json list \<times> receipt list \<times> receipt list" where
  "sort_messages [] = ([], [], [])"
| "sort_messages (m # ms) =
     (let (events, stored, poison) = sort_messages ms
      in case parse_message m of
           Some j \<Rightarrow> (j # events, receipt_of m # stored, poison)
         | None \<Rightarrow> (events, stored, receipt_of m # poison))"

type_synonym 's write_many = "Json list \<Rightarrow> ('s, unit) proc"

text \<open>One iteration of the loop in \<open>run\<close>: the entries given to \<open>delete_message_batch\<close>.\<close>

definition worker_round :: "'s write_many \<Rightarrow> SqsMessage list \<Rightarrow> ('s, receipt list) proc" where
  "worker_round write_many messages =
     (let (events, stored, poison) = sort_messages messages
      in if messages = [] then ret []
         else bind
           (if events \<noteq> []
            then try_except (andthen (write_many events) (ret stored)) (\<lambda>_. ret [])
            else ret stored)
           (\<lambda>kept. ret (kept @ poison)))"

lemma sort_messages_spec:
  "sort_messages ms =
     (map (the \<circ> parse_message) (filter (\<lambda>m. parse_message m \<noteq> None) ms),
      map receipt_of (filter (\<lambda>m. parse_message m \<noteq> None) ms),
      map receipt_of (filter (\<lambda>m. parse_message m = None) ms))"
  by (induction ms) (auto split: option.splits)

definition events_of :: "SqsMessage list \<Rightarrow> Json list" where
  "events_of ms = fst (sort_messages ms)"

definition unparseable :: "SqsMessage list \<Rightarrow> receipt list" where
  "unparseable ms = snd (snd (sort_messages ms))"

definition parseable :: "SqsMessage list \<Rightarrow> receipt list" where
  "parseable ms = fst (snd (sort_messages ms))"

lemma worker_round_eq:
  "worker_round wm ms =
     (if ms = [] then ret []
      else bind (if events_of ms \<noteq> []
                 then try_except (andthen (wm (events_of ms)) (ret (parseable ms))) (\<lambda>_. ret [])
                 else ret (parseable ms))
             (\<lambda>kept. ret (kept @ unparseable ms)))"
  by (simp add: worker_round_def events_of_def parseable_def unparseable_def case_prod_beta Let_def)

lemma sort_messages_empty [simp]: "events_of [] = []" "parseable [] = []" "unparseable [] = []"
  by (simp_all add: events_of_def parseable_def unparseable_def)

lemma no_events: "events_of ms = [] \<Longrightarrow> parseable ms = []"
  by (simp add: events_of_def parseable_def sort_messages_spec)

section \<open>The store protocol\<close>

text \<open>
  What the worker needs of \<open>EventStore\<close>: a write that returns has appended all events to the
  store's rows; one that raises has appended at most some of them.
\<close>

locale event_store =
  fixes write_many :: "'s write_many" and rows :: "'s \<Rightarrow> Json list"
  assumes written: "write_many es s = (Inr (), s') \<Longrightarrow> rows s' = rows s @ es"
    and kept: "write_many es s = (Inl e, s') \<Longrightarrow> \<exists>part. rows s' = rows s @ part \<and> set part \<subseteq> set es"
begin

lemma round_cases:
  assumes "worker_round write_many ms s = (r, s')"
  shows "r = Inr (parseable ms @ unparseable ms) \<and> rows s' = rows s @ events_of ms
    \<or> (r = Inr (unparseable ms) \<or> (\<exists>e. r = Inl e)) \<and> (\<exists>part. rows s' = rows s @ part \<and> set part \<subseteq> set (events_of ms))"
proof (cases "events_of ms = []")
  case True
  with no_events [OF True] assms show ?thesis
    by (cases "ms = []") (auto simp: worker_round_eq proc_defs)
next
  case False
  then have ms: "ms \<noteq> []" by auto
  obtain x s1 where w: "write_many (events_of ms) s = (x, s1)" by fastforce
  show ?thesis
  proof (cases x)
    case (Inr u)
    with w False ms assms written [of "events_of ms" s s1] show ?thesis
      by (simp add: worker_round_eq proc_defs)
  next
    case (Inl e)
    with w False ms assms have "s' = s1" "r = Inr (unparseable ms) \<or> (\<exists>e. r = Inl e)"
      by (auto simp: worker_round_eq proc_defs split: if_splits)
    with kept [OF w [unfolded Inl]] show ?thesis by blast
  qed
qed

lemma never_loses_rows:
  "worker_round write_many ms s = (r, s') \<Longrightarrow> \<exists>new. rows s' = rows s @ new"
  using round_cases by blast

lemma deleted_is_stored:
  assumes "worker_round write_many ms s = (Inr deleted, s')" "m \<in> set ms" "distinct (map receipt_of ms)"
    and "receipt_of m \<in> set deleted"
  shows "parse_message m = None \<or> (\<exists>j. parse_message m = Some j \<and> j \<in> set (rows s'))"
proof (rule disjCI, rule ccontr)
  assume p: "\<not> (\<exists>j. parse_message m = Some j \<and> j \<in> set (rows s'))" "parse_message m \<noteq> None"
  then obtain j where j: "parse_message m = Some j" "j \<notin> set (rows s')" by auto
  then have "j \<in> set (events_of ms)"
    using assms(2) by (force simp: events_of_def sort_messages_spec)
  then have "deleted = unparseable ms" using round_cases [OF assms(1)] j(2) by auto
  with assms(4) obtain m' where "m' \<in> set ms" "parse_message m' = None" "receipt_of m' = receipt_of m"
    by (auto simp: unparseable_def sort_messages_spec)
  then show False using assms(2,3) j(1) by (auto simp: distinct_map inj_on_def)
qed

end

section \<open>The stores\<close>

text \<open>\<open>InMemoryEventStore\<close> and \<open>LoggingEventStore\<close>: rows, or log lines, in order; they never fail.\<close>

definition memory_write_many :: "Json list write_many" where
  "memory_write_many es = modify (\<lambda>rows. rows @ es)"

interpretation memory: event_store memory_write_many "\<lambda>rows. rows"
  by unfold_locales (auto simp: memory_write_many_def modify_def)

text \<open>
  \<open>PostgresEventStore\<close>: the row's text columns are \<open>str()\<close> of the values shown here, \<open>t\<close> is
  \<open>float()\<close> of its value. \<open>parse_float\<close> is \<open>float\<close> on a string, \<open>execute\<close> the database's
  execution of one INSERT.
\<close>

record EventRow =
  call_id_col :: Json
  t_col :: py_float
  kind_col :: Json
  payload_col :: Json

fun py_float_of :: "(string \<Rightarrow> py_float option) \<Rightarrow> Json \<Rightarrow> py_float option" where
  "py_float_of parse_float (JNum x) = Some x"
| "py_float_of parse_float (JBool b) = Some (if b then 1 else 0)"
| "py_float_of parse_float (JStr s) = parse_float s"
| "py_float_of parse_float _ = None"

text \<open>\<open>e.get(...)\<close> on anything but an object is an \<open>AttributeError\<close>.\<close>

fun row_of :: "(string \<Rightarrow> py_float option) \<Rightarrow> Json \<Rightarrow> exn + EventRow" where
  "row_of parse_float (JObj kvs) =
     (let get = (\<lambda>k d. case map_of kvs k of None \<Rightarrow> d | Some v \<Rightarrow> v)
      in case py_float_of parse_float (get ''t'' (JNum 0)) of
           None \<Rightarrow> Inl (OtherException ''float'')
         | Some t \<Rightarrow> Inr \<lparr>call_id_col = get ''call_id'' (JStr ''''), t_col = t,
                          kind_col = get ''kind'' (JStr ''''), payload_col = JObj kvs\<rparr>)"
| "row_of parse_float _ = Inl AttributeError"

fun rows_of :: "(string \<Rightarrow> py_float option) \<Rightarrow> Json list \<Rightarrow> exn + EventRow list" where
  "rows_of parse_float [] = Inr []"
| "rows_of parse_float (e # es) = (case row_of parse_float e of
       Inl err \<Rightarrow> Inl err
     | Inr r \<Rightarrow> (case rows_of parse_float es of Inl err \<Rightarrow> Inl err | Inr rs \<Rightarrow> Inr (r # rs)))"

text \<open>The connection is in autocommit mode: each row of \<open>executemany\<close> is kept on its own.\<close>

fun executemany :: "(EventRow \<Rightarrow> ('d, unit) proc) \<Rightarrow> EventRow list \<Rightarrow> ('d, unit) proc" where
  "executemany execute [] = ret ()"
| "executemany execute (r # rs) = andthen (execute r) (executemany execute rs)"

definition postgres_write_many ::
  "(string \<Rightarrow> py_float option) \<Rightarrow> (EventRow \<Rightarrow> ('d, unit) proc) \<Rightarrow> 'd write_many" where
  "postgres_write_many parse_float execute es =
     (case rows_of parse_float es of Inl err \<Rightarrow> raise err | Inr rs \<Rightarrow> executemany execute rs)"

lemma row_of_payload: "row_of pf e = Inr r \<Longrightarrow> payload_col r = e"
  by (cases e) (auto simp: Let_def split: option.splits)

lemma rows_of_payload: "rows_of pf es = Inr rs \<Longrightarrow> map payload_col rs = es"
  by (induction es arbitrary: rs) (auto dest: row_of_payload split: sum.splits)

text \<open>The database: an INSERT that succeeds adds its row, one that fails adds nothing.\<close>

locale event_table =
  fixes execute :: "EventRow \<Rightarrow> ('d, unit) proc" and tbl :: "'d \<Rightarrow> EventRow list"
  assumes inserted: "execute r d = (Inr (), d') \<Longrightarrow> tbl d' = tbl d @ [r]"
    and not_inserted: "execute r d = (Inl e, d') \<Longrightarrow> tbl d' = tbl d"
begin

lemma executemany_ok: "executemany execute rs d = (Inr (), d') \<Longrightarrow> tbl d' = tbl d @ rs"
proof (induction rs arbitrary: d)
  case (Cons r rs)
  then obtain d1 where "execute r d = (Inr (), d1)" "executemany execute rs d1 = (Inr (), d')"
    by (auto simp: proc_defs split: prod.splits sum.splits)
  with Cons.IH inserted show ?case by fastforce
qed (simp add: proc_defs)

lemma executemany_fail:
  "executemany execute rs d = (Inl e, d') \<Longrightarrow> \<exists>part. tbl d' = tbl d @ part \<and> set part \<subseteq> set rs"
proof (induction rs arbitrary: d)
  case (Cons r rs)
  show ?case
  proof (cases "\<exists>d1. execute r d = (Inr (), d1)")
    case True
    then obtain d1 where 1: "execute r d = (Inr (), d1)" by blast
    with Cons.prems have "executemany execute rs d1 = (Inl e, d')" by (simp add: proc_defs)
    with Cons.IH inserted [OF 1] show ?thesis by fastforce
  next
    case False
    with Cons.prems have "execute r d = (Inl e, d')"
      by (auto simp: proc_defs split: prod.splits sum.splits)
    from not_inserted [OF this] show ?thesis by (intro exI [of _ "[]"]) simp
  qed
qed (simp add: proc_defs)

end

sublocale event_table \<subseteq> pg: event_store "postgres_write_many pf execute" "\<lambda>d. map payload_col (tbl d)" for pf
proof
  fix es s s'
  assume w: "postgres_write_many pf execute es s = (Inr (), s')"
  then obtain rs where "rows_of pf es = Inr rs" "executemany execute rs s = (Inr (), s')"
    by (auto simp: postgres_write_many_def raise_def split: sum.splits)
  then show "map payload_col (tbl s') = map payload_col (tbl s) @ es"
    using executemany_ok rows_of_payload by fastforce
next
  fix es s e s'
  assume w: "postgres_write_many pf execute es s = (Inl e, s')"
  show "\<exists>part. map payload_col (tbl s') = map payload_col (tbl s) @ part \<and> set part \<subseteq> set es"
  proof (cases "rows_of pf es")
    case (Inl err)
    with w show ?thesis by (auto simp: postgres_write_many_def raise_def)
  next
    case (Inr rs)
    with w have "executemany execute rs s = (Inl e, s')" by (simp add: postgres_write_many_def)
    from executemany_fail [OF this] obtain part where
      "tbl s' = tbl s @ part" "set part \<subseteq> set rs" by blast
    moreover have "set (map payload_col part) \<subseteq> set es"
      using \<open>set part \<subseteq> set rs\<close> rows_of_payload [OF Inr] by auto
    ultimately show ?thesis by (intro exI [of _ "map payload_col part"]) simp
  qed
qed

context event_table
begin

lemma deletes_only_stored:
  assumes "worker_round (postgres_write_many pf execute) ms d = (Inr deleted, d')"
    "m \<in> set ms" "distinct (map receipt_of ms)" "receipt_of m \<in> set deleted"
  shows "parse_message m = None \<or> (\<exists>j. parse_message m = Some j \<and> j \<in> set (map payload_col (tbl d')))"
  by (rule pg.deleted_is_stored [OF assms])

lemma keeps_rows:
  "worker_round (postgres_write_many pf execute) ms d = (r, d') \<Longrightarrow>
     \<exists>new. map payload_col (tbl d') = map payload_col (tbl d) @ new"
  by (rule pg.never_loses_rows)

end

text \<open>A table kept as a list, on which every INSERT succeeds.\<close>

definition list_execute :: "EventRow \<Rightarrow> (EventRow list, unit) proc" where
  "list_execute r = modify (\<lambda>t. t @ [r])"

interpretation list_table: event_table list_execute "\<lambda>t. t"
  by unfold_locales (auto simp: list_execute_def modify_def)

section \<open>The properties\<close>

text \<open>
  At-least-once delivery into Postgres: whatever rows fail, when a round asks SQS to
  delete a message, its event is a row of the table (with the whole payload) or its body
  cannot be parsed; and no row is ever removed.
\<close>

theorem worker_deletes_only_stored:
  assumes db: "event_table execute tbl"
    and run: "worker_round (postgres_write_many pf execute) ms d = (Inr deleted, d')"
    and ids: "distinct (map receipt_of ms)"
    and m: "m \<in> set ms" "receipt_of m \<in> set deleted"
  shows "(parse_message m = None \<or> (\<exists>j. parse_message m = Some j \<and> j \<in> payload_col ` set (tbl d')))
    \<and> (\<exists>new. map payload_col (tbl d') = map payload_col (tbl d) @ new)"
proof -
  have "parse_message m = None \<or>
      (\<exists>j. parse_message m = Some j \<and> j \<in> set (map payload_col (tbl d')))"
    by (rule event_table.deletes_only_stored [OF db run m(1) ids m(2)])
  moreover have "\<exists>new. map payload_col (tbl d') = map payload_col (tbl d) @ new"
    by (rule event_table.keeps_rows [OF db run])
  ultimately show ?thesis by simp
qed

definition demo_messages :: "SqsMessage list" where
  "demo_messages =
     [\<lparr>MessageId = ''1'', ReceiptHandle = ''a'', Body = Some (JsonText (payload (HumanDetected ''c'' 2)))\<rparr>,
      \<lparr>MessageId = ''2'', ReceiptHandle = ''b'', Body = Some (NotJson ''{'')\<rparr>]"

lemma demo_round:
  "worker_round (postgres_write_many (\<lambda>_. None) list_execute) demo_messages [] =
     (Inr [(''1'', ''a''), (''2'', ''b'')],
      [\<lparr>call_id_col = JStr ''c'', t_col = py_round 3 2, kind_col = JStr ''human_detected'',
        payload_col = payload (HumanDetected ''c'' 2)\<rparr>])"
  by (simp add: worker_round_eq events_of_def parseable_def unparseable_def demo_messages_def
      parse_message_def receipt_of_def postgres_write_many_def payload_def list_execute_def proc_defs Let_def)

theorem worker_deletes_only_stored_witness:
  "\<exists>deleted d'. worker_round (postgres_write_many (\<lambda>_. None) list_execute) demo_messages [] = (Inr deleted, d')
     \<and> (''1'', ''a'') \<in> set deleted \<and> payload (HumanDetected ''c'' 2) \<in> payload_col ` set d'"
proof -
  have d: "distinct (map receipt_of demo_messages)" by (simp add: demo_messages_def receipt_of_def)
  have m: "hd demo_messages \<in> set demo_messages"
      "receipt_of (hd demo_messages) \<in> set [(''1'', ''a''), (''2'', ''b'')]"
    by (simp_all add: demo_messages_def receipt_of_def)
  have "parse_message (hd demo_messages) = Some (payload (HumanDetected ''c'' 2))"
    by (simp add: demo_messages_def parse_message_def)
  with worker_deletes_only_stored [OF list_table.event_table_axioms demo_round d m] demo_round
  show ?thesis by auto
qed

text \<open>
  One message can hold up a batch. A body that is valid JSON but not an object (a
  list, a number, a string) is not recognised as unparseable: \<open>write_many\<close> raises on it
  before the first INSERT, so nothing of the batch is stored and none of the parseable
  messages is deleted; they are redelivered together with it.
\<close>

theorem non_object_body_blocks_batch:
  assumes "j \<in> set (events_of ms)" "\<nexists>kvs. j = JObj kvs"
  shows "worker_round (postgres_write_many parse_float execute) ms d = (Inr (unparseable ms), d)"
proof -
  have "\<exists>err. rows_of parse_float es = Inl err \<and> is_Exception err" if "j \<in> set es" for es
    using that
  proof (induction es)
    case (Cons e es)
    show ?case
    proof (cases "e = j")
      case True
      with assms(2) show ?thesis by (cases e) auto
    next
      case False
      with Cons obtain err where "rows_of parse_float es = Inl err" "is_Exception err" by auto
      then show ?thesis by (cases e) (auto simp: Let_def split: option.splits)
    qed
  qed simp
  with assms(1) obtain err where err: "rows_of parse_float (events_of ms) = Inl err" "is_Exception err"
    by blast
  have "events_of ms \<noteq> []" "ms \<noteq> []" using assms(1) by auto
  with err show ?thesis by (simp add: worker_round_eq postgres_write_many_def proc_defs)
qed

theorem non_object_body_blocks_batch_witness:
  "worker_round (postgres_write_many (\<lambda>_. None) list_execute)
     (demo_messages @ [\<lparr>MessageId = ''3'', ReceiptHandle = ''c'', Body = Some (JsonText (JNum 7))\<rparr>]) [] =
   (Inr [(''2'', ''b'')], [])"
proof -
  let ?ms = "demo_messages @ [\<lparr>MessageId = ''3'', ReceiptHandle = ''c'', Body = Some (JsonText (JNum 7))\<rparr>]"
  have "JNum 7 \<in> set (events_of ?ms)" "unparseable ?ms = [(''2'', ''b'')]"
    by (simp_all add: events_of_def unparseable_def demo_messages_def parse_message_def receipt_of_def)
  with non_object_body_blocks_batch [of "JNum 7" ?ms "\<lambda>_. None" list_execute "[]"] show ?thesis by simp
qed

end
