(* ===== verification/Worker_Run.thy ===== *)
theory Worker_Run
  imports Worker Config "HOL-Library.AList"
begin

text \<open>
  The loop and the entry point of \<open>workers/telemetry_worker.py\<close>, and \<open>build_store\<close>: polls of SQS
  until the stop event is set, each followed by a round of \<open>Worker\<close> and the deletion it asks for.
  The state pairs the outside world of the queue (messages, stop event) with that of the store.
  SQS is a parameter; what it documents is the locale \<open>sqs_queue\<close>. The loop is unrolled for a
  number of polls, since nothing but the stop event or an exception ends it.
\<close>

section \<open>The loop\<close>

text \<open>A step on one half of the state.\<close>

definition on_queue :: "('q, 'a) proc \<Rightarrow> ('q \<times> 's, 'a) proc" where
  "on_queue p st = (let (r, q) = p (fst st) in (r, (q, snd st)))"

definition on_store :: "('s, 'a) proc \<Rightarrow> ('q \<times> 's, 'a) proc" where
  "on_store p st = (let (r, s) = p (snd st) in (r, (fst st, s)))"

definition one_poll ::
  "('q, SqsMessage list) proc \<Rightarrow> (receipt list \<Rightarrow> ('q, unit) proc) \<Rightarrow> 's write_many \<Rightarrow> ('q \<times> 's, unit) proc" where
  "one_poll receive delete_batch write_many =
     bind (on_queue receive) (\<lambda>messages.
     bind (on_store (worker_round write_many messages)) (\<lambda>to_delete.
     if to_delete = [] then ret () else on_queue (delete_batch to_delete)))"

text \<open>\<open>True\<close> is the return of \<open>run\<close>, \<open>False\<close> that it is still polling after \<open>n\<close> polls.\<close>

fun run_polls ::
  "('q \<Rightarrow> bool) \<Rightarrow> ('q, SqsMessage list) proc \<Rightarrow> (receipt list \<Rightarrow> ('q, unit) proc) \<Rightarrow> 's write_many
   \<Rightarrow> nat \<Rightarrow> ('q \<times> 's, bool) proc" where
  "run_polls stop receive delete_batch write_many 0 st = (Inr (stop (fst st)), st)"
| "run_polls stop receive delete_batch write_many (Suc n) st =
     (if stop (fst st) then (Inr True, st)
      else andthen (one_poll receive delete_batch write_many)
             (run_polls stop receive delete_batch write_many n) st)"

datatype StoreKind = PostgresEventStore string | LoggingEventStore

definition build_store :: "Settings \<Rightarrow> StoreKind" where
  "build_store sett = (if database_url sett \<noteq> '''' then PostgresEventStore (database_url sett) else LoggingEventStore)"

text \<open>\<open>try: p finally: c\<close>.\<close>

definition try_finally :: "('s, 'a) proc \<Rightarrow> ('s, unit) proc \<Rightarrow> ('s, 'a) proc" where
  "try_finally p c s = (let (r, s1) = p s in case c s1 of (Inl e, s2) \<Rightarrow> (Inl e, s2) | (Inr _, s2) \<Rightarrow> (r, s2))"

text \<open>\<open>main\<close>, with the loop and the closing of the chosen store as arguments.\<close>

definition worker_main ::
  "Settings \<Rightarrow> (StoreKind \<Rightarrow> ('w, bool) proc) \<Rightarrow> (StoreKind \<Rightarrow> ('w, unit) proc) \<Rightarrow> ('w, bool) proc" where
  "worker_main sett run close_store =
     (if sqs_queue_url sett = '''' then raise (BaseException ''SystemExit'')
      else let store = build_store sett in try_finally (run store) (close_store store))"

section \<open>The queue's contract\<close>

text \<open>
  What SQS documents: a message received is one the queue holds, under an id of its own; receiving
  removes nothing (messages may arrive at any time), and a deletion, whether it is reported as
  successful or not, removes at most the messages it names.
\<close>

locale sqs_queue =
  fixes receive :: "('q, SqsMessage list) proc"
    and delete_batch :: "receipt list \<Rightarrow> ('q, unit) proc"
    and pending :: "'q \<Rightarrow> string \<rightharpoonup> msg_body option"
  assumes held: "receive q = (Inr ms, q') \<Longrightarrow> m \<in> set ms \<Longrightarrow> pending q' (MessageId m) = Some (Body m)"
    and own_ids: "receive q = (Inr ms, q') \<Longrightarrow> distinct (map MessageId ms)"
    and receive_keeps: "receive q = (r, q') \<Longrightarrow> pending q \<subseteq>\<^sub>m pending q'"
    and delete_keeps: "delete_batch rs q = (s, q') \<Longrightarrow> pending q i = Some b \<Longrightarrow> i \<notin> fst ` set rs \<Longrightarrow> pending q' i = Some b"

definition body_json :: "msg_body option \<Rightarrow> Json option" where
  "body_json b = Option.bind b json_loads"

lemma parse_message_body: "parse_message m = body_json (Body m)"
  by (cases "Body m") (simp_all add: parse_message_def body_json_def)

text \<open>
  The message \<open>i\<close> with body \<open>b\<close> is safe: still on the queue, without a readable event, or stored.
\<close>

definition is_safe :: "(string \<rightharpoonup> msg_body option) \<Rightarrow> Json list \<Rightarrow> string \<Rightarrow> msg_body option \<Rightarrow> bool" where
  "is_safe held rows i b \<longleftrightarrow> held i = Some b \<or> body_json b = None \<or> the (body_json b) \<in> set rows"

lemma is_safe_mono: "is_safe h rows i b \<Longrightarrow> h \<subseteq>\<^sub>m h' \<Longrightarrow> set rows \<subseteq> set rows' \<Longrightarrow> is_safe h' rows' i b"
  by (auto simp: is_safe_def map_le_def dom_def)

locale drained_queue = sqs_queue receive delete_batch pending + event_store write_many rows
  for receive :: "('q, SqsMessage list) proc" and delete_batch :: "receipt list \<Rightarrow> ('q, unit) proc"
    and pending :: "'q \<Rightarrow> string \<rightharpoonup> msg_body option"
    and write_many :: "'s write_many" and rows :: "'s \<Rightarrow> Json list"
begin

lemma deleted_was_safe:
  assumes rcv: "receive q = (Inr ms, q1)" and rnd: "worker_round write_many ms s = (Inr del, s1)"
    and b: "pending q1 i = Some b" and i: "i \<in> fst ` set del"
  shows "body_json b = None \<or> the (body_json b) \<in> set (rows s1)"
proof -
  have "set del \<subseteq> receipt_of ` set ms"
    using round_cases [OF rnd] by (auto simp: parseable_def unparseable_def sort_messages_spec)
  with i obtain m where m: "m \<in> set ms" "receipt_of m \<in> set del" "MessageId m = i"
    by (auto simp: receipt_of_def)
  have "distinct (map receipt_of ms)"
    using own_ids [OF rcv] by (auto simp: distinct_map inj_on_def receipt_of_def)
  from deleted_is_stored [OF rnd m(1) this m(2)] have
    "body_json (Body m) = None \<or> the (body_json (Body m)) \<in> set (rows s1)"
    by (auto simp: parse_message_body)
  moreover have "b = Body m" using held [OF rcv m(1)] b m(3) by simp
  ultimately show ?thesis by simp
qed

lemma poll_safe:
  assumes "one_poll receive delete_batch write_many (q, s) = (r, (q', s'))" "is_safe (pending q) (rows s) i b"
  shows "is_safe (pending q') (rows s') i b"
proof -
  obtain x q1 where rcv: "receive q = (x, q1)" by fastforce
  note safe1 = is_safe_mono [OF assms(2) receive_keeps [OF rcv]]
  show ?thesis
  proof (cases x)
    case (Inl e)
    with assms(1) rcv safe1 show ?thesis by (simp add: one_poll_def on_queue_def proc_defs)
  next
    case (Inr ms)
    obtain y s1 where rnd: "worker_round write_many ms s = (y, s1)" by fastforce
    have more_rows: "set (rows s) \<subseteq> set (rows s1)" using never_loses_rows [OF rnd] by auto
    consider "q' = q1" "s' = s1"
      | del where "y = Inr del" "s' = s1" "delete_batch del q1 = (r, q')"
      using assms(1) rcv Inr rnd
      by (cases y) (auto simp: one_poll_def on_queue_def on_store_def proc_defs split: if_splits prod.splits)
    then show ?thesis
    proof cases
      case 1
      with safe1 [OF more_rows] show ?thesis by simp
    next
      case (2 del)
      show ?thesis
      proof (cases "pending q1 i = Some b")
        case True
        with deleted_was_safe [OF rcv [unfolded Inr] rnd [unfolded 2] True] delete_keeps [OF 2(3) True]
        show ?thesis unfolding 2(2) is_safe_def by blast
      next
        case False
        with safe1 [OF more_rows] 2(2) show ?thesis by (simp add: is_safe_def)
      qed
    qed
  qed
qed

lemma run_safe:
  "run_polls stop receive delete_batch write_many n (q, s) = (r, (q', s')) \<Longrightarrow>
     is_safe (pending q) (rows s) i b \<Longrightarrow> is_safe (pending q') (rows s') i b"
proof (induction n arbitrary: q s)
  case (Suc n)
  show ?case
  proof (cases "stop q")
    case False
    obtain x q1 s1 where p: "one_poll receive delete_batch write_many (q, s) = (x, (q1, s1))"
      by (metis prod.exhaust)
    note safe = poll_safe [OF p Suc.prems(2)]
    show ?thesis using Suc.IH [OF _ safe] Suc.prems(1) False p safe
      by (cases x) (simp_all add: proc_defs)
  qed (use Suc.prems in simp)
qed simp

end

context event_table
begin

lemma is_store: "event_store (postgres_write_many parse_float execute) (\<lambda>d. map payload_col (tbl d))"
  by (rule pg.event_store_axioms)

end

section \<open>A queue kept as a list\<close>

type_synonym list_queue = "(string \<times> msg_body option) list"

definition list_receive :: "(list_queue, SqsMessage list) proc" where
  "list_receive q = (Inr (map (\<lambda>(i, b). \<lparr>MessageId = i, ReceiptHandle = ''r'' @ i, Body = b\<rparr>)
     (take 10 (AList.clearjunk q))), q)"

definition list_delete :: "receipt list \<Rightarrow> (list_queue, unit) proc" where
  "list_delete rs q = (Inr (), filter (\<lambda>(i, b). i \<notin> fst ` set rs) q)"

lemma map_of_filter_keys: "P i \<Longrightarrow> map_of (filter (\<lambda>(i, b). P i) q) i = map_of q i"
  by (induction q) auto

lemma list_sqs: "sqs_queue list_receive list_delete map_of"
proof
  show "map_of q' (MessageId m) = Some (Body m)" if "list_receive q = (Inr ms, q')" "m \<in> set ms" for q ms q' m
  proof -
    have q: "q' = q" "ms = map (\<lambda>(i, b). \<lparr>MessageId = i, ReceiptHandle = ''r'' @ i, Body = b\<rparr>) (take 10 (AList.clearjunk q))"
      using that(1) unfolding list_receive_def by blast+
    from that(2) obtain x where x: "x \<in> set (take 10 (AList.clearjunk q))" "MessageId m = fst x" "Body m = snd x"
      unfolding q(2) by (auto simp only: set_map image_iff case_prod_beta SqsMessage.simps)
    from in_set_takeD [OF x(1)] x q(1) have "(MessageId m, Body m) \<in> set (AList.clearjunk q)" "q' = q" by simp_all
    then show ?thesis using map_of_clearjunk [of q] distinct_clearjunk [of q] by (metis map_of_eq_Some_iff)
  qed
  show "distinct (map MessageId ms)" if "list_receive q = (Inr ms, q')" for q ms q'
  proof -
    have "map MessageId ms = take 10 (map fst (AList.clearjunk q))"
      using that by (auto simp: list_receive_def take_map)
    then show ?thesis using distinct_clearjunk [of q] by simp
  qed
qed (auto simp: list_receive_def list_delete_def map_of_filter_keys)

interpretation list_sqs: sqs_queue list_receive list_delete map_of
  by (rule list_sqs)

interpretation list_drained: drained_queue list_receive list_delete map_of memory_write_many "\<lambda>rows. rows"
  by unfold_locales

section \<open>No message is lost\<close>


definition demo_queue :: list_queue where
  "demo_queue = [(''1'', Some (JsonText (payload (HumanDetected ''c'' 2)))), (''2'', Some (NotJson ''{'')), (''3'', None)]"

lemma demo_receive:
  "list_receive demo_queue = (Inr [\<lparr>MessageId = ''1'', ReceiptHandle = ''r1'', Body = Some (JsonText (payload (HumanDetected ''c'' 2)))\<rparr>,
     \<lparr>MessageId = ''2'', ReceiptHandle = ''r2'', Body = Some (NotJson ''{'')\<rparr>, \<lparr>MessageId = ''3'', ReceiptHandle = ''r3'', Body = None\<rparr>], demo_queue)"
  "list_delete [(''1'', ''r1''), (''2'', ''r2''), (''3'', ''r3'')] demo_queue = (Inr (), [])"
  "list_receive [] = (Inr [], [])"
  by (simp_all add: list_receive_def list_delete_def demo_queue_def)

definition demo_row :: EventRow where
  "demo_row = \<lparr>call_id_col = JStr ''c'', t_col = py_round 3 2, kind_col = JStr ''human_detected'',
     payload_col = payload (HumanDetected ''c'' 2)\<rparr>"

lemma demo_store: "postgres_write_many (\<lambda>_. None) list_execute [payload (HumanDetected ''c'' 2)] [] = (Inr (), [demo_row])"
  by (simp add: postgres_write_many_def payload_def list_execute_def proc_defs Let_def demo_row_def)

lemma demo_poll:
  "one_poll list_receive list_delete (postgres_write_many (\<lambda>_. None) list_execute) (demo_queue, []) = (Inr (), ([], [demo_row]))"
  "one_poll list_receive list_delete (postgres_write_many (\<lambda>_. None) list_execute) ([], [demo_row]) = (Inr (), ([], [demo_row]))"
  by (simp_all add: one_poll_def on_queue_def on_store_def demo_receive worker_round_eq events_of_def parseable_def
      unparseable_def parse_message_def receipt_of_def bind_def andthen_def try_except_def ret_def demo_store)


end
