(* ===== verification/Py_Text.thy ===== *)
theory Py_Text
  imports Strings "HOL-Library.AList"
begin

text \<open>
  More of Python used by the command-line scripts: \<open>split\<close>, the substring test
  \<open>in\<close>, \<open>float\<close> of a string, and counting in a dict, an association list in insertion order. A float is a real or one of the three values that are none;
  a literal too large for a double is not turned into an infinity.
\<close>

section \<open>Splitting and containment\<close>

text \<open>\<open>s.split(c)\<close> for a separator of one character.\<close>

fun str_split :: "char \<Rightarrow> string \<Rightarrow> string list" where
  "str_split c [] = [[]]"
| "str_split c (x # xs) =
     (if x = c then [] # str_split c xs
      else (x # hd (str_split c xs)) # tl (str_split c xs))"

text \<open>\<open>c.join(ws)\<close>.\<close>

fun str_join :: "char \<Rightarrow> string list \<Rightarrow> string" where
  "str_join c [] = []"
| "str_join c [w] = w"
| "str_join c (w # v # ws) = w @ c # str_join c (v # ws)"

lemma str_split_nonempty [simp]: "str_split c s \<noteq> []"
  by (cases s) simp_all

lemma str_split_word [simp]: "c \<notin> set w \<Longrightarrow> str_split c w = [w]"
  by (induction w) auto

lemma str_split_first [simp]: "c \<notin> set w \<Longrightarrow> str_split c (w @ c # s) = w # str_split c s"
  by (induction w) auto

lemma split_join: "ws \<noteq> [] \<Longrightarrow> \<forall>w\<in>set ws. c \<notin> set w \<Longrightarrow> str_split c (str_join c ws) = ws"
  by (induction c ws rule: str_join.induct) auto

lemma join_split: "str_join c (str_split c s) = s"
proof (induction s)
  case (Cons x s)
  obtain w ws where "str_split c s = w # ws" by (cases "str_split c s") simp_all
  with Cons show ?case by (cases ws) auto
qed simp

lemma split_pieces: "w \<in> set (str_split c s) \<Longrightarrow> c \<notin> set w"
proof (induction s arbitrary: w)
  case (Cons x s)
  obtain v vs where "str_split c s = v # vs" by (cases "str_split c s") simp_all
  with Cons show ?case by (auto split: if_splits)
qed simp

text \<open>\<open>p in s\<close>.\<close>

fun str_in :: "string \<Rightarrow> string \<Rightarrow> bool" where
  "str_in p [] = (p = [])"
| "str_in p (c # cs) = (starts_with p (c # cs) \<or> str_in p cs)"

lemma str_in_iff: "str_in p s \<longleftrightarrow> (\<exists>a b. s = a @ p @ b)"
proof (induction s)
  case (Cons c s)
  have "(\<exists>a b. c # s = a @ p @ b) \<longleftrightarrow> (\<exists>b. c # s = p @ b) \<or> (\<exists>a b. s = a @ p @ b)"
    by (auto simp: Cons_eq_append_conv)
  with Cons show ?case by (simp add: starts_with_append)
qed auto

section \<open>Floats\<close>

datatype PyFloat = Fin real | Infinite bool | NotANumber

text \<open>Comparisons with a finite float, \<open>a <= t\<close> and \<open>t < b\<close>; \<open>Infinite True\<close> is positive.\<close>

fun float_le :: "PyFloat \<Rightarrow> real \<Rightarrow> bool" where
  "float_le (Fin a) t \<longleftrightarrow> a \<le> t"
| "float_le (Infinite pos) t \<longleftrightarrow> \<not> pos"
| "float_le NotANumber t \<longleftrightarrow> False"

fun float_gt :: "PyFloat \<Rightarrow> real \<Rightarrow> bool" where
  "float_gt (Fin b) t \<longleftrightarrow> t < b"
| "float_gt (Infinite pos) t \<longleftrightarrow> pos"
| "float_gt NotANumber t \<longleftrightarrow> False"

definition digit_value :: "char \<Rightarrow> nat" where
  "digit_value c = of_char c - 48"

definition digits_value :: "string \<Rightarrow> nat" where
  "digits_value ds = foldl (\<lambda>n c. 10 * n + digit_value c) 0 ds"

text \<open>
  The digits at the start of a text and the rest; an underscore may stand between two digits.
  \<open>after\<close> tells whether a digit was just read.
\<close>

fun digit_part :: "bool \<Rightarrow> string \<Rightarrow> string \<times> string" where
  "digit_part after [] = ([], [])"
| "digit_part after (c # cs) =
     (if is_digit c then (c # fst (digit_part True cs), snd (digit_part True cs))
      else if c = CHR ''_'' \<and> after \<and> cs \<noteq> [] \<and> is_digit (hd cs) then digit_part False cs
      else ([], c # cs))"

text \<open>A sign, if there is one: whether it is a minus, and the rest.\<close>

definition read_sign :: "string \<Rightarrow> bool \<times> string" where
  "read_sign s = (case s of [] \<Rightarrow> (False, [])
     | c # cs \<Rightarrow> if c = CHR ''-'' then (True, cs) else if c = CHR ''+'' then (False, cs) else (False, s))"

definition read_exponent :: "string \<Rightarrow> int option" where
  "read_exponent s = (case s of [] \<Rightarrow> Some 0
     | c # cs \<Rightarrow>
         if lower c = CHR ''e'' then
           let (neg, r) = read_sign cs; (ds, r') = digit_part False r
           in if ds \<noteq> [] \<and> r' = []
              then Some (if neg then - int (digits_value ds) else int (digits_value ds)) else None
         else None)"

definition unsigned_number :: "string \<Rightarrow> real option" where
  "unsigned_number s =
     (let (whole, r) = digit_part False s;
          (frac, r') = (case r of [] \<Rightarrow> ([], []) | c # cs \<Rightarrow> if c = CHR ''.'' then digit_part False cs else ([], r))
      in if whole = [] \<and> frac = [] then None
         else map_option (\<lambda>e. of_nat (digits_value (whole @ frac)) / 10 ^ length frac * 10 powi e)
           (read_exponent r'))"

text \<open>\<open>float(s)\<close>; \<open>None\<close> is a \<open>ValueError\<close>.\<close>

definition float_of_text :: "string \<Rightarrow> PyFloat option" where
  "float_of_text s =
     (let (neg, r) = read_sign (str_strip s); word = map lower r
      in if word = ''inf'' \<or> word = ''infinity'' then Some (Infinite (\<not> neg))
         else if word = ''nan'' then Some NotANumber
         else map_option (\<lambda>x. Fin (if neg then - x else x)) (unsigned_number r))"

section \<open>Writing numbers\<close>

fun show_nat :: "nat \<Rightarrow> string" where
  "show_nat n = (if n < 10 then [char_of (48 + n)] else show_nat (n div 10) @ [char_of (48 + n mod 10)])"

declare show_nat.simps [simp del]

lemma digit_char: "d < 10 \<Longrightarrow> is_digit (char_of (48 + d :: nat)) \<and> digit_value (char_of (48 + d)) = d"
proof -
  assume "d < 10"
  then have "d \<in> set [0..<10]" by simp
  moreover have "\<forall>d\<in>set [0..<10]. is_digit (char_of (48 + d :: nat)) \<and> digit_value (char_of (48 + d)) = d"
    by code_simp
  ultimately show ?thesis by blast
qed

lemma show_nat_digits: "\<forall>c\<in>set (show_nat n). is_digit c"
proof (induction n rule: show_nat.induct)
  case (1 n)
  show ?case
    using 1 digit_char [of n] digit_char [of "n mod 10"] by (subst show_nat.simps) (auto simp: Ball_def)
qed

lemma show_nat_nonempty [simp]: "show_nat n \<noteq> []"
  by (subst show_nat.simps) simp

lemma digits_value_snoc [simp]: "digits_value (ds @ [c]) = 10 * digits_value ds + digit_value c"
  by (simp add: digits_value_def)

lemma show_nat_value [simp]: "digits_value (show_nat n) = n"
proof (induction n rule: show_nat.induct)
  case (1 n)
  show ?case
  proof (cases "n < 10")
    case True
    then show ?thesis using digit_char [of n] digits_value_snoc [of "[]"]
      by (subst show_nat.simps) (simp add: digits_value_def)
  next
    case False
    then show ?thesis using 1 digit_char [of "n mod 10"] by (subst show_nat.simps) simp
  qed
qed

lemma digit_part_all: "\<forall>c\<in>set s. is_digit c \<Longrightarrow> digit_part b s = (s, [])"
  by (induction s arbitrary: b) auto

lemma digit_letters:
  assumes "is_digit c"
  shows "c \<noteq> CHR ''-''" "c \<noteq> CHR ''+''" "lower c \<noteq> CHR ''i''" "lower c \<noteq> CHR ''n''"
proof -
  have "\<forall>c\<in>set ''0123456789''. c \<noteq> CHR ''-'' \<and> c \<noteq> CHR ''+'' \<and> lower c \<noteq> CHR ''i'' \<and> lower c \<noteq> CHR ''n''"
    by code_simp
  with assms show "c \<noteq> CHR ''-''" "c \<noteq> CHR ''+''" "lower c \<noteq> CHR ''i''" "lower c \<noteq> CHR ''n''"
    by (auto simp only: is_digit_def)
qed

lemma digit_no_space: "is_digit c \<Longrightarrow> \<not> is_space c"
  by (auto simp: is_digit_def is_space_def)

lemma strip_solid: "\<forall>c\<in>set s. \<not> is_space c \<Longrightarrow> str_strip s = s"
proof -
  assume solid: "\<forall>c\<in>set s. \<not> is_space c"
  have keep: "dropWhile is_space t = t" if "\<forall>c\<in>set t. \<not> is_space c" for t
    using that by (cases t) simp_all
  from this [of s] this [of "rev s"] show ?thesis using solid by (simp add: str_strip_def)
qed

text \<open>Reading back what was written.\<close>

lemma float_of_show_nat [simp]: "float_of_text (show_nat n) = Some (Fin (of_nat n))"
proof -
  note digs = show_nat_digits [of n]
  obtain c cs where s: "show_nat n = c # cs" by (cases "show_nat n") simp_all
  have c: "is_digit c" using digs s by simp
  have strip: "str_strip (show_nat n) = show_nat n" using digs digit_no_space strip_solid by blast
  have head: "c \<noteq> CHR ''-''" "c \<noteq> CHR ''+''" "lower c \<noteq> CHR ''i''" "lower c \<noteq> CHR ''n''"
    using digit_letters [OF c] by simp_all
  have sign: "read_sign (show_nat n) = (False, show_nat n)"
    using head(1,2) by (simp add: s read_sign_def)
  have word: "map lower (show_nat n) \<notin> {''inf'', ''infinity'', ''nan''}"
    using head(3,4) by (simp add: s)
  have num: "unsigned_number (show_nat n) = Some (of_nat n)"
    using digit_part_all [OF digs] by (simp add: unsigned_number_def read_exponent_def)
  show ?thesis using word by (simp add: float_of_text_def strip sign num)
qed

lemma show_nat_separators: "CHR '','' \<notin> set (show_nat n)" "CHR ''='' \<notin> set (show_nat n)" "CHR '':'' \<notin> set (show_nat n)"
proof -
  have "\<not> is_digit x \<Longrightarrow> x \<notin> set (show_nat n)" for x using show_nat_digits [of n] by auto
  moreover have "\<not> is_digit CHR '',''" "\<not> is_digit CHR ''=''" "\<not> is_digit CHR '':''"
    by (simp_all add: is_digit_def)
  ultimately show "CHR '','' \<notin> set (show_nat n)" "CHR ''='' \<notin> set (show_nat n)" "CHR '':'' \<notin> set (show_nat n)"
    by blast+
qed

section \<open>Counting\<close>

text \<open>\<open>d[k] = d.get(k, 0) + 1\<close>.\<close>

definition count_up :: "'k \<Rightarrow> ('k \<times> nat) list \<Rightarrow> ('k \<times> nat) list" where
  "count_up k d = AList.update k ((case map_of d k of None \<Rightarrow> 0 | Some n \<Rightarrow> n) + 1) d"

lemma count_up_lookup:
  "map_of (count_up k d) = (map_of d)(k \<mapsto> (case map_of d k of None \<Rightarrow> 0 | Some n \<Rightarrow> n) + 1)"
  by (simp add: count_up_def update_conv')

end
