(* ===== verification/Analyze_Audio.thy ===== *)
theory Analyze_Audio
  imports Py_Text Classifier "HOL-Library.Char_ord" "HOL-Library.List_Lexorder"
    "HOL-Library.Product_Lexorder"
begin

text \<open>
  \<open>scripts/analyze_audio.py\<close>: the tool that slides Tier 1 over a recording and compares its
  verdicts with a ground truth given on the command line. The recording is its samples and rate;
  what is printed is a list of \<open>Printed\<close> lines, their layout left out. A dict is an association
  list in insertion order. The parsing of the arguments is argparse's.
\<close>

section \<open>The ground truth\<close>

type_synonym TruthSegment = "PyFloat \<times> PyFloat \<times> string"

definition parse_segment :: "string \<Rightarrow> TruthSegment option" where
  "parse_segment part = (case str_split CHR ''='' part of
       [when, lab] \<Rightarrow> (case str_split CHR '':'' when of
           [a, b] \<Rightarrow> (case (float_of_text a, float_of_text b) of
               (Some x, Some y) \<Rightarrow> Some (x, y, str_strip lab)
             | _ \<Rightarrow> None)
         | _ \<Rightarrow> None)
     | _ \<Rightarrow> None)"

text \<open>\<open>_parse_segments\<close>; \<open>None\<close> is a \<open>ValueError\<close>.\<close>

definition parse_segments :: "string \<Rightarrow> TruthSegment list option" where
  "parse_segments spec = those (map parse_segment (str_split CHR '','' spec))"

fun label_at :: "py_float \<Rightarrow> TruthSegment list \<Rightarrow> string option" where
  "label_at t [] = None"
| "label_at t ((a, b, lab) # segs) = (if float_le a t \<and> float_gt b t then Some lab else label_at t segs)"

section \<open>The windows\<close>

text \<open>\<open>range(0, max(1, size - win + 1), hop)\<close>.\<close>

definition window_starts :: "nat \<Rightarrow> nat \<Rightarrow> nat \<Rightarrow> nat list" where
  "window_starts len win hop = map (\<lambda>k. k * hop) [0..<(max 1 (len + 1 - win) + hop - 1) div hop]"

definition feature_items :: "Features \<Rightarrow> (string \<times> real option) list" where
  "feature_items f = [(''rms'', Some (rms f)), (''zcr'', zcr f), (''flatness'', Some (flatness f)),
     (''tone_460_ratio'', Some (tone_460_ratio f)), (''quiet_frac'', Some (quiet_frac f)),
     (''env_cv'', Some (env_cv f)), (''mod_4hz'', Some (mod_4hz f))]"

record Window =
  start_s :: py_float
  truth :: "string option"
  predicted :: Classification
  measured :: Features

definition analyse_window :: "sample list \<Rightarrow> nat \<Rightarrow> nat \<Rightarrow> TruthSegment list \<Rightarrow> nat \<Rightarrow> Window option" where
  "analyse_window samples sr win segments start =
     (let seg = take win (drop start samples); t = of_nat start / of_nat sr
      in if sr = 0 then None
         else (case (acoustic_features seg sr, heuristic_classify \<lparr>pcm = seg, frame_rate = sr, t_start = t\<rparr>) of
             (Some f, Some c) \<Rightarrow> Some \<lparr>start_s = t, truth = label_at t segments, predicted = c, measured = f\<rparr>
           | _ \<Rightarrow> None))"

section \<open>The tables\<close>

type_synonym Columns = "(string \<times> real option list) list"

definition append_features :: "Features \<Rightarrow> Columns \<Rightarrow> Columns" where
  "append_features f d = fold (\<lambda>(k, v). AList.map_entry k (\<lambda>vs. vs @ [v])) (feature_items f) d"

definition add_features :: "string \<Rightarrow> Features \<Rightarrow> (string \<times> Columns) list \<Rightarrow> (string \<times> Columns) list" where
  "add_features lab f tbl =
     (let tbl' = (if map_of tbl lab = None
                  then AList.update lab (map (\<lambda>(k, v). (k, [])) (feature_items f)) tbl else tbl)
      in AList.map_entry lab (append_features f) tbl')"

type_synonym Tables = "(string \<times> Columns) list \<times> ((string \<times> string) \<times> nat) list"

definition tally :: "Window \<Rightarrow> Tables \<Rightarrow> Tables" where
  "tally w tabs = (case truth w of
       None \<Rightarrow> tabs
     | Some lab \<Rightarrow>
         if lab = [] then tabs
         else (add_features lab (measured w) (fst tabs),
               count_up (lab, label_value (label (predicted w))) (snd tabs)))"

section \<open>The report\<close>

definition median :: "real list \<Rightarrow> real" where
  "median xs = (let s = sort xs; n = length s
     in if odd n then s ! (n div 2) else (s ! (n div 2 - 1) + s ! (n div 2)) / 2)"

text \<open>A line of the distributions; \<open>None\<close> where a NaN is among the values.\<close>

definition summary :: "real option list \<Rightarrow> (real \<times> real \<times> real) option" where
  "summary vals = map_option (\<lambda>xs. (fold min (tl xs) (hd xs), median xs, fold max (tl xs) (hd xs))) (those vals)"

definition hit :: "string \<Rightarrow> string \<Rightarrow> bool" where
  "hit t_label p_label \<longleftrightarrow> t_label = p_label \<or> str_in p_label t_label \<or> str_in t_label p_label"

datatype Printed =
    WindowHeading
  | WindowRow py_float string string real Features
  | DistributionHeading
  | LabelRow string nat
  | FeatureRow string "(real \<times> real \<times> real) option"
  | ConfusionHeading
  | ConfusionRow string string nat bool

definition window_row :: "Window \<Rightarrow> Printed" where
  "window_row w = WindowRow (start_s w)
     (case truth w of None \<Rightarrow> ''-'' | Some lab \<Rightarrow> if lab = [] then ''-'' else lab)
     (label_value (label (predicted w))) (confidence (predicted w)) (measured w)"

definition table_rows :: "Tables \<Rightarrow> Printed list" where
  "table_rows tabs = (if fst tabs = [] then [] else
     [DistributionHeading]
     @ concat (map (\<lambda>(lab, feats). LabelRow lab (length (snd (hd feats)))
         # map (\<lambda>(k, vals). FeatureRow k (summary vals)) feats) (fst tabs))
     @ [ConfusionHeading]
     @ map (\<lambda>((t, p), c). ConfusionRow t p c (\<not> hit t p)) (sort (snd tabs)))"

definition window_of :: "Settings \<Rightarrow> nat \<Rightarrow> nat" where
  "window_of sett sr = nat (py_int (of_nat (sr * classify_window_ms sett) / 1000))"

definition hop_of :: "Settings \<Rightarrow> nat \<Rightarrow> nat" where
  "hop_of sett sr = nat (py_int (of_nat (sr * classifier_interval_ms sett) / 1000))"

definition analyse_windows :: "Settings \<Rightarrow> sample list \<Rightarrow> nat \<Rightarrow> TruthSegment list \<Rightarrow> exn + Window list" where
  "analyse_windows sett samples sr segments =
     (if hop_of sett sr = 0 then Inl (OtherException ''ValueError: range() arg 3 must not be zero'')
      else (case those (map (analyse_window samples sr (window_of sett sr) segments)
                (window_starts (length samples) (window_of sett sr) (hop_of sett sr))) of
          None \<Rightarrow> Inl (OtherException ''ZeroDivisionError'')
        | Some ws \<Rightarrow> Inr ws))"

text \<open>\<open>main\<close> after its arguments are parsed: the recording, \<open>--segments\<close> and \<open>--quiet\<close>.\<close>

definition analyze_audio :: "Settings \<Rightarrow> sample list \<times> nat \<Rightarrow> string \<Rightarrow> bool \<Rightarrow> exn + Printed list" where
  "analyze_audio sett wav spec quiet =
     (case (if spec = [] then Some [] else parse_segments spec) of
        None \<Rightarrow> Inl (OtherException ''ValueError'')
      | Some segments \<Rightarrow> (case analyse_windows sett (fst wav) (snd wav) segments of
            Inl x \<Rightarrow> Inl x
          | Inr ws \<Rightarrow> Inr ((if quiet then [] else WindowHeading # map window_row ws)
              @ table_rows (fold tally ws ([], [])))))"

section \<open>The tables are what they say\<close>

text \<open>The windows whose ground truth is \<open>lab\<close>.\<close>

definition labelled :: "string \<Rightarrow> Window list \<Rightarrow> Window list" where
  "labelled lab ws = filter (\<lambda>w. truth w = Some lab) ws"

definition seen_as :: "string \<Rightarrow> string \<Rightarrow> Window list \<Rightarrow> nat" where
  "seen_as lab pred ws = length (filter (\<lambda>w. label_value (label (predicted w)) = pred) (labelled lab ws))"

definition columns_of :: "Window list \<Rightarrow> Columns" where
  "columns_of ws = [(''rms'', map (Some \<circ> rms \<circ> measured) ws), (''zcr'', map (zcr \<circ> measured) ws),
     (''flatness'', map (Some \<circ> flatness \<circ> measured) ws),
     (''tone_460_ratio'', map (Some \<circ> tone_460_ratio \<circ> measured) ws),
     (''quiet_frac'', map (Some \<circ> quiet_frac \<circ> measured) ws),
     (''env_cv'', map (Some \<circ> env_cv \<circ> measured) ws), (''mod_4hz'', map (Some \<circ> mod_4hz \<circ> measured) ws)]"

lemma append_features_columns: "append_features (measured w) (columns_of ws) = columns_of (ws @ [w])"
  by (simp add: append_features_def feature_items_def columns_of_def)

lemma fresh_columns: "map (\<lambda>(k, v). (k, [])) (feature_items f) = columns_of []"
  by (simp add: feature_items_def columns_of_def)

lemma add_features_lookup:
  "map_of (add_features lab f tbl) = (map_of tbl)(lab \<mapsto> append_features f
     (case map_of tbl lab of None \<Rightarrow> columns_of [] | Some d \<Rightarrow> d))"
  by (auto simp: add_features_def fresh_columns map_of_map_entry update_conv' fun_eq_iff Let_def split: option.splits)

lemma labelled_snoc: "labelled lab (ws @ [w]) = labelled lab ws @ (if truth w = Some lab then [w] else [])"
  by (simp add: labelled_def)

lemma seen_as_snoc: "seen_as lab pred (ws @ [w]) = seen_as lab pred ws
    + (if truth w = Some lab \<and> label_value (label (predicted w)) = pred then 1 else 0)"
  by (simp add: seen_as_def labelled_snoc)

text \<open>
  The two dictionaries the loop builds: a named label's columns are the features of the windows
  with that ground truth, in the order of the recording, and the count of a pair is the number
  of windows with that ground truth and that verdict.
\<close>

lemma tally_tables:
  assumes "lab \<noteq> []"
  shows "map_of (fst (fold tally ws ([], []))) lab
      = (if labelled lab ws = [] then None else Some (columns_of (labelled lab ws)))
    \<and> map_of (snd (fold tally ws ([], []))) (lab, pred)
      = (if seen_as lab pred ws = 0 then None else Some (seen_as lab pred ws))"
proof (induction ws rule: rev_induct)
  case Nil
  then show ?case by (simp add: labelled_def seen_as_def)
next
  case (snoc w ws)
  show ?case
  proof (cases "truth w")
    case None
    with snoc show ?thesis by (simp add: tally_def labelled_snoc seen_as_snoc)
  next
    case (Some lab')
    show ?thesis
    proof (cases "lab' = []")
      case True
      with Some snoc assms show ?thesis by (simp add: tally_def labelled_snoc seen_as_snoc)
    next
      case False
      with Some snoc assms show ?thesis
        by (auto simp: tally_def labelled_snoc seen_as_snoc add_features_lookup count_up_lookup
            append_features_columns append_features_columns [of w "[]", simplified])
    qed
  qed
qed

lemma update_keys: "distinct (map fst d) \<Longrightarrow> distinct (map fst (AList.update k v d))"
  "set (map fst (AList.update k v d)) = insert k (set (map fst d))"
  by (simp_all add: distinct_update dom_update)

lemma map_entry_keys [simp]: "map fst (AList.map_entry k g d) = map fst d"
  by (induction d) auto

lemma tally_keys:
  "distinct (map fst (fst (fold tally ws ([], [])))) \<and> distinct (map fst (snd (fold tally ws ([], []))))
    \<and> [] \<notin> set (map fst (fst (fold tally ws ([], []))))
    \<and> (\<forall>k\<in>set (map fst (snd (fold tally ws ([], [])))). fst k \<noteq> [])"
proof (induction ws rule: rev_induct)
  case (snoc w ws)
  then show ?case
    by (auto simp: tally_def add_features_def count_up_def Let_def update_keys simp del: set_map split: option.split)
qed simp

lemmas tally_distinct = tally_keys [THEN conjunct1] tally_keys [THEN conjunct2, THEN conjunct1]

lemmas tally_named = tally_keys [THEN conjunct2, THEN conjunct2, THEN conjunct1]
  tally_keys [THEN conjunct2, THEN conjunct2, THEN conjunct2]

lemma in_table_iff: "distinct (map fst d) \<Longrightarrow> (k, v) \<in> set d \<longleftrightarrow> map_of d k = Some v"
  by (metis map_of_SomeD map_of_eq_Some_iff)

lemma in_table_key: "(k, v) \<in> set d \<Longrightarrow> k \<in> set (map fst d)"
  by force

lemma label_rows:
  "(lab, cols) \<in> set (fst (fold tally ws ([], [])))
    \<longleftrightarrow> lab \<noteq> [] \<and> labelled lab ws \<noteq> [] \<and> cols = columns_of (labelled lab ws)"
proof (cases "lab = []")
  case True
  with tally_named(1) [of ws] show ?thesis by (auto dest: in_table_key)
next
  case False
  let ?d = "fst (fold tally ws ([], []))"
  have "(lab, cols) \<in> set ?d \<longleftrightarrow> map_of ?d lab = Some cols"
    by (rule in_table_iff [OF tally_distinct(1)])
  also have "\<dots> \<longleftrightarrow> labelled lab ws \<noteq> [] \<and> cols = columns_of (labelled lab ws)"
    unfolding tally_tables [OF False, THEN conjunct1] by auto
  finally show ?thesis using False by blast
qed

lemma confusion_rows:
  "((lab, pred), n) \<in> set (snd (fold tally ws ([], [])))
    \<longleftrightarrow> lab \<noteq> [] \<and> 0 < n \<and> n = seen_as lab pred ws"
proof (cases "lab = []")
  case True
  with tally_named(2) [of ws] show ?thesis by (auto dest: in_table_key)
next
  case False
  let ?d = "snd (fold tally ws ([], []))"
  have "((lab, pred), n) \<in> set ?d \<longleftrightarrow> map_of ?d (lab, pred) = Some n"
    by (rule in_table_iff [OF tally_distinct(2)])
  also have "\<dots> \<longleftrightarrow> 0 < n \<and> n = seen_as lab pred ws"
    unfolding tally_tables [OF False, THEN conjunct2] by auto
  finally show ?thesis using False by blast
qed

text \<open>Every window of a label is counted under one verdict.\<close>

lemma verdicts_add_up: "(\<Sum>l\<in>UNIV. seen_as lab (label_value l) ws) = length (labelled lab ws)"
proof -
  have "(\<Sum>l\<in>UNIV. length (filter (\<lambda>w. label_value (label (predicted w)) = label_value l) vs)) = length vs" for vs
  proof (induction vs)
    case (Cons v vs)
    have "(\<Sum>l\<in>UNIV. length (filter (\<lambda>w. label_value (label (predicted w)) = label_value l) (v # vs)))
      = (\<Sum>l\<in>UNIV. (if label (predicted v) = l then 1 else 0)
           + length (filter (\<lambda>w. label_value (label (predicted w)) = label_value l) vs))"
      by (rule sum.cong) simp_all
    with Cons show ?case by (simp add: sum.distrib)
  qed simp
  then show ?thesis by (simp add: seen_as_def)
qed

section \<open>What is analysed\<close>

lemma those_Some_iff: "those xs = None \<longleftrightarrow> None \<in> set xs"
  by (induction xs) (auto split: option.splits)

lemma window_analysed: "0 < sr \<Longrightarrow> analyse_window samples sr win segments start \<noteq> None"
  by (simp add: analyse_window_def heuristic_classify_def acoustic_features_def Let_def split: prod.split)

lemma hop_of_div: "hop_of sett sr = sr * classifier_interval_ms sett div 1000"
proof -
  have "\<lfloor>of_nat (sr * classifier_interval_ms sett) / 1000 :: real\<rfloor> = int (sr * classifier_interval_ms sett div 1000)"
    using floor_divide_of_nat_eq [of "sr * classifier_interval_ms sett" 1000, where ?'a = real] by simp
  then show ?thesis by (simp add: hop_of_def py_int_def)
qed

lemma windows_analysed:
  "(\<exists>x. analyse_windows sett samples sr segments = Inl x) \<longleftrightarrow> sr * classifier_interval_ms sett < 1000"
proof (cases "hop_of sett sr = 0")
  case True
  then show ?thesis by (simp add: analyse_windows_def hop_of_div div_eq_0_iff)
next
  case False
  then have "0 < sr" by (cases sr) (simp_all add: hop_of_div)
  then have "None \<notin> set (map (analyse_window samples sr (window_of sett sr) segments) starts)" for starts
    using window_analysed by (metis (no_types, lifting) ex_map_conv)
  then have "those (map (analyse_window samples sr (window_of sett sr) segments) starts) \<noteq> None" for starts
    by (simp only: those_Some_iff not_False_eq_True)
  then show ?thesis using False
    by (simp add: analyse_windows_def hop_of_div div_eq_0_iff split: option.split)
qed

text \<open>
  The tool fails on a malformed ground truth and on a recording whose rate makes the hop shorter
  than a sample, and on nothing else.
\<close>

theorem analysis_fails_iff:
  "(\<exists>x. analyze_audio sett (samples, sr) spec quiet = Inl x)
    \<longleftrightarrow> spec \<noteq> [] \<and> parse_segments spec = None \<or> sr * classifier_interval_ms sett < 1000"
proof (cases "if spec = [] then Some [] else parse_segments spec")
  case None
  then show ?thesis by (simp add: analyze_audio_def split: if_splits)
next
  case (Some segments)
  then have "\<not> (spec \<noteq> [] \<and> parse_segments spec = None)" by (auto split: if_splits)
  with Some windows_analysed [of sett samples sr segments] show ?thesis
    by (auto simp: analyze_audio_def split: sum.splits)
qed

text \<open>
  The windows start a hop apart from the beginning; each lies in the recording, and what is left
  after the last one is less than a hop. A recording shorter than a window is one window.
\<close>

theorem windows_cover_recording:
  assumes "0 < hop"
  shows "window_starts len win hop = map (\<lambda>k. k * hop) [0..<length (window_starts len win hop)]"
    and "window_starts len win hop \<noteq> []"
    and "win \<le> len \<Longrightarrow> last (window_starts len win hop) + win \<le> len"
    and "win \<le> len \<Longrightarrow> len < last (window_starts len win hop) + win + hop"
    and "len < win \<Longrightarrow> window_starts len win hop = [0]"
proof -
  let ?m = "max 1 (len + 1 - win)"
  let ?n = "(?m + hop - 1) div hop"
  have n: "?n = Suc ((?m - 1) div hop)"
  proof -
    have "?m + hop - 1 = (?m - 1) + hop" by simp
    then show ?thesis using assms by (simp only: div_add_self2)
  qed
  show "window_starts len win hop = map (\<lambda>k. k * hop) [0..<length (window_starts len win hop)]"
    by (simp add: window_starts_def)
  show "window_starts len win hop \<noteq> []" unfolding window_starts_def n by simp
  have last: "last (window_starts len win hop) = (?m - 1) div hop * hop"
    unfolding window_starts_def n by simp
  have bounds: "(len - win) div hop * hop \<le> len - win" "len - win < (len - win) div hop * hop + hop"
    by (rule div_times_less_eq_dividend) (use dividend_less_div_times [OF assms, of "len - win"] in simp)
  show "last (window_starts len win hop) + win \<le> len" "len < last (window_starts len win hop) + win + hop"
    if "win \<le> len"
  proof -
    from that have "?m - 1 = len - win" by simp
    with last have "last (window_starts len win hop) = (len - win) div hop * hop" by (simp only:)
    with bounds that show "last (window_starts len win hop) + win \<le> len"
      "len < last (window_starts len win hop) + win + hop" by linarith+
  qed
  show "len < win \<Longrightarrow> window_starts len win hop = [0]"
    unfolding window_starts_def n by simp
qed


lemma silent_windows:
  "analyse_windows default_Settings [] 8000 [(Fin 0, Fin 1, ''SILENCE'')]
    = Inr [\<lparr>start_s = 0, truth = Some ''SILENCE'',
         predicted = \<lparr>label = SILENCE, confidence = 9 / 10, features = feature_list EMPTY_FEATURES\<rparr>,
         measured = EMPTY_FEATURES\<rparr>]"
  by (simp add: analyse_windows_def hop_of_div default_Settings_def window_starts_def analyse_window_def
      acoustic_features_def heuristic_classify_def decide_def SILENCE_RMS_def EMPTY_FEATURES_def)

lemma parse_example: "parse_segments ''0:1=SILENCE'' = Some [(Fin 0, Fin 1, ''SILENCE'')]"
proof -
  have "show_nat 0 = ''0''" "show_nat 1 = ''1''" by code_simp+
  then have "float_of_text ''0'' = Some (Fin 0)" "float_of_text ''1'' = Some (Fin 1)"
    using float_of_show_nat [of 0] float_of_show_nat [of 1] by simp_all
  moreover have "str_strip ''SILENCE'' = ''SILENCE''" by code_simp
  ultimately show ?thesis by (simp add: parse_segments_def parse_segment_def)
qed


section \<open>The ground truth of a schedule\<close>

text \<open>A schedule as it is written on the command line, its times in whole seconds.\<close>

definition segment_text :: "Label \<times> nat \<times> nat \<Rightarrow> string" where
  "segment_text seg = (case seg of (l, a, b) \<Rightarrow> show_nat a @ CHR '':'' # show_nat b @ CHR ''='' # label_value l)"

definition schedule_text :: "(Label \<times> nat \<times> nat) list \<Rightarrow> string" where
  "schedule_text segs = str_join CHR '','' (map segment_text segs)"

lemma label_value_plain:
  "CHR '','' \<notin> set (label_value l)" "CHR ''='' \<notin> set (label_value l)" "\<forall>c\<in>set (label_value l). \<not> is_space c"
  by (cases l; simp add: is_space_def)+

lemma parse_segment_text: "parse_segment (segment_text (l, a, b)) = Some (Fin (of_nat a), Fin (of_nat b), label_value l)"
proof -
  have "CHR ''='' \<notin> set (show_nat a @ CHR '':'' # show_nat b)" "CHR ''='' \<notin> set (label_value l)"
    by (simp_all add: show_nat_separators label_value_plain)
  then have "str_split CHR ''='' (segment_text (l, a, b)) = [show_nat a @ CHR '':'' # show_nat b, label_value l]"
    using str_split_first [of "CHR ''=''" "show_nat a @ CHR '':'' # show_nat b" "label_value l"]
    by (simp add: segment_text_def)
  moreover have "str_strip (label_value l) = label_value l"
    using label_value_plain(3) by (rule strip_solid)
  ultimately show ?thesis by (simp add: parse_segment_def show_nat_separators)
qed

lemma segment_text_no_comma: "CHR '','' \<notin> set (segment_text seg)"
  by (simp add: segment_text_def show_nat_separators label_value_plain split: prod.split)

lemma those_map_Some: "(\<And>x. x \<in> set xs \<Longrightarrow> f x = Some (g x)) \<Longrightarrow> those (map f xs) = Some (map g xs)"
  by (induction xs) auto

text \<open>
  A schedule written as the tool's ground truth is read back exactly, and the label the tool
  then takes for a time is the label the scripted classifier answers at that time.
\<close>

theorem ground_truth_roundtrip:
  assumes "segs \<noteq> []"
  shows "parse_segments (schedule_text segs) = Some (map (\<lambda>(l, a, b). (Fin (of_nat a), Fin (of_nat b), label_value l)) segs)
    \<and> label_at t (the (parse_segments (schedule_text segs)))
      = map_option label_value (lookup_label t (map (\<lambda>(l, a, b). \<lparr>scheduled = l, t0 = of_nat a, t1 = of_nat b\<rparr>) segs))"
proof -
  have "str_split CHR '','' (schedule_text segs) = map segment_text segs"
    unfolding schedule_text_def using assms segment_text_no_comma by (intro split_join) auto
  then have parse: "parse_segments (schedule_text segs) = Some (map (\<lambda>(l, a, b). (Fin (of_nat a), Fin (of_nat b), label_value l)) segs)"
    by (simp add: parse_segments_def del: map_map)
      (auto simp: parse_segment_text comp_def intro!: those_map_Some split: prod.split)
  moreover have "label_at t (map (\<lambda>(l, a, b). (Fin (of_nat a), Fin (of_nat b), label_value l)) segs)
      = map_option label_value (lookup_label t (map (\<lambda>(l, a, b). \<lparr>scheduled = l, t0 = of_nat a, t1 = of_nat b\<rparr>) segs))"
    by (induction segs) auto
  ultimately show ?thesis by simp
qed

theorem ground_truth_roundtrip_witness:
  "parse_segments (schedule_text [(RINGBACK, 0, 7), (MENU_SPEAKING, 7, 38)])
    = Some [(Fin 0, Fin 7, ''RINGBACK''), (Fin 7, Fin 38, ''MENU_SPEAKING'')]"
  using ground_truth_roundtrip [of "[(RINGBACK, 0, 7), (MENU_SPEAKING, 7, 38)]" 0] by simp

end
