(* ===== verification/Realtime_Wire.thy ===== *)
theory Realtime_Wire
  imports Tier2_Props
begin

text \<open>
  The realtime model's wire, \<open>realtime/client.py\<close> and \<open>realtime/stream.py\<close>: the wording of the
  prompts, the JSON of the requests and of the events, the deadlines of the exchanges, and the
  implementations of the \<open>Tier2\<close> protocol as objects. A message is its parsed JSON; a message that
  is no JSON is an exception of the socket. Text is UTF-8, one character a byte.
\<close>

section \<open>The prompts\<close>

definition newline :: string where
  "newline = [CHR 0x0A]"

definition menu_instructions :: "string option \<Rightarrow> string" where
  "menu_instructions goal_text =
     (let goal_line = (case goal_text of
            None \<Rightarrow> ''The caller wants to reach a human agent.''
          | Some g \<Rightarrow> if g = [] then ''The caller wants to reach a human agent.''
              else ''The caller's goal: '' @ g @ ''.'')
      in ''You are a DTMF dialer for a phone menu (IVR). '' @ goal_line @ '' The caller speaks English.''
        @ newline @ ''You are given a recording of what the line just said. Pick the keypad key whose ''
        @ ''spoken option best matches the goal. If an option is phrased '<description> or ''
        @ ''press N' and the description fits, use N. Prefer an agent / representative / ''
        @ ''operator option when nothing matches better.'' @ newline
        @ ''Language prompts: choose the English option. If English is the default (e.g. '' @ [quote_mark]
        @ ''for French press 2'' @ [quote_mark] @ '' with no key for English), use '' @ [quote_mark]
        @ [quote_mark] @ ''.'' @ newline
        @ ''Data entry: if the line asks you to ENTER a number (account number, member ID, ''
        @ ''meeting ID, zip, extension) and that exact number appears in the goal, return ''
        @ ''those digits '' @ em_dash @ '' add '' @ [quote_mark] @ ''#'' @ [quote_mark]
        @ '' only if it says '' @ [quote_mark] @ ''followed by pound'' @ [quote_mark]
        @ ''. Never invent digits that are not in the goal.'' @ newline @ ''Otherwise use '' @ [quote_mark]
        @ [quote_mark] @ '': no stated option fits, none were given, it asks you to speak, or it is hold ''
        @ ''music / an after-hours message.'' @ newline
        @ ''Output EXACTLY ONE LINE of JSON and NOTHING else '' @ em_dash
        @ '' no prose, no code fences, never ask a question:'' @ newline @ ''{'' @ [quote_mark] @ ''digit''
        @ [quote_mark] @ '': '' @ [quote_mark] @ ''<one key 0-9 * #, or the digits to enter, or empty>''
        @ [quote_mark] @ '', '' @ [quote_mark] @ ''rationale'' @ [quote_mark] @ '': '' @ [quote_mark]
        @ ''<=12 words>'' @ [quote_mark] @ ''}'')"

definition PROBE_SYSTEM :: string where
  "PROBE_SYSTEM =
     ''You screen a phone line for a call-routing system. You never hold a ''
     @ ''conversation. You do two things only, when told to: (1) say one short greeting ''
     @ ''out loud; (2) classify a few seconds of what the line said back. The ''
     @ ''classification is exactly one line: 'VERDICT HUMAN' if a live person is ''
     @ ''speaking to you (a greeting, a question, asking who is calling), or 'VERDICT ''
     @ ''NOT HUMAN' for silence, hold music, ringing, tones, beeps, or a recorded ''
     @ ''message / IVR menu.''"

definition GREETING :: string where
  "GREETING =
     ''Say just this, calmly, and nothing else: '' @ [quote_mark]
     @ ''Hi, this is an assistant calling '' @ em_dash @ '' is someone there?'' @ [quote_mark]"

definition JUDGE :: string where
  "JUDGE =
     ''Classify ONLY what you heard since your greeting. Reply with exactly 'VERDICT ''
     @ ''HUMAN' or 'VERDICT NOT HUMAN' '' @ em_dash @ '' no other words.''"

definition SPEAK_SYSTEM :: string where
  "SPEAK_SYSTEM =
     ''You are a text-to-speech voice for a call-routing assistant. When told to say ''
     @ ''something, say exactly that once, calmly and naturally, then stop. Never add ''
     @ ''words of your own and never wait for a reply.''"

fun prompt_text :: "Prompt \<Rightarrow> string" where
  "prompt_text (MenuInstructions g) = menu_instructions g"
| "prompt_text ProbeSystem = PROBE_SYSTEM"
| "prompt_text Greeting = GREETING"
| "prompt_text Judge = JUDGE"
| "prompt_text SpeakSystem = SPEAK_SYSTEM"
| "prompt_text (SayExactly line) = ''Say exactly this, once: '' @ quoted line"

section \<open>The requests\<close>

definition audio_json :: "SessionConfig \<Rightarrow> (string \<times> Json) list" where
  "audio_json c =
     (case input_format c of None \<Rightarrow> []
        | Some f \<Rightarrow> [(''input'', JObj [(''format'', JObj [(''type'', JStr f)]), (''turn_detection'', JNull)])])
     @ (case output_voice c of None \<Rightarrow> []
        | Some (f, v) \<Rightarrow> [(''output'', JObj [(''format'', JObj [(''type'', JStr f)]), (''voice'', JStr v)])])"

fun request_json :: "rt_request \<Rightarrow> Json" where
  "request_json (SessionUpdate c) = JObj [(''type'', JStr ''session.update''),
     (''session'', JObj [(''type'', JStr ''realtime''), (''instructions'', JStr (prompt_text (instructions c))),
        (''output_modalities'', JList (map JStr (output_modalities c))), (''audio'', JObj (audio_json c))])]"
| "request_json (AppendAudio b) = JObj [(''type'', JStr ''input_audio_buffer.append''), (''audio'', JStr b)]"
| "request_json CommitAudio = JObj [(''type'', JStr ''input_audio_buffer.commit'')]"
| "request_json (CreateResponse mods ins) = JObj ([(''type'', JStr ''response.create'')]
     @ (if mods = None \<and> ins = None then []
        else [(''response'', JObj ((case mods of None \<Rightarrow> [] | Some ms \<Rightarrow> [(''output_modalities'', JList (map JStr ms))])
          @ (case ins of None \<Rightarrow> [] | Some p \<Rightarrow> [(''instructions'', JStr (prompt_text p))])))]))"

section \<open>The events\<close>

definition typed :: "Json \<Rightarrow> string \<Rightarrow> bool" where
  "typed evt ty \<longleftrightarrow> json_get evt ''type'' = Some (JStr ty)"

text \<open>\<open>evt.get(key, "")\<close> where a string is needed.\<close>

definition str_field :: "Json \<Rightarrow> string \<Rightarrow> string option" where
  "str_field evt k = (case json_get evt k of None \<Rightarrow> Some [] | Some (JStr s) \<Rightarrow> Some s | _ \<Rightarrow> None)"

definition delta_of :: "Json \<Rightarrow> string option" where
  "delta_of evt = (case json_get evt ''delta'' of Some (JStr s) \<Rightarrow> Some s | _ \<Rightarrow> None)"

definition is_object :: "Json \<Rightarrow> bool" where
  "is_object j = (case j of JObj _ \<Rightarrow> True | _ \<Rightarrow> False)"

text \<open>What the probe's loop reads of an event; \<open>None\<close> is an exception.\<close>

definition read_probe_event :: "Json \<Rightarrow> rt_event option" where
  "read_probe_event evt =
     (if \<not> is_object evt then None
      else if typed evt ''response.output_audio.delta'' then Some (AudioDelta (delta_of evt))
      else if typed evt ''response.output_audio_transcript.delta'' then map_option TranscriptDelta (str_field evt ''delta'')
      else if typed evt ''response.output_text.delta'' then map_option OutputTextDelta (str_field evt ''delta'')
      else if typed evt ''response.text.delta'' then map_option TextDelta (str_field evt ''delta'')
      else if typed evt ''error'' then Some ErrorEvent
      else Some OtherEvent)"

definition read_speak_event :: "Json \<Rightarrow> rt_event option" where
  "read_speak_event evt =
     (if \<not> is_object evt then None
      else if typed evt ''response.output_audio.delta'' then Some (AudioDelta (delta_of evt))
      else if typed evt ''response.done'' then Some (ResponseDone [])
      else if typed evt ''response.output_audio.done'' then Some OutputAudioDone
      else if typed evt ''error'' then Some ErrorEvent
      else Some OtherEvent)"

text \<open>The events read of the messages, and how the conversation then ends.\<close>

definition conversation :: "(Json \<Rightarrow> rt_event option) \<Rightarrow> Json list \<Rightarrow> ws_end \<Rightarrow> rt_event list \<times> ws_end" where
  "conversation rd msgs fin = (map (the \<circ> rd) (takeWhile (\<lambda>j. rd j \<noteq> None) msgs),
     if list_all (\<lambda>j. rd j \<noteq> None) msgs then fin else Raises (OtherException ''bad event''))"

text \<open>
  \<open>asyncio.timeout\<close>: messages come with the time since the exchange began; one that comes at the
  deadline or later is not read.
\<close>

definition before_deadline :: "py_float \<Rightarrow> (py_float \<times> Json) list \<Rightarrow> py_float \<times> ws_end \<Rightarrow> Json list \<times> ws_end" where
  "before_deadline timeout msgs fin = (map snd (takeWhile (\<lambda>m. fst m < timeout) msgs),
     if list_all (\<lambda>m. fst m < timeout) msgs \<and> fst fin < timeout then snd fin else NetworkError)"

definition probe_exchange ::
  "py_float \<Rightarrow> (py_float \<times> Json) list \<Rightarrow> py_float \<times> ws_end \<Rightarrow> (exn + Tier2Value) \<times> sample list list" where
  "probe_exchange timeout msgs fin =
     (let (js, f) = before_deadline timeout msgs fin; (es, f') = conversation read_probe_event js f
      in probe_loop [] False es f')"

definition speak_exchange ::
  "py_float \<Rightarrow> (py_float \<times> Json) list \<Rightarrow> py_float \<times> ws_end \<Rightarrow> (exn + unit) \<times> sample list list" where
  "speak_exchange timeout msgs fin =
     (let (js, f) = before_deadline timeout msgs fin; (es, f') = conversation read_speak_event js f
      in speak_loop es f')"

text \<open>
  \<open>RealtimeClient._run\<close>: the coroutine would take \<open>duration\<close> seconds and end with \<open>out\<close>; when
  it is cancelled at the timeout, it takes \<open>wind_up\<close> seconds more to end. The result, and how long
  the caller is blocked.
\<close>

definition run_exchange :: "py_float \<Rightarrow> py_float \<Rightarrow> py_float \<Rightarrow> exn + 'a option \<Rightarrow> 'a option \<times> py_float" where
  "run_exchange timeout duration wind_up out =
     (let in_time = duration < timeout;
          ends = (if in_time then duration else timeout + wind_up);
          box = (if in_time then (case out of Inr v \<Rightarrow> v | Inl _ \<Rightarrow> None) else None)
      in (if ends \<le> timeout + 5 then box else None, min ends (timeout + 5)))"

section \<open>The protocol and its implementations\<close>

record 'w Tier2 =
  choose_menu_digit :: "sample list \<Rightarrow> nat \<Rightarrow> string option \<Rightarrow> ('w, Tier2Value) proc"
  tier2_probe :: "sample list \<Rightarrow> nat \<Rightarrow> ('w, Tier2Value) proc"
  say_to_agent :: "string \<Rightarrow> ('w, unit) proc"
  close_tier2 :: "('w, unit) proc"

record RealtimeClient =
  api_key :: string
  menu_model :: string
  timeout_s :: py_float

definition new_RealtimeClient :: "string \<Rightarrow> string option \<Rightarrow> py_float option \<Rightarrow> RealtimeClient" where
  "new_RealtimeClient key model timeout =
     \<lparr>api_key = key, menu_model = (case model of None \<Rightarrow> ''gpt-realtime'' | Some s \<Rightarrow> s),
      timeout_s = (case timeout of None \<Rightarrow> 10 | Some t \<Rightarrow> t)\<rparr>"

text \<open>The URL connected to, and the header sent with it.\<close>

definition connect_to :: "string \<Rightarrow> string \<Rightarrow> string \<times> string" where
  "connect_to model key = (''wss://api.openai.com/v1/realtime?model='' @ model, ''Bearer '' @ key)"

definition realtime_tier2 :: "'w Net \<Rightarrow> 'w Tier2" where
  "realtime_tier2 net = \<lparr>choose_menu_digit = realtime_choose net, tier2_probe = realtime_probe,
     say_to_agent = (\<lambda>line. raise NotImplementedError), close_tier2 = ret ()\<rparr>"

definition StreamingProbe :: "'w Tier2 \<Rightarrow> ('w, Tier2Value) proc \<Rightarrow> 'w Tier2" where
  "StreamingProbe inner run = \<lparr>choose_menu_digit = choose_menu_digit inner, tier2_probe = streaming_probe run,
     say_to_agent = say_to_agent inner, close_tier2 = close_tier2 inner\<rparr>"

definition fake_tier2 :: "FakeTier2 Tier2" where
  "fake_tier2 = \<lparr>choose_menu_digit = fake_choose, tier2_probe = fake_probe,
     say_to_agent = (\<lambda>line. modify (fake_say line)), close_tier2 = modify fake_close\<rparr>"

section \<open>The contract on the objects\<close>

text \<open>Whatever keeps the contract keeps it behind the streaming probe.\<close>

context tier2_contract begin

lemma wrapped_contract:
  "choose_menu_digit t = ask \<Longrightarrow>
    tier2_contract (choose_menu_digit (StreamingProbe t run)) (tier2_probe (StreamingProbe t run)) usable"
  by unfold_locales
    (auto simp: StreamingProbe_def streaming_probe_def intro: choose_fits
      split: prod.splits sum.splits Tier2Value.splits if_splits)

end

interpretation wire: tier2_contract "choose_menu_digit (StreamingProbe (realtime_tier2 net) run)"
  "tier2_probe (StreamingProbe (realtime_tier2 net) run)" "\<lambda>_. True"
  for net :: "'w Net" and run :: "('w, Tier2Value) proc"
  by (rule turn_based.wrapped_contract) (simp add: realtime_tier2_def)

text \<open>A decision the client returns was made in time, and waiting for it is bounded.\<close>

lemma run_exchange_bounded: "snd (run_exchange timeout duration wind_up out) \<le> timeout + 5"
  by (simp add: run_exchange_def Let_def)

lemma run_exchange_answer:
  "fst (run_exchange timeout duration wind_up out) = Some v \<longleftrightarrow> duration < timeout \<and> out = Inr (Some v)"
  by (auto simp: run_exchange_def Let_def split: sum.split)

section \<open>Deadlines and verdicts\<close>

text \<open>
  [C15] The probe's answer is what was said before its deadline. Take an exchange that is still
  going on at the deadline: the first verdict in the text read of the messages that came before
  it is the outcome, whatever comes later; without one the probe is unavailable, which the breaker
  counts, and no human is reported.
\<close>

theorem probe_decided_by_deadline:
  assumes "timeout \<le> fst fin"
    "heard = fst (conversation read_probe_event (map snd (takeWhile (\<lambda>m. fst m < timeout) msgs)) NetworkError)"
    "\<forall>d. AudioDelta d \<in> set heard \<longrightarrow> delta_audio d \<noteq> None"
  shows "case verdict_search (text_of heard) of
      Some v \<Rightarrow> \<exists>t. fst (tier2_probe (StreamingProbe inner (\<lambda>w. (fst (probe_exchange timeout msgs fin), w))) audio sr w)
          = Inr (ProbeOutcome v t True)
    | None \<Rightarrow> \<exists>m. fst (tier2_probe (StreamingProbe inner (\<lambda>w. (fst (probe_exchange timeout msgs fin), w))) audio sr w)
          = Inl (Tier2Unavailable m)"
proof -
  let ?js = "map snd (takeWhile (\<lambda>m. fst m < timeout) msgs)"
  obtain f where f: "conversation read_probe_event ?js NetworkError = (heard, f)" "f \<noteq> Closes"
    "\<forall>x. f = Raises x \<longrightarrow> is_Exception x"
    using assms(2) by (auto simp: conversation_def)
  have "before_deadline timeout msgs fin = (?js, NetworkError)"
    using assms(1) by (simp add: before_deadline_def)
  then have run: "probe_exchange timeout msgs fin = probe_loop [] False heard f"
    using f(1) by (simp add: probe_exchange_def)
  have "playable heard" using assms(3) by (simp add: playable_def)
  then have "probe_spec (text_of heard) (ErrorEvent \<in> set heard) f (fst (probe_loop [] False heard f))"
    using probe_loop_spec [of "[]" heard f False] by simp
  then show ?thesis
    using f(2,3)
    by (auto simp: run StreamingProbe_def probe_spec_def streaming_probe_def
        split: option.splits ws_end.splits if_splits)
qed

lemma spoken_message:
  "read_probe_event (JObj [(''type'', JStr ''response.output_audio_transcript.delta''), (''delta'', JStr t)])
    = Some (TranscriptDelta t)"
  by (simp add: read_probe_event_def is_object_def typed_def str_field_def)

theorem probe_decided_by_deadline_witness:
  "\<exists>m. fst (tier2_probe (StreamingProbe fake_tier2 (\<lambda>w. (fst (probe_exchange 15
      [(3, JObj [(''type'', JStr ''response.output_audio_transcript.delta''), (''delta'', JStr ''Hi. '')]),
       (16, JObj [(''type'', JStr ''response.output_audio_transcript.delta''), (''delta'', JStr ''VERDICT HUMAN'')])]
      (20, Closes)), w))) [] 8000 new_FakeTier2) = Inl (Tier2Unavailable m)"
proof -
  let ?m = "\<lambda>t. JObj [(''type'', JStr ''response.output_audio_transcript.delta''), (''delta'', JStr t)]"
  let ?msgs = "[(3 :: py_float, ?m ''Hi. ''), (16, ?m ''VERDICT HUMAN'')]"
  have heard: "[TranscriptDelta ''Hi. ''] = fst (conversation read_probe_event
      (map snd (takeWhile (\<lambda>m. fst m < 15) ?msgs)) NetworkError)"
    by (simp add: conversation_def spoken_message)
  have "verdict_search (text_of [TranscriptDelta ''Hi. '']) = None" by code_simp
  with probe_decided_by_deadline [of 15 "(20, Closes)", OF _ heard] show ?thesis by auto
qed

lemma human_was_said:
  "fst (probe_loop said judging es fin) = Inr (ProbeOutcome True t ok) \<Longrightarrow> verdict_search (said @ text_of es) = Some True"
proof (induction es arbitrary: said judging)
  case Nil
  then show ?case by (auto simp: verdict_from_text_def split: ws_end.splits)
next
  case (Cons e es)
  have decided: "verdict_search (said @ u @ text_of es) = Some True"
    if "verdict_from_text (said @ u) = ProbeOutcome True t ok" for u
    using that verdict_stable [of "said @ u" True "text_of es"] by (simp add: verdict_from_text_def)
  note goes_on = Cons.IH [of "said @ u" for u, simplified]
  show ?case
    using Cons.prems decided goes_on decided [of "[]"] goes_on [of "[]"]
    by (cases e) (auto simp: Let_def case_prod_beta verdict_from_text_def split: if_splits option.splits)
qed

text \<open>
  [C14] A human is reported only when the model said so in time: if a probe job that runs through the
  breaker and the streaming probe returns a human, the first verdict in the text of the messages
  that came before the deadline is HUMAN, however the exchange ended.
\<close>

theorem human_needs_spoken_verdict:
  assumes "breaker_call t0 t1 (run_job ask (tier2_probe (StreamingProbe inner
      (\<lambda>w. (fst (probe_exchange timeout msgs fin), w)))) (RunProbe audio sr)) (b, w) = (Inr (ProbeOutcome True t ok), bw)"
  shows "verdict_search (text_of (fst (conversation read_probe_event
      (map snd (takeWhile (\<lambda>m. fst m < timeout) msgs)) Closes))) = Some True"
proof -
  let ?js = "map snd (takeWhile (\<lambda>m. fst m < timeout) msgs)"
  have "fst (probe_exchange timeout msgs fin) = Inr (ProbeOutcome True t ok)"
    using assms
    by (auto simp: breaker_call_def run_job_def StreamingProbe_def streaming_probe_def
        split: prod.splits sum.splits Tier2Value.splits if_splits)
  moreover obtain f where "probe_exchange timeout msgs fin
      = probe_loop [] False (fst (conversation read_probe_event ?js Closes)) f"
    by (simp add: probe_exchange_def before_deadline_def conversation_def)
  ultimately show ?thesis using human_was_said [of "[]"] by simp
qed

theorem human_needs_spoken_verdict_witness:
  "verdict_search (text_of (fst (conversation read_probe_event (map snd (takeWhile (\<lambda>m. fst m < 15)
      [(6 :: py_float, JObj [(''type'', JStr ''response.output_audio_transcript.delta''), (''delta'', JStr ''VERDICT HUMAN'')])]))
      Closes))) = Some True"
proof -
  let ?msgs = "[(6 :: py_float, JObj [(''type'', JStr ''response.output_audio_transcript.delta''), (''delta'', JStr ''VERDICT HUMAN'')])]"
  have "verdict_search ''VERDICT HUMAN'' = Some True" by code_simp
  then have "fst (probe_exchange 15 ?msgs (7, Closes)) = Inr (ProbeOutcome True (take 200 (str_strip ''VERDICT HUMAN'')) True)"
    by (simp add: probe_exchange_def before_deadline_def conversation_def spoken_message Let_def verdict_from_text_def)
  then obtain bw where "breaker_call 0 0 (run_job fake_choose (tier2_probe (StreamingProbe fake_tier2
      (\<lambda>w. (fst (probe_exchange 15 ?msgs (7, Closes)), w)))) (RunProbe [] 8000)) (new_CircuitBreaker 3 30, new_FakeTier2)
      = (Inr (ProbeOutcome True (take 200 (str_strip ''VERDICT HUMAN'')) True), bw)"
    by (auto simp: breaker_call_def run_job_def StreamingProbe_def streaming_probe_def admit_def current_state_def
        new_CircuitBreaker_def)
  then show ?thesis by (rule human_needs_spoken_verdict)
qed

lemma no_v_before: "\<forall>c\<in>set s. lower c \<noteq> CHR ''v'' \<Longrightarrow> verdict_search (s @ u) = verdict_search u"
proof (induction s)
  case (Cons c s)
  have "verdict_at ((c # s) @ u) = None"
  proof (cases "verdict_at ((c # s) @ u)")
    case (Some b)
    then obtain d w r where "(c # s) @ u = d # w @ r" "lower d = CHR ''v''" by (rule verdict_at_word)
    with Cons.prems show ?thesis by auto
  qed
  with Cons show ?case by simp
qed simp

text \<open>
  [C39] The greeting said as it is told holds no verdict. The question does: a model that repeats
  it before it answers is read as having found a human, whatever the answer, because the question
  names that verdict first.
\<close>

theorem repeated_question_reads_as_human:
  "verdict_search GREETING = None
    \<and> fst (probe_loop [] False [TranscriptDelta GREETING, OutputTextDelta (JUDGE @ answer)] Closes)
      = Inr (ProbeOutcome True (take 200 (str_strip (GREETING @ JUDGE @ answer))) True)"
proof -
  have greeting: "\<forall>c\<in>set GREETING. lower c \<noteq> CHR ''v''" by code_simp
  obtain before question where judge: "JUDGE = before @ question"
    "\<forall>c\<in>set before. lower c \<noteq> CHR ''v''" "verdict_search question = Some True"
  proof
    show "JUDGE = take 69 JUDGE @ drop 69 JUDGE" by simp
    show "\<forall>c\<in>set (take 69 JUDGE). lower c \<noteq> CHR ''v''" by code_simp
    show "verdict_search (drop 69 JUDGE) = Some True" by code_simp
  qed
  have "verdict_search (GREETING @ JUDGE @ answer) = Some True"
    using no_v_before [OF greeting] no_v_before [OF judge(2)] verdict_stable [OF judge(3)]
    by (simp add: judge(1))
  then show ?thesis
    using no_v_no_verdict [OF greeting] by (simp add: verdict_from_text_def Let_def)
qed

end
