(* ===== verification/Check_Probe.thy ===== *)
theory Check_Probe
  imports Realtime_Wire Resample Py_Text
begin

text \<open>
  \<open>scripts/check_probe.py\<close>: the tool that runs one probe against the live model on a fixture, and
  its own reading of the events and of the verdict, compared with the shipped probe's. A message
  is its parsed JSON. The pauses of the feeder and printing are left out; the files read and
  written are the wave module's.
\<close>

section \<open>What it sends\<close>

definition PROBE_INSTRUCTIONS :: string where
  "PROBE_INSTRUCTIONS =
     ''You screen a phone line for a call-routing system. You never hold a ''
     @ ''conversation. You do two things only, when told to: (1) say the single word ''
     @ '''Hello?' out loud; (2) classify a short recording of what the line said back. ''
     @ ''Classification output is exactly one of these lines, spoken aloud, nothing ''
     @ ''else: 'VERDICT HUMAN' if a live person is talking (a greeting, a question, ''
     @ ''asking who's calling); 'VERDICT NOT HUMAN' for silence, hold music, ringing, ''
     @ ''beeps, or a recorded message / IVR menu.''"

definition load_ulaw :: "nat list \<Rightarrow> sample list \<times> nat \<Rightarrow> byte list option" where
  "load_ulaw order wav = map_option (pcm16_to_ulaw order) (resample (fst wav) (snd wav) 8000)"

definition pcmu_format :: "string \<times> Json" where
  "pcmu_format = (''format'', JObj [(''type'', JStr ''audio/pcmu'')])"

definition script_opening :: "Json list" where
  "script_opening =
     [JObj [(''type'', JStr ''session.update''),
        (''session'', JObj [(''type'', JStr ''realtime''), (''instructions'', JStr PROBE_INSTRUCTIONS),
           (''output_modalities'', JList [JStr ''audio'']),
           (''audio'', JObj [(''input'', JObj [pcmu_format, (''turn_detection'', JNull)]),
              (''output'', JObj [pcmu_format, (''voice'', JStr ''alloy'')])])])],
      JObj [(''type'', JStr ''response.create''),
        (''response'', JObj [(''instructions'', JStr (''Say just this and nothing more, in a calm voice: ''
           @ quoted (''Hi, this is an assistant calling '' @ em_dash @ '' is someone there?'')))])]]"

definition append_json :: "byte list \<Rightarrow> Json" where
  "append_json chunk = JObj [(''type'', JStr ''input_audio_buffer.append''), (''audio'', JStr (b64encode chunk))]"

text \<open>\<open>feed_after_hello\<close>: the fixture in chunks of 200 ms, then the question.\<close>

definition script_feed :: "byte list \<Rightarrow> Json list" where
  "script_feed ulaw = map append_json (slices (8000 div 5) ulaw)
     @ [JObj [(''type'', JStr ''input_audio_buffer.commit'')],
        JObj [(''type'', JStr ''response.create''),
          (''response'', JObj [(''output_modalities'', JList [JStr ''text'']),
             (''instructions'', JStr (''Classify ONLY the audio heard since your greeting. Reply with ''
                @ ''exactly 'VERDICT HUMAN' (a live person spoke to you) or 'VERDICT NOT HUMAN' ''
                @ ''(silence / music / ringing / tones / beeps / a recording). No other words.''))])]]"

section \<open>What it makes of the events\<close>

definition upper :: "char \<Rightarrow> char" where
  "upper c = (let n = of_char c :: nat in if 97 \<le> n \<and> n \<le> 122 then char_of (n - 32) else c)"

text \<open>The pattern \<open>VERDICT\<backslash>s+(NOT\<backslash>s+HUMAN|HUMAN)\<close> on text in upper case.\<close>

definition script_human_at :: "string \<Rightarrow> bool option" where
  "script_human_at s = (if starts_with ''NOT'' s then (case skip_seps is_space (drop 3 s) of
         Some r \<Rightarrow> if starts_with ''HUMAN'' r then Some False else None
       | None \<Rightarrow> None)
     else if starts_with ''HUMAN'' s then Some True else None)"

definition script_verdict_at :: "string \<Rightarrow> bool option" where
  "script_verdict_at s = (if starts_with ''VERDICT'' s
     then Option.bind (skip_seps is_space (drop 7 s)) script_human_at else None)"

fun script_search :: "string \<Rightarrow> bool option" where
  "script_search [] = None"
| "script_search (c # cs) = (case script_verdict_at (c # cs) of Some v \<Rightarrow> Some v | None \<Rightarrow> script_search cs)"

definition script_verdict :: "string \<Rightarrow> bool option" where
  "script_verdict text_out = script_search (map upper text_out)"

record ProbeLog =
  seen :: "(string \<times> nat) list"
  audio_out :: "byte list"
  text_out :: string

definition new_ProbeLog :: ProbeLog where
  "new_ProbeLog = \<lparr>seen = [], audio_out = [], text_out = []\<rparr>"

text \<open>\<open>evt.get("type", "?")\<close>; \<open>None\<close> where the script's use of it raises.\<close>

definition event_type :: "Json \<Rightarrow> string option" where
  "event_type evt = (if is_object evt then (case json_get evt ''type'' of
       None \<Rightarrow> Some ''?'' | Some (JStr s) \<Rightarrow> Some s | _ \<Rightarrow> None) else None)"

definition carries_audio :: "string \<Rightarrow> bool" where
  "carries_audio et \<longleftrightarrow> str_in ''audio'' et \<and> str_in ''delta'' et \<and> \<not> str_in ''transcript'' et"

definition carries_text :: "string \<Rightarrow> bool" where
  "carries_text et \<longleftrightarrow> str_in ''delta'' et \<and> (str_in ''text'' et \<or> str_in ''transcript'' et)"

text \<open>The body of the loop before the search for a verdict; \<open>None\<close> is an exception.\<close>

definition log_event :: "Json \<Rightarrow> ProbeLog \<Rightarrow> ProbeLog option" where
  "log_event evt l = (case event_type evt of
       None \<Rightarrow> None
     | Some et \<Rightarrow>
         let l' = l\<lparr>seen := count_up et (seen l)\<rparr>
         in if carries_audio et
            then map_option (\<lambda>bs. l'\<lparr>audio_out := audio_out l @ bs\<rparr>) (Option.bind (delta_of evt) b64decode)
            else if carries_text et
            then map_option (\<lambda>t. l'\<lparr>text_out := text_out l @ t\<rparr>) (str_field evt ''delta'')
            else Some l')"

text \<open>How the messages end: the peer closes, 25 seconds have passed, or an exception.\<close>

datatype ScriptEnd = PeerCloses | OutOfTime | Breaks exn

fun script_loop :: "ProbeLog \<Rightarrow> Json list \<Rightarrow> ScriptEnd \<Rightarrow> exn + bool option \<times> ProbeLog" where
  "script_loop l [] fin = (case fin of Breaks x \<Rightarrow> Inl x | _ \<Rightarrow> Inr (None, l))"
| "script_loop l (e # es) fin = (case log_event e l of
       None \<Rightarrow> Inl (OtherException ''bad event'')
     | Some l' \<Rightarrow> (case script_verdict (text_out l') of
           Some v \<Rightarrow> Inr (Some v, l')
         | None \<Rightarrow> script_loop l' es fin))"

text \<open>\<open>Counter.most_common()\<close>: by falling count, equal ones in the order of their first event.\<close>

definition most_common :: "(string \<times> nat) list \<Rightarrow> (string \<times> nat) list" where
  "most_common d = sort_key (\<lambda>x. - int (snd x)) d"

record ProbeReport =
  verdict :: "bool option"
  event_counts :: "(string \<times> nat) list"
  transcript :: string
  audio_bytes :: nat
  wav_written :: "sample list option"

definition script_report :: "bool option \<times> ProbeLog \<Rightarrow> ProbeReport" where
  "script_report r = (let l = snd r in \<lparr>verdict = fst r, event_counts = most_common (seen l),
     transcript = text_out l, audio_bytes = length (audio_out l),
     wav_written = (if audio_out l = [] then None else Some (ulaw_to_pcm16 (audio_out l)))\<rparr>)"

text \<open>
  \<open>main\<close>: where it connects, what it sends on the way and its report. \<open>world\<close> answers what is sent
  with the messages that come and their end.
\<close>

definition check_probe ::
  "Settings \<Rightarrow> nat list \<Rightarrow> (string \<times> string \<Rightarrow> Json list \<Rightarrow> Json list \<times> ScriptEnd) \<Rightarrow> sample list \<times> nat
    \<Rightarrow> exn + ProbeReport" where
  "check_probe sett order world wav =
     (let model = (if realtime_menu_model sett = [] then ''gpt-realtime'' else realtime_menu_model sett)
      in case load_ulaw order wav of
           None \<Rightarrow> Inl (OtherException ''ZeroDivisionError'')
         | Some ulaw \<Rightarrow>
             (let (msgs, fin) = world (connect_to model (openai_api_key sett)) (script_opening @ script_feed ulaw)
              in case script_loop new_ProbeLog msgs fin of
                   Inl x \<Rightarrow> Inl x
                 | Inr r \<Rightarrow> Inr (script_report r)))"

section \<open>Its verdict and the shipped probe's\<close>

lemma upper_lower:
  "lower (upper c) = lower c" "upper (lower c) = upper c" "is_space (upper c) \<longleftrightarrow> is_space c"
proof -
  have "(of_char c :: nat) < 256" by simp
  then have n: "of_char (char_of (of_char c - 32 :: nat)) = (of_char c - 32 :: nat)"
    "(of_char c :: nat) \<le> 90 \<Longrightarrow> of_char (char_of (of_char c + 32 :: nat)) = (of_char c + 32 :: nat)"
    by (simp_all del: nat_of_char_less_256)
  show "lower (upper c) = lower c" "upper (lower c) = upper c" "is_space (upper c) \<longleftrightarrow> is_space c"
    using n by (auto simp: upper_def lower_def Let_def is_space_def simp del: of_char_of)
qed

lemma upper_eq_iff: "lower x = x \<Longrightarrow> upper x = upper c \<longleftrightarrow> x = lower c"
  by (metis upper_lower)

lemma starts_with_upper: "map lower p = p \<Longrightarrow> starts_with (map upper p) (map upper s) = starts_ci p s"
  unfolding starts_ci_def by (induction p s rule: starts_with.induct) (auto simp: upper_eq_iff)

lemma upper_words:
  "starts_with ''VERDICT'' (map upper s) = starts_ci ''verdict'' s"
  "starts_with ''HUMAN'' (map upper s) = starts_ci ''human'' s"
  "starts_with ''NOT'' (map upper s) = starts_ci ''not'' s"
proof -
  have "map upper ''verdict'' = ''VERDICT''" "map upper ''human'' = ''HUMAN''" "map upper ''not'' = ''NOT''"
    "map lower ''verdict'' = ''verdict''" "map lower ''human'' = ''human''" "map lower ''not'' = ''not''"
    by code_simp+
  then show "starts_with ''VERDICT'' (map upper s) = starts_ci ''verdict'' s"
    "starts_with ''HUMAN'' (map upper s) = starts_ci ''human'' s"
    "starts_with ''NOT'' (map upper s) = starts_ci ''not'' s"
    using starts_with_upper by metis+
qed

lemma skip_spaces_upper: "skip_seps is_space (map upper s) = map_option (map upper) (skip_seps is_space s)"
  by (cases s) (simp_all add: skip_seps_def dropWhile_map comp_def upper_lower)

text \<open>Text in which the two patterns' separators are the same.\<close>

definition unpunctuated :: "string \<Rightarrow> bool" where
  "unpunctuated s \<longleftrightarrow> CHR '':'' \<notin> set s \<and> CHR ''-'' \<notin> set s"

lemma unpunctuated_seps: "unpunctuated s \<Longrightarrow> skip_seps verdict_sep s = skip_seps is_space s"
    "unpunctuated s \<Longrightarrow> skip_seps not_sep s = skip_seps is_space s"
  unfolding skip_seps_def unpunctuated_def
  by (cases s; auto simp: verdict_sep_def not_sep_def intro!: dropWhile_cong)+

lemma unpunctuated_rest: "unpunctuated s \<Longrightarrow> unpunctuated (drop n s)" "unpunctuated s \<Longrightarrow> skip_seps sep s = Some r \<Longrightarrow> unpunctuated r"
  unfolding unpunctuated_def skip_seps_def by (auto dest: in_set_dropD set_dropWhileD split: if_splits)

lemma unpunctuated_append [simp]: "unpunctuated (s @ t) \<longleftrightarrow> unpunctuated s \<and> unpunctuated t"
  by (auto simp: unpunctuated_def)

lemma unpunctuated_human: "unpunctuated s \<Longrightarrow> script_human_at (map upper s) = human_at s"
proof -
  assume "unpunctuated s"
  then have "skip_seps not_sep (drop 3 s) = skip_seps is_space (drop 3 s)" by (simp add: unpunctuated_seps unpunctuated_rest)
  moreover have "\<not> (starts_ci ''human'' s \<and> starts_ci ''not'' s)"
  proof (cases s)
    case (Cons c cs)
    then show ?thesis using starts_ci_hd [of "CHR ''h''" _ c cs] starts_ci_hd [of "CHR ''n''" _ c cs] by fastforce
  qed (simp add: starts_ci_def)
  ultimately show ?thesis
    by (auto simp: script_human_at_def human_at_def upper_words skip_spaces_upper drop_map split: option.splits)
qed

lemma unpunctuated_verdict: "unpunctuated s \<Longrightarrow> script_verdict_at (map upper s) = verdict_at s"
proof (cases "skip_seps is_space (drop 7 s)")
  case (Some r)
  assume s: "unpunctuated s"
  have "unpunctuated r" using unpunctuated_rest(2) [OF unpunctuated_rest(1) [OF s] Some] .
  with s Some show ?thesis
    by (simp add: script_verdict_at_def verdict_at_def upper_words skip_spaces_upper drop_map unpunctuated_seps
        unpunctuated_rest unpunctuated_human)
qed (simp add: script_verdict_at_def verdict_at_def upper_words skip_spaces_upper drop_map unpunctuated_seps unpunctuated_rest)

lemma unpunctuated_search: "unpunctuated s \<Longrightarrow> script_verdict s = verdict_search s"
proof (induction s)
  case (Cons c s)
  then have "unpunctuated s" by (simp add: unpunctuated_def)
  with Cons unpunctuated_verdict [of "c # s"] show ?case
    by (cases "verdict_at (c # s)") (simp_all add: script_verdict_def)
qed (simp add: script_verdict_def)

section \<open>The script's loop and the shipped one\<close>

text \<open>
  The messages both loops read alike: audio and text in the events the shipped probe knows, the
  text plain, and others that carry no delta and are no error.
\<close>

definition shared_message :: "Json \<Rightarrow> bool" where
  "shared_message evt = (case event_type evt of
       None \<Rightarrow> False
     | Some et \<Rightarrow>
         if carries_audio et
         then et = ''response.output_audio.delta'' \<and> Option.bind (delta_of evt) b64decode \<noteq> None
         else if carries_text et
         then et \<in> {''response.output_audio_transcript.delta'', ''response.output_text.delta'', ''response.text.delta''}
           \<and> (case str_field evt ''delta'' of None \<Rightarrow> False | Some t \<Rightarrow> unpunctuated t)
         else et \<noteq> ''error'')"

lemma known_types:
  "carries_audio ''response.output_audio.delta''" "\<not> carries_audio ''response.output_audio_transcript.delta''"
  "\<not> carries_audio ''response.output_text.delta''" "\<not> carries_audio ''response.text.delta''"
  "carries_text ''response.output_audio_transcript.delta''" "carries_text ''response.output_text.delta''"
  "carries_text ''response.text.delta''" "\<not> carries_text ''error''"
  by code_simp+

lemma typed_event: "event_type evt = Some et \<Longrightarrow> ty \<noteq> ''?'' \<Longrightarrow> typed evt ty \<longleftrightarrow> et = ty"
  by (auto simp: event_type_def typed_def split: if_splits option.splits Json.splits)

lemma event_is_object: "event_type evt = Some et \<Longrightarrow> is_object evt"
  by (simp add: event_type_def split: if_splits)

text \<open>One message, seen by both.\<close>

lemma shared_cases:
  assumes "shared_message evt"
  obtains d where "read_probe_event evt = Some (AudioDelta d)" "delta_audio d \<noteq> None"
      "\<forall>l. \<exists>l'. log_event evt l = Some l' \<and> text_out l' = text_out l"
  | t e where "read_probe_event evt = Some e" "e \<in> {TranscriptDelta t, OutputTextDelta t, TextDelta t}" "unpunctuated t"
      "\<forall>l. \<exists>l'. log_event evt l = Some l' \<and> text_out l' = text_out l @ t"
  | "read_probe_event evt = Some OtherEvent" "\<forall>l. \<exists>l'. log_event evt l = Some l' \<and> text_out l' = text_out l"
proof -
  obtain et where et: "event_type evt = Some et"
    using assms by (auto simp: shared_message_def split: option.splits)
  note read = typed_event [OF et] event_is_object [OF et]
  consider "carries_audio et" | "\<not> carries_audio et" "carries_text et" | "\<not> carries_audio et" "\<not> carries_text et"
    by blast
  then show thesis
  proof cases
    case 1
    with assms et have a: "et = ''response.output_audio.delta''" "Option.bind (delta_of evt) b64decode \<noteq> None"
      by (simp_all add: shared_message_def)
    show thesis
    proof (rule that(1) [of "delta_of evt"])
      show "read_probe_event evt = Some (AudioDelta (delta_of evt))" using a(1) read by (simp add: read_probe_event_def)
      show "delta_audio (delta_of evt) \<noteq> None" using a(2) by (simp add: delta_audio_def)
      show "\<forall>l. \<exists>l'. log_event evt l = Some l' \<and> text_out l' = text_out l"
        using 1 et a(2) by (auto simp: log_event_def Let_def)
    qed
  next
    case 2
    with assms et obtain t where t: "str_field evt ''delta'' = Some t" "unpunctuated t"
      "et \<in> {''response.output_audio_transcript.delta'', ''response.output_text.delta'', ''response.text.delta''}"
      by (auto simp: shared_message_def split: option.splits)
    have "\<exists>e. read_probe_event evt = Some e \<and> e \<in> {TranscriptDelta t, OutputTextDelta t, TextDelta t}"
      using t(3) by (elim insertE emptyE) (simp_all add: read_probe_event_def read t(1))
    then obtain e where e: "read_probe_event evt = Some e" "e \<in> {TranscriptDelta t, OutputTextDelta t, TextDelta t}"
      by blast
    show thesis
      using 2 et t by (intro that(2) [OF e t(2)]) (simp add: log_event_def Let_def)
  next
    case 3
    then have "et \<notin> {''response.output_audio.delta'', ''response.output_audio_transcript.delta'',
        ''response.output_text.delta'', ''response.text.delta''}" "et \<noteq> ''error''"
      using known_types assms et by (auto simp: shared_message_def)
    with read have "read_probe_event evt = Some OtherEvent" by (simp add: read_probe_event_def)
    then show thesis using 3 et by (intro that(3)) (simp_all add: log_event_def Let_def)
  qed
qed

lemma loops_agree:
  assumes "\<forall>e\<in>set msgs. shared_message e" "unpunctuated (text_out l)" "script_verdict (text_out l) = None"
  shows "\<exists>l'. unpunctuated (text_out l')
    \<and> script_loop l msgs PeerCloses = Inr (script_verdict (text_out l'), l')
    \<and> fst (probe_loop (text_out l) judging (map (the \<circ> read_probe_event) msgs) Closes) = Inr (verdict_from_text (text_out l'))"
  using assms
proof (induction msgs arbitrary: l judging)
  case (Cons m msgs)
  have shared: "shared_message m" "\<forall>e\<in>set msgs. shared_message e" using Cons.prems(1) by simp_all
  have none: "verdict_search (text_out l) = None" using Cons.prems(2,3) unpunctuated_search by simp
  from shared(1) show ?case
  proof (cases rule: shared_cases)
    case (1 d)
    then obtain l1 samples where "log_event m l = Some l1" "text_out l1 = text_out l" "delta_audio d = Some samples"
      by blast
    with Cons.IH [OF shared(2), of l1] Cons.prems(2,3) 1(1) none show ?thesis
      by (cases judging) (auto simp: Let_def case_prod_beta)
  next
    case (2 t e)
    then obtain l1 where l1: "log_event m l = Some l1" "text_out l1 = text_out l @ t" by blast
    have unpunctuated: "unpunctuated (text_out l1)" using Cons.prems(2) 2(3) l1(2) by simp
    show ?thesis
    proof (cases "script_verdict (text_out l1)")
      case None
      moreover from this unpunctuated have "verdict_search (text_out l @ t) = None" using unpunctuated_search l1(2) by simp
      ultimately show ?thesis
        using Cons.IH [OF shared(2) unpunctuated None] 2(1,2) l1 by (auto simp: Let_def case_prod_beta)
    next
      case (Some v)
      moreover from this unpunctuated have "verdict_search (text_out l @ t) \<noteq> None" using unpunctuated_search l1(2) by simp
      ultimately show ?thesis
        using 2(1,2) l1 unpunctuated by (intro exI [of _ l1]) (auto simp: Let_def)
    qed
  next
    case 3
    then obtain l1 where "log_event m l = Some l1" "text_out l1 = text_out l" by blast
    with Cons.IH [OF shared(2), of l1] Cons.prems(2,3) 3(1) none show ?thesis
      by (auto simp: Let_def case_prod_beta)
  qed
qed auto

text \<open>
  [C32] The tool reads a probe the way the shipped probe does. On messages both know how to read,
  with no colon or hyphen in the text, the two loops stop at the same text: the tool prints the
  verdict HUMAN exactly when the shipped probe's outcome is a human, and otherwise that outcome
  is no human, with the same transcript.
\<close>

theorem script_agrees_with_probe:
  assumes "\<forall>e\<in>set msgs. shared_message e" "0 < timeout"
  shows "\<exists>l. script_loop new_ProbeLog msgs PeerCloses = Inr (script_verdict (text_out l), l)
    \<and> fst (probe_exchange timeout (map (Pair 0) msgs) (0, Closes))
      = Inr (ProbeOutcome (script_verdict (text_out l) = Some True) (take 200 (str_strip (text_out l))) True)"
proof -
  have read: "read_probe_event e \<noteq> None" if "e \<in> set msgs" for e
  proof -
    have "shared_message e" using assms(1) that by blast
    then show ?thesis by (cases rule: shared_cases) simp_all
  qed
  have "before_deadline timeout (map (Pair 0) msgs) (0, Closes) = (msgs, Closes)"
    using assms(2) by (simp add: before_deadline_def list_all_iff takeWhile_map comp_def takeWhile_eq_all_conv)
  moreover have "conversation read_probe_event msgs Closes = (map (the \<circ> read_probe_event) msgs, Closes)"
  proof -
    have "takeWhile (\<lambda>j. read_probe_event j \<noteq> None) msgs = msgs"
      unfolding takeWhile_eq_all_conv using read by blast
    moreover have "list_all (\<lambda>j. read_probe_event j \<noteq> None) msgs" unfolding list_all_iff using read by blast
    ultimately show ?thesis by (simp only: conversation_def if_True)
  qed
  ultimately have run: "probe_exchange timeout (map (Pair 0) msgs) (0, Closes)
      = probe_loop [] False (map (the \<circ> read_probe_event) msgs) Closes"
    by (simp add: probe_exchange_def)
  have "text_out new_ProbeLog = []" by (simp add: new_ProbeLog_def)
  with loops_agree [of msgs new_ProbeLog False] assms(1) obtain l where
    "unpunctuated (text_out l)" "script_loop new_ProbeLog msgs PeerCloses = Inr (script_verdict (text_out l), l)"
    "fst (probe_loop [] False (map (the \<circ> read_probe_event) msgs) Closes) = Inr (verdict_from_text (text_out l))"
    by (auto simp: unpunctuated_def script_verdict_def)
  then show ?thesis using unpunctuated_search [of "text_out l"] by (auto simp: run verdict_from_text_def)
qed

lemma text_message:
  "unpunctuated t \<Longrightarrow> shared_message (JObj [(''type'', JStr ''response.output_text.delta''), (''delta'', JStr t)])"
proof -
  have "event_type (JObj [(''type'', JStr ''response.output_text.delta''), (''delta'', JStr t)])
      = Some ''response.output_text.delta''"
    by (simp add: event_type_def is_object_def)
  then show "unpunctuated t \<Longrightarrow> ?thesis" using known_types by (simp add: shared_message_def str_field_def)
qed

theorem script_agrees_with_probe_witness:
  "\<exists>l h t. script_loop new_ProbeLog [JObj [(''type'', JStr ''response.output_text.delta''), (''delta'', JStr ''verdict not human'')]]
      PeerCloses = Inr (h, l)
    \<and> fst (probe_exchange 15 (map (Pair 0) [JObj [(''type'', JStr ''response.output_text.delta''), (''delta'', JStr ''verdict not human'')]])
        (0, Closes)) = Inr (ProbeOutcome (h = Some True) t True)"
proof -
  have "unpunctuated ''verdict not human''" by (simp add: unpunctuated_def)
  then have "\<forall>e\<in>set [JObj [(''type'', JStr ''response.output_text.delta''), (''delta'', JStr ''verdict not human'')]]. shared_message e"
    by (simp add: text_message)
  from script_agrees_with_probe [OF this, of 15] show ?thesis by auto
qed

text \<open>
  Punctuation tells them apart: the shipped probe reads a verdict after a colon or with a hyphen,
  the tool waits on.
\<close>

theorem script_misses_punctuated_verdicts:
  "verdict_search ''VERDICT: HUMAN'' = Some True \<and> script_verdict ''VERDICT: HUMAN'' = None
    \<and> verdict_search ''VERDICT NOT-HUMAN'' = Some False \<and> script_verdict ''VERDICT NOT-HUMAN'' = None"
  by code_simp

text \<open>The whole fixture is sent, in order, in chunks of 200 ms.\<close>

theorem fixture_is_sent_whole:
  "\<exists>chunks question. script_feed ulaw = map append_json chunks @ question \<and> concat chunks = ulaw
    \<and> (\<forall>c\<in>set chunks. length c \<le> 1600) \<and> length question = 2"
proof (intro exI conjI)
  show "script_feed ulaw = map append_json (slices 1600 ulaw) @ drop (length (slices 1600 ulaw)) (script_feed ulaw)"
    by (simp add: script_feed_def)
  show "concat (slices 1600 ulaw) = ulaw" by (rule concat_slices) simp
  show "\<forall>c\<in>set (slices 1600 ulaw). length c \<le> 1600" using slices_size by blast
  show "length (drop (length (slices 1600 ulaw)) (script_feed ulaw)) = 2" by (simp add: script_feed_def)
qed

end
