(* ===== verification/Dev_Scripts.thy ===== *)
theory Dev_Scripts
  imports Realtime_Wire Resample
begin

text \<open>
  \<open>scripts/check_menu_model.py\<close>, which asks the live model for the keys of a recorded menu, and
  \<open>scripts/place_test_call.py\<close>. The wave files, the model and Twilio are parameters; printing is
  left out.
\<close>

section \<open>\<open>check_menu_model.py\<close>\<close>

definition FIXTURE :: string where
  "FIXTURE = ''tests/fixtures/menu_prompt.wav''"

definition DEFAULT_CASES :: "(string \<times> string) list" where
  "DEFAULT_CASES = [(''check the status of an existing flight'', ''3''), (''make a new reservation'', ''5''),
     (''a billing problem'', ''1'')]"

definition load_8k :: "(string \<Rightarrow> exn + sample list \<times> nat) \<Rightarrow> string \<Rightarrow> exn + sample list" where
  "load_8k wav path = (case wav path of
       Inl x \<Rightarrow> Inl x
     | Inr (samples, sr) \<Rightarrow> (case resample samples sr 8000 of
           None \<Rightarrow> Inl (OtherException ''ZeroDivisionError'')
         | Some pcm8 \<Rightarrow> Inr pcm8))"

text \<open>\<open>d.digits\<close>.\<close>

definition digits_of :: "Tier2Value \<Rightarrow> ('w, string option) proc" where
  "digits_of v = (case v of MenuDecision ds _ \<Rightarrow> ret ds | ProbeOutcome _ _ _ \<Rightarrow> raise AttributeError)"

type_synonym 'w asker = "sample list \<Rightarrow> nat \<Rightarrow> string option \<Rightarrow> ('w, Tier2Value) proc"

text \<open>The loop over the cases: which of them were hit.\<close>

fun ask_cases :: "'w asker \<Rightarrow> sample list \<Rightarrow> (string \<times> string) list \<Rightarrow> ('w, bool list) proc" where
  "ask_cases ask pcm8 [] = ret []"
| "ask_cases ask pcm8 ((goal_text, want) # cases) =
     bind (bind (ask pcm8 8000 (Some goal_text)) digits_of)
       (\<lambda>ds. bind (ask_cases ask pcm8 cases) (\<lambda>hits. ret ((ds = Some want) # hits)))"

text \<open>\<open>main\<close>; its value is the exit code. \<open>model\<close> is the realtime model behind a client.\<close>

definition check_menu ::
  "Settings \<Rightarrow> (RealtimeClient \<Rightarrow> 'w Net) \<Rightarrow> (string \<Rightarrow> exn + sample list \<times> nat) \<Rightarrow> string list \<Rightarrow> ('w, nat) proc" where
  "check_menu sett model wav argv =
     (if openai_api_key sett = [] then ret 1
      else
        let client = new_RealtimeClient (openai_api_key sett) (Some (realtime_menu_model sett)) None;
            ask = realtime_choose (model client)
        in if 3 \<le> length argv
           then (case load_8k wav (argv ! 1) of
                   Inl x \<Rightarrow> raise x
                 | Inr pcm8 \<Rightarrow> bind (bind (ask pcm8 8000 (Some (argv ! 2))) digits_of) (\<lambda>ds. ret 0))
           else (case load_8k wav FIXTURE of
                   Inl x \<Rightarrow> raise x
                 | Inr pcm8 \<Rightarrow> bind (ask_cases ask pcm8 DEFAULT_CASES)
                     (\<lambda>hits. ret (if length (filter id hits) = length DEFAULT_CASES then 0 else 1))))"

section \<open>\<open>place_test_call.py\<close>\<close>

text \<open>\<open>create\<close> is Twilio's answer to a call from a number to a number with a URL: the call's sid.\<close>

definition place_test_call ::
  "Settings \<Rightarrow> (string \<Rightarrow> string \<Rightarrow> string \<Rightarrow> ('w, string) proc) \<Rightarrow> string list \<Rightarrow> ('w, string) proc" where
  "place_test_call sett create argv =
     (if length argv < 3 then raise (OtherException ''IndexError'')
      else create (twilio_from_number sett) (argv ! 1) (public_base_url sett @ argv ! 2))"

section \<open>When the check passes\<close>

text \<open>Asked in order, the model gives the wanted key each time.\<close>

fun all_right :: "'w asker \<Rightarrow> sample list \<Rightarrow> (string \<times> string) list \<Rightarrow> 'w \<Rightarrow> bool" where
  "all_right ask pcm8 [] w = True"
| "all_right ask pcm8 ((goal_text, want) # cases) w = (case ask pcm8 8000 (Some goal_text) w of
       (Inr (MenuDecision ds why), w') \<Rightarrow> ds = Some want \<and> all_right ask pcm8 cases w'
     | _ \<Rightarrow> False)"

lemma ask_cases_hits: "ask_cases ask pcm8 cases w = (Inr hits, w') \<Longrightarrow> length hits = length cases"
  by (induction ask pcm8 cases arbitrary: w hits w' rule: ask_cases.induct)
    (auto simp: proc_defs digits_of_def split: prod.splits sum.splits Tier2Value.splits)

lemma all_right_iff:
  "all_right ask pcm8 cases w \<longleftrightarrow> (\<exists>hits w'. ask_cases ask pcm8 cases w = (Inr hits, w') \<and> list_all id hits)"
  by (induction ask pcm8 cases w rule: all_right.induct)
    (auto simp: proc_defs digits_of_def split: prod.splits sum.splits Tier2Value.splits)

lemma count_all: "length (filter id hits) = length hits \<longleftrightarrow> list_all id hits"
proof (induction hits)
  case (Cons h hits)
  moreover have "length (filter id hits) \<noteq> Suc (length hits)" using length_filter_le [of id hits] by linarith
  ultimately show ?case by (auto simp: id_def)
qed simp

text \<open>
  The check exits with 0 exactly when the model, asked about the cases in order, gives the wanted
  key for each; anything else, an abstention or a failed exchange included, does not pass.
\<close>

theorem check_passes_iff_all_right:
  assumes "openai_api_key sett \<noteq> []" "length argv < 3" "load_8k wav FIXTURE = Inr pcm8"
  shows "fst (check_menu sett model wav argv w) = Inr 0
    \<longleftrightarrow> all_right (realtime_choose (model (new_RealtimeClient (openai_api_key sett)
          (Some (realtime_menu_model sett)) None))) pcm8 DEFAULT_CASES w"
proof -
  let ?ask = "realtime_choose (model (new_RealtimeClient (openai_api_key sett) (Some (realtime_menu_model sett)) None))"
  obtain r w' where run: "ask_cases ?ask pcm8 DEFAULT_CASES w = (r, w')" by fastforce
  show ?thesis
  proof (cases r)
    case (Inl x)
    with run assms show ?thesis by (simp add: check_menu_def Let_def all_right_iff proc_defs)
  next
    case (Inr hits)
    have "length hits = length DEFAULT_CASES" using ask_cases_hits run Inr by metis
    with run assms Inr show ?thesis
      by (simp add: check_menu_def Let_def all_right_iff proc_defs flip: count_all)
  qed
qed

end
