(* ===== verification/Speech_Wave.thy ===== *)
theory Speech_Wave
  imports Testing
begin

text \<open>
  \<open>_speech_like\<close> of \<open>testing.py\<close>: the synthetic speech of the offline call, noise band-passed by a
  Fourier transform under an envelope of random syllables. The random generator, seeded by the
  segment's length, is the parameter \<open>rng\<close>: the normal noise and the uniform draws in [0, 1) it
  gives for a length. A waveform of no samples is the \<open>ValueError\<close> of the transform (\<open>None\<close>).
\<close>

section \<open>The band\<close>

definition rfft :: "real list \<Rightarrow> complex list" where
  "rfft xs = map (\<lambda>k. \<Sum>j<length xs. of_real (xs ! j) * cis (- 2 * pi * of_nat j * of_nat k / of_nat (length xs)))
     [0..<length xs div 2 + 1]"

definition irfft :: "complex list \<Rightarrow> nat \<Rightarrow> real list" where
  "irfft spec n = map (\<lambda>j. (\<Sum>k<n div 2 + 1. (if k = 0 \<or> 2 * k = n then 1 else 2)
       * Re (spec ! k * cis (2 * pi * of_nat j * of_nat k / of_nat n))) / of_nat n) [0..<n]"

definition bandpass :: "real list \<Rightarrow> real list" where
  "bandpass noise = irfft (map2 (\<lambda>c f. if f < 300 \<or> 3400 < f then 0 else c)
     (rfft noise) (rfftfreq (length noise) (1 / SAMPLE_RATE))) (length noise)"

definition peak :: "real list \<Rightarrow> real" where
  "peak xs = foldr max (map abs xs) 0"

definition normalise :: "real list \<Rightarrow> real list" where
  "normalise xs = (let m = (if peak xs = 0 then 1 else peak xs) in map (\<lambda>x. x / m) xs)"

section \<open>The envelope\<close>

definition mean_syllable :: "real \<Rightarrow> real" where
  "mean_syllable syllable_hz = SAMPLE_RATE / syllable_hz"

text \<open>\<open>rng.uniform(lo, hi)\<close> with the draw \<open>u\<close>.\<close>

definition uniform :: "real \<Rightarrow> real \<Rightarrow> real \<Rightarrow> real" where
  "uniform lo hi u = lo + (hi - lo) * u"

definition ramp :: "real \<Rightarrow> nat \<Rightarrow> real list" where
  "ramp mean_syl len = map (\<lambda>m. max 0 (min 1 (of_nat (min m (len - m)) / max 1 (15 / 100 * mean_syl)))) [0..<len]"

text \<open>The loop: \<open>env[i:j] = ramp\<close> for each burst, \<open>k\<close> draws used so far.\<close>

partial_function (option) syllables ::
  "real \<Rightarrow> (nat \<Rightarrow> real) \<Rightarrow> nat \<Rightarrow> nat \<Rightarrow> nat \<Rightarrow> real list \<Rightarrow> real list option" where
  "syllables mean_syl draw n k i env =
     (if i < n then
        let burst = nat (py_int (uniform (45 / 100) (9 / 10) (draw k) * mean_syl));
            gap = nat (py_int (uniform (1 / 4) (8 / 10) (draw (k + 1)) * mean_syl));
            j = min n (i + burst)
        in syllables mean_syl draw n (k + 2) (j + gap) (take i env @ ramp mean_syl (j - i) @ drop j env)
      else Some env)"

definition speech_like ::
  "(py_float \<Rightarrow> (nat \<Rightarrow> real) \<times> (nat \<Rightarrow> real)) \<Rightarrow> py_float \<Rightarrow> real \<Rightarrow> real \<Rightarrow> real list option" where
  "speech_like rng s amp syllable_hz =
     (let n = samples_of s; noise = map (fst (rng s)) [0..<n];
          band = normalise (bandpass noise)
      in if n = 0 then None
         else map_option (map2 (\<lambda>b e. amp * b * e) band)
           (syllables (mean_syllable syllable_hz) (snd (rng s)) n 0 0 (replicate n 0)))"

section \<open>The loop ends\<close>

text \<open>A draw the generator can give.\<close>

definition fair_draws :: "(nat \<Rightarrow> real) \<Rightarrow> bool" where
  "fair_draws draw \<longleftrightarrow> (\<forall>k. 0 \<le> draw k \<and> draw k < 1)"

definition unit_range :: "real list \<Rightarrow> bool" where
  "unit_range xs \<longleftrightarrow> (\<forall>x\<in>set xs. 0 \<le> x \<and> x \<le> 1)"

lemma ramp_props: "length (ramp m len) = len" "unit_range (ramp m len)"
  by (auto simp: ramp_def unit_range_def)

lemma burst_positive:
  assumes "0 \<le> u" "3 \<le> m" shows "0 < nat (py_int (uniform (45 / 100) (9 / 10) u * m))"
proof -
  have "1 \<le> 45 / 100 * m" using assms(2) by simp
  also have "\<dots> \<le> uniform (45 / 100) (9 / 10) u * m"
    using assms by (intro mult_right_mono) (simp_all add: uniform_def)
  finally have "1 \<le> \<lfloor>uniform (45 / 100) (9 / 10) u * m\<rfloor>" "0 \<le> uniform (45 / 100) (9 / 10) u * m" by linarith+
  then show ?thesis by (simp add: py_int_def)
qed

text \<open>The loop ends, fills the envelope in its length and stays between silence and full volume.\<close>

lemma syllables_end:
  assumes "fair_draws draw" "3 \<le> m" "length env = n" "unit_range env"
  shows "\<exists>env'. syllables m draw n k i env = Some env' \<and> length env' = n \<and> unit_range env'"
  using assms(3,4)
proof (induction "n - i" arbitrary: i k env rule: less_induct)
  case less
  show ?case
  proof (cases "i < n")
    case True
    let ?b = "nat (py_int (uniform (45 / 100) (9 / 10) (draw k) * m))"
    let ?g = "nat (py_int (uniform (1 / 4) (8 / 10) (draw (k + 1)) * m))"
    let ?j = "min n (i + ?b)"
    let ?env = "take i env @ ramp m (?j - i) @ drop ?j env"
    have b: "0 < ?b" using burst_positive [of "draw k" m] assms(1,2) by (simp add: fair_draws_def)
    then have closer: "n - (?j + ?g) < n - i" "i \<le> ?j" using True by linarith+
    have "length ?env = n" "unit_range ?env"
      using less.prems True closer ramp_props [of m "?j - i"]
      by (auto simp: unit_range_def dest: in_set_takeD in_set_dropD)
    with less.hyps [OF closer(1)] True show ?thesis
      by (subst syllables.simps) (simp add: Let_def)
  next
    case False
    with less.prems show ?thesis by (subst syllables.simps) simp
  qed
qed

section \<open>Loudness\<close>

definition bounded_by :: "real \<Rightarrow> real list \<Rightarrow> bool" where
  "bounded_by a xs \<longleftrightarrow> (\<forall>x\<in>set xs. \<bar>x\<bar> \<le> a)"

lemma bounded_byI: "(\<And>x. x \<in> set xs \<Longrightarrow> \<bar>x\<bar> \<le> a) \<Longrightarrow> bounded_by a xs"
  by (simp add: bounded_by_def)

lemma bounded_by_mono: "bounded_by a xs \<Longrightarrow> a \<le> b \<Longrightarrow> bounded_by b xs"
  by (force simp: bounded_by_def)

lemma bounded_by_map2:
  assumes "\<And>x y. \<bar>x\<bar> \<le> a \<Longrightarrow> \<bar>y\<bar> \<le> b \<Longrightarrow> \<bar>f x y\<bar> \<le> c" "bounded_by a xs" "bounded_by b ys"
  shows "bounded_by c (map2 f xs ys)"
proof (rule bounded_byI)
  fix z assume "z \<in> set (map2 f xs ys)"
  then obtain x y where "(x, y) \<in> set (zip xs ys)" "z = f x y" by auto
  moreover from this(1) have "x \<in> set xs" "y \<in> set ys" by (rule set_zip_leftD, rule set_zip_rightD)
  ultimately show "\<bar>z\<bar> \<le> c" using assms unfolding bounded_by_def by simp
qed

lemma unit_within: "unit_range xs \<Longrightarrow> bounded_by 1 xs"
  by (auto simp: unit_range_def bounded_by_def)

lemma peak_bounds: "0 \<le> peak xs" "x \<in> set xs \<Longrightarrow> \<bar>x\<bar> \<le> peak xs"
proof -
  show "0 \<le> peak xs" unfolding peak_def by (induction xs) auto
  show "x \<in> set xs \<Longrightarrow> \<bar>x\<bar> \<le> peak xs" unfolding peak_def by (induction xs) auto
qed

lemma normalise_within: "bounded_by 1 (normalise xs)"
proof (rule bounded_byI)
  fix y assume "y \<in> set (normalise xs)"
  then obtain x where x: "x \<in> set xs" "y = x / (if peak xs = 0 then 1 else peak xs)"
    by (auto simp: normalise_def Let_def)
  then show "\<bar>y\<bar> \<le> 1" using peak_bounds(1) [of xs] peak_bounds(2) [OF x(1)] by (auto simp: abs_divide divide_le_eq)
qed

lemma speech_like_ok:
  assumes "fair_draws (snd (rng s))" "0 < samples_of s" "0 \<le> amp"
  shows "\<exists>xs. speech_like rng s amp 4 = Some xs \<and> length xs = samples_of s \<and> bounded_by amp xs"
proof -
  let ?n = "samples_of s"
  let ?band = "normalise (bandpass (map (fst (rng s)) [0..<?n]))"
  have "3 \<le> mean_syllable 4" by (simp add: mean_syllable_def SAMPLE_RATE_def)
  moreover have "unit_range (replicate ?n 0)" by (simp add: unit_range_def)
  ultimately obtain env where env: "syllables (mean_syllable 4) (snd (rng s)) ?n 0 0 (replicate ?n 0) = Some env"
    "length env = ?n" "unit_range env"
    using syllables_end [OF assms(1), of "mean_syllable 4" "replicate ?n 0" ?n] by auto
  have "\<bar>amp * b * e\<bar> \<le> amp" if "\<bar>b\<bar> \<le> 1" "\<bar>e\<bar> \<le> 1" for b e
  proof -
    have "\<bar>b\<bar> * \<bar>e\<bar> \<le> 1" using that mult_le_one [of "\<bar>b\<bar>" "\<bar>e\<bar>"] by simp
    with assms(3) show ?thesis using mult_left_mono [of "\<bar>b\<bar> * \<bar>e\<bar>" 1 amp] by (simp add: abs_mult mult.assoc)
  qed
  then have "bounded_by amp (map2 (\<lambda>b e. amp * b * e) ?band env)"
    by (rule bounded_by_map2 [OF _ normalise_within unit_within [OF env(3)]])
  moreover have "length ?band = ?n" by (simp add: normalise_def bandpass_def irfft_def Let_def)
  ultimately show ?thesis using assms(2) env(1,2) by (simp add: speech_like_def Let_def)
qed

lemma tone_within:
  assumes "freqs \<noteq> []" "0 \<le> amp" shows "bounded_by amp (tone freqs s amp)"
proof (rule bounded_byI)
  fix x assume "x \<in> set (tone freqs s amp)"
  then obtain i where x: "x = amp / of_nat (length freqs) * (\<Sum>f\<leftarrow>freqs. sin (2 * pi * f * (of_nat i / SAMPLE_RATE)))"
    unfolding tone_def set_map by blast
  define t where "t = of_nat i / SAMPLE_RATE"
  have "\<bar>\<Sum>f\<leftarrow>fs. sin (2 * pi * f * t)\<bar> \<le> of_nat (length fs)" for fs
  proof (induction fs)
    case (Cons f fs)
    have "\<bar>sin (2 * pi * f * t)\<bar> \<le> 1" by (rule abs_sin_le_one)
    moreover have "(\<Sum>f\<leftarrow>f # fs. sin (2 * pi * f * t)) = sin (2 * pi * f * t) + (\<Sum>f\<leftarrow>fs. sin (2 * pi * f * t))"
      "real (length (f # fs)) = 1 + real (length fs)" by simp_all
    ultimately show ?case
      using Cons abs_triangle_ineq [of "sin (2 * pi * f * t)" "\<Sum>f\<leftarrow>fs. sin (2 * pi * f * t)"] by linarith
  qed simp
  then have "\<bar>x\<bar> \<le> amp / of_nat (length freqs) * of_nat (length freqs)"
    unfolding x t_def [symmetric] abs_mult using assms(2) by (intro mult_mono) simp_all
  then show "\<bar>x\<bar> \<le> amp" using assms(1) by simp
qed

lemma tremolo_bounded_by: "\<bar>1 / 2 * (1 + sin t)\<bar> \<le> (1 :: real)"
proof -
  have "- sin t \<le> 3" using sin_ge_minus_one [of t] by linarith
  then show ?thesis by (simp add: abs_le_iff)
qed

lemma segment_bounded:
  assumes "\<And>amp. 0 \<le> amp \<Longrightarrow> bounded_by amp (speech (seconds seg) amp)"
  shows "bounded_by (3 / 10) (segment_wave speech seg)"
proof -
  have talk: "bounded_by (3 / 10) (speech (seconds seg) (1 / 4))" "bounded_by (3 / 10) (speech (seconds seg) (1 / 50))"
    by (rule bounded_by_mono [OF assms]; simp)+
  show ?thesis
  proof (cases "seg_label seg")
    case RINGBACK
    then show ?thesis
      using bounded_by_mono [OF tone_within [of "[440, 480]" "2 / 10" "min 2 (seconds seg)"], of "3 / 10"]
      by (auto simp: segment_wave_def Let_def bounded_by_def)
  next
    case HOLD_INTERJECTION
    have "bounded_by (3 / 10) (map2 (+) (speech (seconds seg) (22 / 100)) (tone [220, 277, 330] (seconds seg) (5 / 100)))"
    proof (rule bounded_by_map2 [OF _ assms tone_within])
      show "\<bar>x + y\<bar> \<le> 3 / 10" if "\<bar>x\<bar> \<le> 22 / 100" "\<bar>y\<bar> \<le> 5 / 100" for x y :: real
        using that abs_triangle_ineq [of x y] by linarith
    qed simp_all
    with HOLD_INTERJECTION show ?thesis by (simp add: segment_wave_def Let_def)
  next
    case HOLD_MUSIC
    have loud: "\<bar>x * y\<bar> \<le> 3 / 10" if "\<bar>x\<bar> \<le> 3 / 10" "\<bar>y\<bar> \<le> 1" for x y :: real
      using mult_mono [OF that] by (simp add: abs_mult)
    have tremolo: "bounded_by 1 (map (\<lambda>i. 1 / 2 * (1 + sin (2 * pi * 5 * of_nat i / SAMPLE_RATE))) [0..<m])" for m
    proof (rule bounded_byI)
      fix x assume "x \<in> set (map (\<lambda>i. 1 / 2 * (1 + sin (2 * pi * 5 * of_nat i / SAMPLE_RATE))) [0..<m])"
      then obtain t where "x = 1 / 2 * (1 + sin t)" unfolding set_map by blast
      then show "\<bar>x\<bar> \<le> 1" by (simp only: tremolo_bounded_by)
    qed
    have "bounded_by (3 / 10) (map2 (*) (tone [220, 277, 330, 440] (seconds seg) (3 / 10))
        (map (\<lambda>i. 1 / 2 * (1 + sin (2 * pi * 5 * of_nat i / SAMPLE_RATE))) [0..<samples_of (seconds seg)]))"
      by (rule bounded_by_map2 [OF loud tone_within tremolo]) simp_all
    with HOLD_MUSIC show ?thesis by (simp add: segment_wave_def Let_def)
  qed (use talk in \<open>auto simp: segment_wave_def Let_def bounded_by_def\<close>)
qed

lemma quiet_sample:
  assumes "\<bar>v\<bar> \<le> 3 / 10"
  shows "to_pcm v = py_int (v * 32767)" "\<bar>to_pcm v\<bar> \<le> 9830"
proof -
  have v: "\<bar>v * 32767\<bar> \<le> 98301 / 10" using assms by (simp add: abs_mult)
  then have "max (- 32768) (min 32767 (v * 32767)) = v * 32767" by (simp add: abs_le_iff)
  then show exact: "to_pcm v = py_int (v * 32767)" by (simp add: to_pcm_def)
  have "- 9831 < v * 32767" "v * 32767 < 9831" using v by linarith+
  then show "\<bar>to_pcm v\<bar> \<le> 9830" unfolding exact py_int_def by (auto simp: abs_le_iff; linarith)
qed

text \<open>
  [C29] The synthetic call never clips and its generator never loops. With draws as the random
  generator gives them, the loop that cuts speech into syllables ends, for every segment, with a
  waveform of the segment's length; and every sample of the call stays under a third of full
  scale, so that the clipping before the cast to int16 changes nothing.
\<close>

theorem synthetic_call_never_clips:
  assumes "\<forall>s. fair_draws (snd (rng s))" "\<forall>seg\<in>set script. 0 < samples_of (seconds seg)" "script \<noteq> []"
    "speech = (\<lambda>s amp. the (speech_like rng s amp 4))"
  shows "(\<forall>seg\<in>set script. \<exists>xs. speech_like rng (seconds seg) (1 / 4) 4 = Some xs \<and> length xs = samples_of (seconds seg))
    \<and> (\<forall>x\<in>set (fst (synthesize_call speech script)). \<bar>x\<bar> \<le> 9830)
    \<and> fst (synthesize_call speech script) = map (\<lambda>v. py_int (v * 32767)) (concat (map (segment_wave speech) script))"
proof -
  have ok: "\<exists>xs. speech_like rng (seconds seg) amp 4 = Some xs \<and> length xs = samples_of (seconds seg) \<and> bounded_by amp xs"
    if "seg \<in> set script" "0 \<le> amp" for seg amp
    by (rule speech_like_ok) (use assms(1,2) that in auto)
  have "bounded_by amp (speech (seconds seg) amp)" if "seg \<in> set script" "0 \<le> amp" for seg amp
    using ok [OF that] assms(4) by auto
  then have "bounded_by (3 / 10) (segment_wave speech seg)" if "seg \<in> set script" for seg
    using segment_bounded that by blast
  then have quiet: "\<bar>v\<bar> \<le> 3 / 10" if "v \<in> set (concat (map (segment_wave speech) script))" for v
    using that by (auto simp: bounded_by_def)
  have pcm: "fst (synthesize_call speech script) = map to_pcm (concat (map (segment_wave speech) script))"
    using assms(3) by (simp add: synthesize_call_def Let_def)
  have "\<forall>x\<in>set (fst (synthesize_call speech script)). \<bar>x\<bar> \<le> 9830"
    unfolding pcm using quiet_sample(2) [OF quiet] by fastforce
  moreover have "fst (synthesize_call speech script) = map (\<lambda>v. py_int (v * 32767)) (concat (map (segment_wave speech) script))"
    unfolding pcm using quiet_sample(1) [OF quiet] by (intro map_cong) simp_all
  ultimately show ?thesis using ok [of _ "1 / 4"] by fastforce
qed

theorem synthetic_call_never_clips_witness:
  "list_all (\<lambda>x. \<bar>x\<bar> \<le> 9830)
    (fst (synthesize_call (\<lambda>s amp. the (speech_like (\<lambda>_. (\<lambda>_. 1, \<lambda>_. 1 / 2)) s amp 4)) DEFAULT_SCRIPT))"
proof -
  let ?rng = "\<lambda>_. (\<lambda>_ :: nat. 1 :: real, \<lambda>_ :: nat. 1 / 2 :: real)"
  have fair_draws: "\<forall>s. fair_draws (snd (?rng s))" by (simp add: fair_draws_def)
  have long: "\<forall>seg\<in>set DEFAULT_SCRIPT. 0 < samples_of (seconds seg)"
    by (simp add: DEFAULT_SCRIPT_def samples_of_def SAMPLE_RATE_def py_int_def)
  have "DEFAULT_SCRIPT \<noteq> []" by (simp add: DEFAULT_SCRIPT_def)
  from synthetic_call_never_clips [OF fair_draws long this refl] show ?thesis
    unfolding list_all_iff by blast
qed

end
