(* ===== verification/Persistence.thy ===== *)
theory Persistence
  imports Prelude
begin

text \<open>
  \<open>persistence/models.py\<close> and \<open>persistence/db.py\<close>: what is to be kept about a destination and about
  a call. Nothing uses these yet: \<open>get_engine\<close> only raises.
\<close>

record IvrNode =
  prompt_text :: string
  digit_pressed :: string
  leads_to :: "string option"

record Destination =
  phone_number :: string
  ivr_tree :: "IvrNode list"
  rep_greeting_patterns :: "string list"
  interjection_texts :: "string list"
  interjection_interval_s :: "py_float option"
  typical_hold_seconds :: "py_float option"
  music_under_interjections :: "bool option"
  call_count :: nat

definition new_Destination :: "string \<Rightarrow> Destination" where
  "new_Destination number = \<lparr>phone_number = number, ivr_tree = [], rep_greeting_patterns = [],
     interjection_texts = [], interjection_interval_s = None, typical_hold_seconds = None,
     music_under_interjections = None, call_count = 0\<rparr>"

record CallOutcome =
  outcome_call_id :: string
  outcome_number :: string
  result :: string
  hold_seconds :: py_float

definition get_engine :: "string \<Rightarrow> ('w, 'a) proc" where
  "get_engine dsn = raise NotImplementedError"

end
