(* ===== verification/Spec2Isabelle.thy ===== *)
theory Spec2Isabelle
  imports App_Props Session_Limits Fsm_Runs Tier2_Props Simulate Dev_Routes Resample Service Spike Worker_Run
    Analyze_Audio Check_Probe Dev_Scripts Speech_Wave Persistence
begin

text \<open>
  DialPass calls a business for a user, navigates its phone menu, waits on hold and hands the
  user over when a human answers. This development models the Python service under
  \<open>src/src/dialpass\<close>, with its offline harness and the tools of \<open>src/scripts\<close>, and proves
  what makes its parts correct.

  \<^bold>\<open>The program.\<close> A call is placed by \<open>POST /calls\<close>; Twilio then opens a socket for the business
  leg (the agent leg) and one for the user's phone. A \<open>CallBridge\<close> is the hub both sockets attach
  to. It owns an \<open>AgentSession\<close>, which cuts the agent leg's audio into ticks, has each classified
  (Tier 1), drives the call-phase machine with the labels, and submits jobs to the realtime model
  (Tier 2) through an executor and a circuit breaker: a menu decision, whose digits are pressed,
  or a probe, whose human verdict starts the handoff. A session that fails has its call torn down:
  the user is texted and both legs are hung up. Every step emits telemetry, which a producer
  batches into SQS and a worker stores in Postgres.

  \<^bold>\<open>The theories\<close>, bottom up.

  \<^item> \<open>Prelude\<close>: Python's exceptions, a calculus of stateful procedures that may raise, slicing,
    rounding and \<open>linspace\<close>, JSON values. \<open>Strings\<close>: string methods and XML quoting. \<open>Base64\<close>: the codec of the
    standard library with its round trip. \<open>Config\<close>: \<open>config.py\<close>.
  \<^item> \<open>Labels\<close>, \<open>Fsm\<close>, \<open>Fsm_Runs\<close>: \<open>agent/labels.py\<close> and \<open>agent/state.py\<close>. One definition per method;
    the record \<open>CallStateMachine\<close> has the attributes of the class. \<open>phase_rule\<close> is the table of
    evidence the design asks for and \<open>phase_edge\<close> the phase graph; \<open>Fsm_Runs\<close> compares runs of the
    methods with them.
  \<^item> \<open>Classifier\<close>: \<open>agent/classifier.py\<close>, features, rules and the scripted double.
  \<^item> \<open>Buffer\<close>, \<open>Executor\<close>, \<open>Breaker\<close>: \<open>agent/buffer.py\<close>, \<open>agent/executor.py\<close> (the protocol is a locale,
    both executors are interpretations), \<open>resilience/circuit_breaker.py\<close> (threads interleave between
    its critical sections).
  \<^item> \<open>Session\<close>, \<open>Session_Steps\<close>, \<open>Session_Protocol\<close>, \<open>Session_Demo\<close>, \<open>Session_Limits\<close>, \<open>Session_Props\<close>:
    \<open>agent/session.py\<close>. The collaborators are the fields of \<open>env\<close>, functions on an arbitrary world, so
    what is proved holds for all of them. \<open>trace\<close> is a history variable, the calls made to them;
    \<open>Session_Protocol\<close> has the contract as a monitor of that trace and the session refines it.
  \<^item> \<open>Tier2\<close>, \<open>Tier2_Props\<close>: \<open>realtime/client.py\<close>, \<open>stream.py\<close> and \<open>fake.py\<close>. The contract of the \<open>Tier2\<close>
    protocol is a locale, with the realtime client, the streaming wrapper, the fake and the shipped
    choice between them as interpretations. \<open>Realtime_Wire\<close>: the wording of the prompts, the JSON of
    requests and events, the deadlines of the exchanges, and the implementations as objects.
  \<^item> \<open>Events\<close>, \<open>Telemetry\<close>, \<open>Sink_Life\<close>, \<open>Worker\<close>, \<open>Worker_Run\<close>: \<open>telemetry/events.py\<close>, \<open>publisher.py\<close>, \<open>sqs_sink.py\<close>
    (\<open>Telemetry\<close> a round of its pump, \<open>Sink_Life\<close> the pump's loops, its sleeping and \<open>close\<close>), \<open>store.py\<close> and
    \<open>workers/telemetry_worker.py\<close> (\<open>Worker\<close> a round, \<open>Worker_Run\<close> the loop and \<open>main\<close>), the stores as
    interpretations of the locale \<open>event_store\<close>, what SQS documents as the locale \<open>sqs_queue\<close>.
  \<^item> \<open>Audio\<close>, \<open>Resample\<close>, \<open>Telephony\<close>, \<open>Fallback\<close>: \<open>telephony/\<close>, the production documents of
    \<open>api/voice.py\<close>, and \<open>resilience/fallback.py\<close>. \<open>Dev_Routes\<close>: its development documents, and a checker of
    markup all documents pass. \<open>Service\<close>: \<open>api/health.py\<close>, factories and the lifespan of \<open>main.py\<close>. \<open>Spike\<close>:
    \<open>api/spike.py\<close>.
  \<^item> \<open>Py_Text\<close>, \<open>Analyze_Audio\<close>, \<open>Check_Probe\<close>, \<open>Dev_Scripts\<close>: Python's \<open>split\<close>, \<open>in\<close> and \<open>float\<close>, and the
    tools \<open>scripts/analyze_audio.py\<close>, \<open>check_probe.py\<close>, \<open>check_menu_model.py\<close> and \<open>place_test_call.py\<close>.
    \<open>Persistence\<close>: the data classes of \<open>persistence/\<close>.
  \<^item> \<open>Testing\<close>, \<open>Speech_Wave\<close>, \<open>Simulate\<close>: \<open>testing.py\<close> (\<open>Speech_Wave\<close> its synthetic speech) and
    \<open>scripts/simulate_call.py\<close>. \<open>Simulate\<close> composes session, inline
    executor, breaker, fake Tier 2 and sink as the harness does, shows that a run over 20 ms frames is
    the fold of \<open>label_tick\<close> over the labels, and evaluates it on the scripted call.
  \<^item> \<open>Bridge\<close>, \<open>App\<close>, \<open>Media\<close>: \<open>agent/bridge.py\<close>, \<open>main.py\<close>, \<open>api/media.py\<close> and \<open>api/calls.py\<close>. \<open>App\<close> is the
    whole process: \<open>app.state\<close>, a heap of bridges (they are shared by the registry, the sockets and the
    hooks), the executors, the sockets and the tasks. The event loop runs one piece of code between
    two suspension points at a time; \<open>app_step\<close> is such a piece, and \<open>bridge_env\<close> gives a session's hooks
    the process as their world. \<open>Session_World\<close> carries an invariant of the world through a session's
    run, and is used as the locale \<open>session_world\<close> with the interpretation \<open>hooks\<close> of \<open>App_Facts\<close>;
    \<open>App_Run\<close> has the reachable states, \<open>App_Registry\<close>, \<open>App_Safety\<close>, \<open>App_Phone\<close> and \<open>App_Relay\<close> an
    invariant each, \<open>App_Demo\<close> concrete runs, \<open>App_Props\<close> the properties.

  \<^bold>\<open>What the properties show.\<close> For the whole process: a registered call is live, a failed one is
  wound up with exactly one text, the user hears only a verified human, the business is dialled at
  most three times, the handoff opens; offline, the synthetic call has exactly the timeline its script
  calls for. For the session: its contract, one outcome, keys only on a
  decision, four ticks for one chunk, the routing of errors. For the machine: the phase graph, the
  evidence table, the speech it must notice. For Tier 2: its answers fit the jobs, the probe's outcome
  is the first verdict of the whole conversation, and of what came before its deadline, the clip is
  sent whole. For the tools: the analysis counts its windows exactly, the probe check reads a probe as
  the shipped code does, the synthetic call never clips. For the services: no event
  lost uncounted, a closed sink empties its queue, the worker loses no message, the breaker's counter under interleaving, codecs and
  round trips. Several theorems show what the code does against its documentation: a redial loses
  the user, a late close ends a reconnected call, the relay can open to nobody, the breaker's half-open
  state admits any number of calls, the press cap does not bound a call, a sink closed while SQS is down
  gives up after two batches, a model that repeats the probe's question is read as a human.

  \<^bold>\<open>Bounds.\<close> No fuel is used. \<open>tick_loop\<close> is a partial function, proved to return and to need at most four
  rounds for one chunk; \<open>syllables\<close>, the loop of the synthetic speech, is another and returns on every
  draw. The handoff task looks 250 times at the queue after the line is spoken, hence 251 turns; a
  user's socket looks 100 times for its bridge. The worker's loop, which only the stop event or an
  exception ends, is unrolled for any number of polls. A closed sink's pump takes two turns more than
  events are queued. Executable definitions are evaluated in the kernel on short audio.

  \<^bold>\<open>Assumptions.\<close> \<open>expected\<close> restricts the environment: a group id made by \<open>POST /calls\<close> is new (uuid4) and a
  stream sends one \<open>start\<close>. Twilio's replies, the classifier, the realtime model's events, \<open>json.loads\<close>
  and \<open>str\<close> of a JSON value, and the order \<open>argsort\<close> gives to equal levels are parameters.

  \<^bold>\<open>Not modelled.\<close> Floats are reals: the rounding of double arithmetic is left out. Strings are
  characters of one byte. Logging and the layout of what the tools print; the wording of the texts
  sent to the user; pydantic's loading of the settings; FastAPI's routing; the signal handling of the
  worker; the times network calls take; reading and writing wave files, parsing arguments, and connecting to SQS, Postgres and the
  realtime model.
\<close>

end
